theory Spec2Isabelle
  imports Complex_Main "HOL-Library.Multiset"
begin

section \<open>Python values, failures and shared state\<close>

text \<open>
  The module \<^verbatim>\<open>wsi.py\<close> works on Python floats, unbounded Python integers and lists.
  Floats are modelled by \<^typ>\<open>real\<close> with exact arithmetic (no rounding, no infinities, no
  NaN), integers by \<^typ>\<open>int\<close>.  Every exception the modelled statements can raise is a
  value of \<open>error\<close>, and a function that can raise returns \<open>error + 'a\<close>.
\<close>

datatype error =
  IndexError | ZeroDivisionError | ValueError | TypeError | AssertionError | TypingError

text \<open>
  The subscript \<^verbatim>\<open>xs[i]\<close> of a list of length \<open>n\<close>: positions \<open>0 .. n - 1\<close> are read
  directly, positions \<open>- n .. - 1\<close> are read at \<open>n + i\<close>, anything else raises.
\<close>

definition py_index :: "'a list \<Rightarrow> int \<Rightarrow> error + 'a" where
  "py_index xs i =
     (if 0 \<le> i \<and> i < int (length xs) then Inr (xs ! nat i)
      else if - int (length xs) \<le> i \<and> i < 0 then Inr (xs ! nat (int (length xs) + i))
      else Inl IndexError)"

text \<open>The quotient \<^verbatim>\<open>a / b\<close> of two floats; Python raises when \<open>b\<close> is zero.\<close>

definition py_div :: "real \<Rightarrow> real \<Rightarrow> error + real" where
  "py_div a b = (if b \<noteq> 0 then Inr (a / b) else Inl ZeroDivisionError)"

text \<open>\<^verbatim>\<open>int(x)\<close> on a float truncates toward zero.\<close>

definition py_int :: "real \<Rightarrow> int" where
  "py_int x = (if 0 \<le> x then \<lfloor>x\<rfloor> else \<lceil>x\<rceil>)"

text \<open>
  \<^verbatim>\<open>np.argmin\<close> of a one-dimensional sequence: the first index of the minimum; an empty
  sequence raises \<^verbatim>\<open>ValueError\<close>.
\<close>

fun argmin_from :: "real list \<Rightarrow> nat" where
  "argmin_from [] = 0"
| "argmin_from [x] = 0"
| "argmin_from (x # y # ys) =
     (let j = argmin_from (y # ys) in if x \<le> (y # ys) ! j then 0 else Suc j)"

definition np_argmin :: "real list \<Rightarrow> error + int" where
  "np_argmin xs = (if xs = [] then Inl ValueError else Inr (int (argmin_from xs)))"

text \<open>
  The message printed when no level meets the tolerance carries the tolerance, the target
  spacing and the spacing that is resampled from.
\<close>

datatype diagnostic = ToleranceMiss real real real

text \<open>
  The mutable state: the per-slide \<^verbatim>\<open>_level_spacing_cache\<close> dictionary, the module
  global \<^verbatim>\<open>_printed_warning\<close>, and what has been printed.
\<close>

record state =
  level_spacing_cache :: "int \<rightharpoonup> real"
  printed_warning :: bool
  stdout :: "diagnostic list"

definition initial_state :: state where
  "initial_state = \<lparr>level_spacing_cache = Map.empty, printed_warning = False, stdout = []\<rparr>"

type_synonym 'a action = "state \<Rightarrow> (error + 'a) \<times> state"

text \<open>Sequencing: an exception ends the computation, keeping the state reached.\<close>

definition and_then :: "'a action \<Rightarrow> ('a \<Rightarrow> 'b action) \<Rightarrow> 'b action" where
  "and_then f g st = (case f st of (Inl e, st') \<Rightarrow> (Inl e, st') | (Inr x, st') \<Rightarrow> g x st')"

definition pure_step :: "error + 'a \<Rightarrow> 'a action" where
  "pure_step r st = (r, st)"

section \<open>The slide and its pyramid\<close>

text \<open>
  The attributes of \<^verbatim>\<open>WholeSlideImage\<close> that the tiling reads.  They are set once in
  \<^verbatim>\<open>__init__\<close> and never written afterwards.
\<close>

record slide =
  spacings :: "real list"
  level_dimensions :: "(int \<times> int) list"
  level_downsamples :: "(real \<times> real) list"
  seg_level :: int
  binary_mask :: "nat list list"

text \<open>\<^verbatim>\<open>get_downsamples\<close>: the ratio of the level-0 size to each level's size, per axis.\<close>

fun downsamples_loop :: "int \<times> int \<Rightarrow> (int \<times> int) list \<Rightarrow> error + (real \<times> real) list" where
  "downsamples_loop dim_0 [] = Inr []"
| "downsamples_loop dim_0 (dim_l # dims) =
     (case py_div (real_of_int (fst dim_0)) (real_of_int (fst dim_l)) of
        Inl e \<Rightarrow> Inl e
      | Inr dx \<Rightarrow>
          (case py_div (real_of_int (snd dim_0)) (real_of_int (snd dim_l)) of
             Inl e \<Rightarrow> Inl e
           | Inr dy \<Rightarrow>
               (case downsamples_loop dim_0 dims of
                  Inl e \<Rightarrow> Inl e
                | Inr rest \<Rightarrow> Inr ((dx, dy) # rest))))"

definition get_downsamples :: "(int \<times> int) list \<Rightarrow> error + (real \<times> real) list" where
  "get_downsamples dims =
     (case py_index dims 0 of Inl e \<Rightarrow> Inl e | Inr dim_0 \<Rightarrow> downsamples_loop dim_0 dims)"

text \<open>\<^verbatim>\<open>get_level_spacing\<close>: the list is read only on a cache miss, and the value read is stored.\<close>

definition get_level_spacing :: "slide \<Rightarrow> int \<Rightarrow> real action" where
  "get_level_spacing sl level st =
     (case level_spacing_cache st level of
        Some v \<Rightarrow> (Inr v, st)
      | None \<Rightarrow>
          (case py_index (spacings sl) level of
             Inl e \<Rightarrow> (Inl e, st)
           | Inr v \<Rightarrow> (Inr v, st\<lparr>level_spacing_cache := (level_spacing_cache st)(level \<mapsto> v)\<rparr>)))"

text \<open>\<^verbatim>\<open>get_best_level_for_downsample_custom\<close>: only the width factor of each level is compared.\<close>

definition get_best_level_for_downsample_custom :: "slide \<Rightarrow> real \<Rightarrow> error + int" where
  "get_best_level_for_downsample_custom sl downsample =
     np_argmin (map (\<lambda>(x, _). \<bar>x - downsample\<bar>) (level_downsamples sl))"

text \<open>The test \<^verbatim>\<open>abs(level_spacing - target_spacing) / target_spacing <= tolerance\<close>.\<close>

definition within_tolerance :: "real \<Rightarrow> real \<Rightarrow> real \<Rightarrow> error + bool" where
  "within_tolerance level_spacing target_spacing tolerance =
     (case py_div \<bar>level_spacing - target_spacing\<bar> target_spacing of
        Inl e \<Rightarrow> Inl e
      | Inr q \<Rightarrow> Inr (q \<le> tolerance))"

text \<open>
  The \<^verbatim>\<open>while\<close> loop of \<^verbatim>\<open>get_best_level_for_spacing\<close>; it returns the level, its
  spacing and \<^verbatim>\<open>is_within_tolerance\<close>.
\<close>

function spacing_walk :: "slide \<Rightarrow> real \<Rightarrow> real \<Rightarrow> int \<Rightarrow> real \<Rightarrow> (int \<times> real \<times> bool) action" where
  "spacing_walk sl target_spacing tolerance level level_spacing st =
     (if level > 0 \<and> level_spacing > target_spacing then
        (case get_level_spacing sl (level - 1) st of
           (Inl e, st') \<Rightarrow> (Inl e, st')
         | (Inr ls, st') \<Rightarrow>
             (case within_tolerance ls target_spacing tolerance of
                Inl e \<Rightarrow> (Inl e, st')
              | Inr w \<Rightarrow>
                  if w then (Inr (level - 1, ls, True), st')
                  else spacing_walk sl target_spacing tolerance (level - 1) ls st'))
      else (Inr (level, level_spacing, False), st))"
  by pat_completeness auto
termination
  by (relation "measure (\<lambda>(sl, target_spacing, tolerance, level, level_spacing, st). nat level)") auto

declare spacing_walk.simps [simp del]

text \<open>The guarded print: the body of \<^verbatim>\<open>with _warning_lock\<close>.\<close>

definition emit_warning :: "diagnostic \<Rightarrow> state \<Rightarrow> state" where
  "emit_warning d st =
     (if \<not> printed_warning st then st\<lparr>stdout := stdout st @ [d], printed_warning := True\<rparr>
      else st)"

definition get_best_level_for_spacing ::
    "slide \<Rightarrow> real \<Rightarrow> real \<Rightarrow> bool \<Rightarrow> (int \<times> bool) action" where
  "get_best_level_for_spacing sl target_spacing tolerance verbose =
     and_then (get_level_spacing sl 0) (\<lambda>spacing.
     and_then (pure_step (py_div target_spacing spacing)) (\<lambda>target_downsample.
     and_then (pure_step (get_best_level_for_downsample_custom sl target_downsample)) (\<lambda>level.
     and_then (get_level_spacing sl level) (\<lambda>level_spacing.
     and_then (pure_step (within_tolerance level_spacing target_spacing tolerance)) (\<lambda>w.
       if w then pure_step (Inr (level, True))
       else
         and_then (spacing_walk sl target_spacing tolerance level level_spacing)
           (\<lambda>(level', level_spacing', is_within_tolerance).
         and_then (pure_step (within_tolerance level_spacing' target_spacing tolerance)) (\<lambda>w'.
           (\<lambda>st. (Inr (level', is_within_tolerance),
                   if \<not> w' \<and> verbose
                   then emit_warning (ToleranceMiss tolerance target_spacing level_spacing') st
                   else st)))))))))"

section \<open>External collaborators\<close>

text \<open>
  A contour is the array of its points.  The binary mask is a grid of pixel values.  The
  OpenCV primitives and the tissue checker of \<^verbatim>\<open>wsi_utils\<close> are not part of the module; the
  model takes them as parameters.  \<^verbatim>\<open>cv2.findContours\<close> returns the contours with one
  hierarchy row \<open>(next, previous, first_child, parent)\<close> per contour, or no hierarchy at all
  when the mask has no contour.
\<close>

type_synonym contour = "(int \<times> int) list"

type_synonym mask = "nat list list"

record externals =
  findContours :: "mask \<Rightarrow> contour list \<times> (int \<times> int \<times> int \<times> int) list option"
  contourArea :: "contour \<Rightarrow> real"
  boundingRect :: "contour \<Rightarrow> int \<times> int \<times> int \<times> int"
  check_coordinates ::
    "contour \<Rightarrow> contour list \<Rightarrow> mask \<Rightarrow> int \<Rightarrow> real \<times> real \<Rightarrow> real \<Rightarrow>
     (int \<times> int) list \<Rightarrow> bool list \<times> real list"

section \<open>Contour filtering\<close>

record filter_params =
  ref_tile_size :: int
  a_t :: int
  a_h :: int
  max_n_holes :: int

text \<open>\<^verbatim>\<open>np.flatnonzero(hierarchy[:, 1] == p)\<close>: the rows whose parent is \<open>p\<close>, in ascending order.\<close>

definition children_of :: "(int \<times> int) list \<Rightarrow> int \<Rightarrow> nat list" where
  "children_of hierarchy p = filter (\<lambda>i. snd (hierarchy ! i) = p) [0..<length hierarchy]"

text \<open>The comprehension \<^verbatim>\<open>[contours[idx] for idx in ids]\<close>.\<close>

fun contours_at :: "contour list \<Rightarrow> nat list \<Rightarrow> error + contour list" where
  "contours_at contours [] = Inr []"
| "contours_at contours (idx # ids) =
     (case py_index contours (int idx) of
        Inl e \<Rightarrow> Inl e
      | Inr c \<Rightarrow>
          (case contours_at contours ids of Inl e \<Rightarrow> Inl e | Inr cs \<Rightarrow> Inr (c # cs)))"

text \<open>The slice \<^verbatim>\<open>xs[:m]\<close>: a negative \<open>m\<close> drops that many elements from the end.\<close>

definition py_take :: "int \<Rightarrow> 'a list \<Rightarrow> 'a list" where
  "py_take m xs = (if 0 \<le> m then take (nat m) xs else take (nat (int (length xs) + m)) xs)"

text \<open>
  The first loop of \<^verbatim>\<open>filter_contours\<close>, over the foreground contour indices, with the
  lists \<^verbatim>\<open>filtered\<close> and \<^verbatim>\<open>all_holes\<close> it appends to.
\<close>

fun foreground_loop ::
    "externals \<Rightarrow> contour list \<Rightarrow> (int \<times> int) list \<Rightarrow> filter_params \<Rightarrow> nat list \<Rightarrow>
     nat list \<times> nat list list \<Rightarrow> error + nat list \<times> nat list list" where
  "foreground_loop cv contours hierarchy fp [] acc = Inr acc"
| "foreground_loop cv contours hierarchy fp (cont_idx # rest) (filtered, all_holes) =
     (case py_index contours (int cont_idx) of
        Inl e \<Rightarrow> Inl e
      | Inr cont \<Rightarrow>
          (let holes = children_of hierarchy (int cont_idx) in
           case contours_at contours holes of
             Inl e \<Rightarrow> Inl e
           | Inr hole_contours \<Rightarrow>
               (let a = contourArea cv cont - sum_list (map (contourArea cv) hole_contours) in
                if a = 0 then foreground_loop cv contours hierarchy fp rest (filtered, all_holes)
                else if a > real_of_int (a_t fp)
                then foreground_loop cv contours hierarchy fp rest
                       (filtered @ [cont_idx], all_holes @ [holes])
                else foreground_loop cv contours hierarchy fp rest (filtered, all_holes))))"

text \<open>
  The second loop: the holes of one retained contour are sorted by area, largest first
  (\<^verbatim>\<open>sorted\<close> is stable, also with \<^verbatim>\<open>reverse=True\<close>), cut to \<^verbatim>\<open>max_n_holes\<close> and filtered
  by area.
\<close>

fun holes_loop ::
    "externals \<Rightarrow> contour list \<Rightarrow> filter_params \<Rightarrow> nat list list \<Rightarrow> error + contour list list" where
  "holes_loop cv contours fp [] = Inr []"
| "holes_loop cv contours fp (hole_ids # rest) =
     (case contours_at contours hole_ids of
        Inl e \<Rightarrow> Inl e
      | Inr unfiltered_holes \<Rightarrow>
          (let unfilered_holes =
                 py_take (max_n_holes fp) (sort_key (\<lambda>c. - contourArea cv c) unfiltered_holes);
               filtered_holes =
                 filter (\<lambda>hole. contourArea cv hole > real_of_int (a_h fp)) unfilered_holes
           in case holes_loop cv contours fp rest of
                Inl e \<Rightarrow> Inl e
              | Inr hole_contours \<Rightarrow> Inr (filtered_holes # hole_contours)))"

definition filter_contours ::
    "externals \<Rightarrow> contour list \<Rightarrow> (int \<times> int) list \<Rightarrow> filter_params \<Rightarrow>
     error + contour list \<times> contour list list" where
  "filter_contours cv contours hierarchy fp =
     (case foreground_loop cv contours hierarchy fp (children_of hierarchy (- 1)) ([], []) of
        Inl e \<Rightarrow> Inl e
      | Inr (filtered, all_holes) \<Rightarrow>
          (case contours_at contours filtered of
             Inl e \<Rightarrow> Inl e
           | Inr foreground_contours \<Rightarrow>
               (case holes_loop cv contours fp all_holes of
                  Inl e \<Rightarrow> Inl e
                | Inr hole_contours \<Rightarrow> Inr (foreground_contours, hole_contours))))"

text \<open>
  \<^verbatim>\<open>scaleContourDim\<close>: \<^verbatim>\<open>np.array(cont * scale, dtype="int32")\<close> multiplies every point by the
  scale pair and truncates (values are assumed to fit 32 bits).  The argument list may hold
  \<^verbatim>\<open>None\<close>, as \<^verbatim>\<open>process_contour\<close> allows for its contour; \<^verbatim>\<open>None * scale\<close> with a tuple
  raises \<^verbatim>\<open>TypeError\<close>.
\<close>

definition scale_points :: "contour \<Rightarrow> real \<times> real \<Rightarrow> contour" where
  "scale_points cont scale =
     map (\<lambda>(x, y). (py_int (real_of_int x * fst scale), py_int (real_of_int y * snd scale))) cont"

fun scaleContourDim :: "contour option list \<Rightarrow> real \<times> real \<Rightarrow> error + contour list" where
  "scaleContourDim [] scale = Inr []"
| "scaleContourDim (None # contours) scale = Inl TypeError"
| "scaleContourDim (Some cont # contours) scale =
     (case scaleContourDim contours scale of
        Inl e \<Rightarrow> Inl e
      | Inr cs \<Rightarrow> Inr (scale_points cont scale # cs))"

fun scaleHolesDim :: "contour list list \<Rightarrow> real \<times> real \<Rightarrow> contour list list" where
  "scaleHolesDim contours scale = map (map (\<lambda>hole. scale_points hole scale)) contours"

text \<open>The threshold scaling of \<^verbatim>\<open>detect_contours\<close>, up to \<^verbatim>\<open>_filter_params\<close>.\<close>

definition scaled_filter_params ::
    "slide \<Rightarrow> filter_params \<Rightarrow> int \<Rightarrow> error + (real \<times> real) \<times> filter_params" where
  "scaled_filter_params sl fp spacing_level =
     (case py_index (level_downsamples sl) spacing_level of
        Inl e \<Rightarrow> Inl e
      | Inr current_scale \<Rightarrow>
     (case py_index (level_downsamples sl) (seg_level sl) of
        Inl e \<Rightarrow> Inl e
      | Inr target_scale \<Rightarrow>
     (case py_div (fst target_scale) (fst current_scale) of
        Inl e \<Rightarrow> Inl e
      | Inr scale_0 \<Rightarrow>
     (case py_div (snd target_scale) (snd current_scale) of
        Inl e \<Rightarrow> Inl e
      | Inr scale_1 \<Rightarrow>
     (case py_div (real_of_int ((ref_tile_size fp)\<^sup>2)) (scale_0 * scale_1) of
        Inl e \<Rightarrow> Inl e
      | Inr q \<Rightarrow>
          (let scaled_ref_tile_area = py_int q in
           Inr (target_scale,
                \<lparr>ref_tile_size = ref_tile_size fp,
                 a_t = a_t fp * scaled_ref_tile_area,
                 a_h = a_h fp * scaled_ref_tile_area,
                 max_n_holes = max_n_holes fp\<rparr>)))))))"

text \<open>The slice \<^verbatim>\<open>[:, 2:]\<close> of the hierarchy: the columns \<open>(first_child, parent)\<close>.\<close>

definition child_parent :: "(int \<times> int \<times> int \<times> int) list \<Rightarrow> (int \<times> int) list" where
  "child_parent rows = map (\<lambda>(nxt, prv, first_child, parent). (first_child, parent)) rows"

text \<open>
  \<^verbatim>\<open>detect_contours\<close>.  When the mask has no contour there is no hierarchy to squeeze and
  slice, and \<^verbatim>\<open>np.squeeze\<close> with an explicit axis raises.
\<close>

definition detect_contours ::
    "externals \<Rightarrow> slide \<Rightarrow> real \<Rightarrow> real \<Rightarrow> filter_params \<Rightarrow>
     (contour list \<times> contour list list) action" where
  "detect_contours cv sl target_spacing tolerance fp =
     and_then (get_best_level_for_spacing sl target_spacing tolerance False)
       (\<lambda>(spacing_level, _).
     and_then (pure_step (scaled_filter_params sl fp spacing_level))
       (\<lambda>(target_scale, fp').
     (case findContours cv (binary_mask sl) of
        (contours, None) \<Rightarrow> pure_step (Inl ValueError)
      | (contours, Some rows) \<Rightarrow>
          (let hierarchy = child_parent rows in
           and_then (pure_step (filter_contours cv contours hierarchy fp'))
             (\<lambda>(foreground_contours, hole_contours).
           and_then (pure_step (scaleContourDim (map Some foreground_contours) target_scale))
             (\<lambda>contours'.
           pure_step (Inr (contours', scaleHolesDim hole_contours target_scale))))))))"

section \<open>Tiling one contour\<close>

record tiling_params =
  spacing :: real
  tolerance :: real
  tile_size :: int
  overlap :: real
  drop_holes :: bool
  min_tissue_ratio :: real
  use_padding :: bool

text \<open>
  What \<^verbatim>\<open>process_contour\<close> returns: the x and y coordinates, the tissue percentages, the tile
  level and the resize factor; the last two are \<^verbatim>\<open>None\<close> when no tile is kept.
\<close>

type_synonym contour_result = "int list \<times> int list \<times> real list \<times> int option \<times> real option"

text \<open>Chaining computations that can raise.\<close>

definition on_success :: "error + 'a \<Rightarrow> ('a \<Rightarrow> error + 'b) \<Rightarrow> error + 'b" where
  "on_success r f = (case r of Inl e \<Rightarrow> Inl e | Inr x \<Rightarrow> f x)"

text \<open>
  \<^verbatim>\<open>np.arange(start, stop, step)\<close> on integers: \<open>\<lceil>(stop - start) / step\<rceil>\<close> values from
  \<open>start\<close> in steps of \<open>step\<close>, none if that number is not positive; a zero step raises.
\<close>

definition np_arange :: "int \<Rightarrow> int \<Rightarrow> int \<Rightarrow> error + int list" where
  "np_arange start stop step =
     (if step = 0 then Inl ZeroDivisionError
      else Inr (map (\<lambda>i. start + int i * step) [0..<nat (- ((start - stop) div step))]))"

text \<open>
  Indexing an array with a boolean mask keeps the positions where the mask is true; a mask
  of another length raises.
\<close>

definition mask_select :: "'a list \<Rightarrow> bool list \<Rightarrow> error + 'a list" where
  "mask_select xs flags =
     (if length flags \<noteq> length xs then Inl IndexError
      else Inr (map fst (filter snd (zip xs flags))))"

text \<open>
  \<^verbatim>\<open>isInHoles\<close> is declared to tell whether the centre of the tile at \<open>pt\<close> lies strictly
  inside one of the holes, with a loop over the holes that calls \<^verbatim>\<open>cv2.pointPolygonTest\<close>.  The
  method is decorated with \<^verbatim>\<open>@njit\<close>: a call first compiles the body in numba's nopython mode,
  where the call into \<^verbatim>\<open>cv2\<close> cannot be typed.  Compilation fails on every call, for all
  arguments, so the loop never runs and the call raises numba's \<^verbatim>\<open>TypingError\<close>.
\<close>

definition isInHoles :: "contour list \<Rightarrow> int \<times> int \<Rightarrow> int \<Rightarrow> error + bool" where
  "isInHoles holes pt tile_sz = Inl TypingError"

text \<open>
  The comprehension of \<^verbatim>\<open>process_contour\<close> under \<^verbatim>\<open>drop_holes\<close>: for every pair of
  \<^verbatim>\<open>zip(keep_flags, coord_candidates)\<close> the new flag is
  \<^verbatim>\<open>flag and not self.isInHoles(contour_holes, coord, ref_tile_size[0])\<close>.  The \<^verbatim>\<open>and\<close>
  evaluates its right operand only for a true flag, so \<^verbatim>\<open>isInHoles\<close> is called for the kept
  candidates only, and the first such call ends the comprehension with its error.
\<close>

fun hole_free_flags ::
    "contour list \<Rightarrow> int \<Rightarrow> (bool \<times> (int \<times> int)) list \<Rightarrow> error + bool list" where
  "hole_free_flags contour_holes tile_sz [] = Inr []"
| "hole_free_flags contour_holes tile_sz ((flag, coord) # rest) =
     on_success (if flag
                 then on_success (isInHoles contour_holes coord tile_sz) (\<lambda>inside. Inr (\<not> inside))
                 else Inr False) (\<lambda>kept.
     on_success (hole_free_flags contour_holes tile_sz rest) (\<lambda>flags.
       Inr (kept # flags)))"

text \<open>The bounding box of the scan: that of the contour, or the size of the tile level.\<close>

definition scan_box ::
    "externals \<Rightarrow> slide \<Rightarrow> contour option \<Rightarrow> int \<Rightarrow> error + int \<times> int \<times> int \<times> int" where
  "scan_box cv sl contour tile_level =
     (case contour of
        Some c \<Rightarrow> Inr (boundingRect cv c)
      | None \<Rightarrow>
          on_success (py_index (level_dimensions sl) tile_level)
            (\<lambda>level_dim. Inr (0, 0, fst level_dim, snd level_dim)))"

text \<open>
  Where the scan stops on each axis, \<open>(stop_x, stop_y)\<close>; \<open>ref_tile_sz\<close> stands for the local
  \<^verbatim>\<open>ref_tile_size\<close> of \<^verbatim>\<open>process_contour\<close>, the tile size in level-0 pixels per axis.
\<close>

definition scan_stops ::
    "bool \<Rightarrow> int \<times> int \<times> int \<times> int \<Rightarrow> int \<times> int \<Rightarrow> int \<times> int \<Rightarrow> int \<times> int" where
  "scan_stops padding box img ref_tile_sz =
     (case box of (start_x, start_y, w, h) \<Rightarrow>
        if padding then (start_x + w, start_y + h)
        else (min (start_x + w) (fst img - fst ref_tile_sz + 1),
              min (start_y + h) (snd img - snd ref_tile_sz + 1)))"

text \<open>
  The candidate coordinates: \<^verbatim>\<open>meshgrid\<close> with \<^verbatim>\<open>indexing="ij"\<close>, flattened, pairs every x
  with every y, the y varying fastest.
\<close>

definition coord_candidates ::
    "int \<times> int \<times> int \<times> int \<Rightarrow> int \<times> int \<Rightarrow> int \<times> int \<Rightarrow> error + (int \<times> int) list" where
  "coord_candidates box stops ref_step_size =
     (case box of (start_x, start_y, w, h) \<Rightarrow>
        on_success (np_arange start_x (fst stops) (fst ref_step_size)) (\<lambda>x_range.
        on_success (np_arange start_y (snd stops) (snd ref_step_size)) (\<lambda>y_range.
          Inr (List.product x_range y_range))))"

text \<open>
  The tissue check on all candidates, the hole test when \<^verbatim>\<open>drop_holes\<close> is set, and the
  selection of the kept coordinates and their tissue percentages.
\<close>

definition filtered_tiles ::
    "externals \<Rightarrow> slide \<Rightarrow> contour \<Rightarrow> contour list \<Rightarrow> tiling_params \<Rightarrow> int \<Rightarrow> real \<times> real \<Rightarrow>
     (int \<times> int) list \<Rightarrow> error + (int \<times> int) list \<times> real list" where
  "filtered_tiles cv sl cont contour_holes tp ref_tile_sz_0 scale candidates =
     (case check_coordinates cv cont contour_holes (binary_mask sl) ref_tile_sz_0 scale
             (min_tissue_ratio tp) candidates of
        (keep_flags, tissue_pcts) \<Rightarrow>
          on_success (if drop_holes tp
                      then hole_free_flags contour_holes ref_tile_sz_0 (zip keep_flags candidates)
                      else Inr keep_flags) (\<lambda>keep_flags'.
          on_success (mask_select candidates keep_flags') (\<lambda>filtered_coordinates.
          on_success (mask_select tissue_pcts keep_flags') (\<lambda>filtered_tissue_percentages.
            Inr (filtered_coordinates, filtered_tissue_percentages)))))"

text \<open>
  The sizes \<^verbatim>\<open>process_contour\<close> derives from the resize factor and from the downsample pair
  of the tile level: \<^verbatim>\<open>tile_size_resized\<close>, \<^verbatim>\<open>step_size\<close>, \<^verbatim>\<open>tile_downsample\<close>,
  \<^verbatim>\<open>ref_tile_size\<close> (here \<open>ref_tile_sz\<close>) and the pair of \<^verbatim>\<open>ref_step_size_x\<close> and
  \<^verbatim>\<open>ref_step_size_y\<close>.
\<close>

definition tile_size_resized :: "tiling_params \<Rightarrow> real \<Rightarrow> int" where
  "tile_size_resized tp resize_factor = py_int (real_of_int (tile_size tp) * resize_factor)"

definition step_size :: "tiling_params \<Rightarrow> real \<Rightarrow> int" where
  "step_size tp resize_factor =
     py_int (real_of_int (tile_size_resized tp resize_factor) * (1 - overlap tp))"

definition tile_downsample :: "real \<times> real \<Rightarrow> int \<times> int" where
  "tile_downsample level_downsample = (py_int (fst level_downsample), py_int (snd level_downsample))"

definition ref_tile_sz :: "tiling_params \<Rightarrow> real \<Rightarrow> real \<times> real \<Rightarrow> int \<times> int" where
  "ref_tile_sz tp resize_factor level_downsample =
     (tile_size_resized tp resize_factor * fst (tile_downsample level_downsample),
      tile_size_resized tp resize_factor * snd (tile_downsample level_downsample))"

definition ref_step_size :: "tiling_params \<Rightarrow> real \<Rightarrow> real \<times> real \<Rightarrow> int \<times> int" where
  "ref_step_size tp resize_factor level_downsample =
     (step_size tp resize_factor * fst (tile_downsample level_downsample),
      step_size tp resize_factor * snd (tile_downsample level_downsample))"

text \<open>
  The body of \<^verbatim>\<open>process_contour\<close> after the level and its spacing are known.  The division
  for the resize factor is made before the tolerance flag is looked at.
\<close>

definition contour_tiles ::
    "externals \<Rightarrow> slide \<Rightarrow> contour option \<Rightarrow> contour list \<Rightarrow> tiling_params \<Rightarrow>
     int \<Rightarrow> bool \<Rightarrow> real \<Rightarrow> error + contour_result" where
  "contour_tiles cv sl contour contour_holes tp tile_level is_within_tolerance tile_spacing =
     on_success (py_div (spacing tp) tile_spacing) (\<lambda>q.
     (let resize_factor = (if is_within_tolerance then 1 else q) in
     on_success (scan_box cv sl contour tile_level) (\<lambda>box.
     on_success (py_index (level_downsamples sl) tile_level) (\<lambda>level_downsample.
     on_success (py_index (level_dimensions sl) 0) (\<lambda>img.
     (let stops = scan_stops (use_padding tp) box img
                    (ref_tile_sz tp resize_factor level_downsample) in
     on_success (py_index (level_downsamples sl) (seg_level sl)) (\<lambda>scale.
     on_success (py_div 1 (fst scale)) (\<lambda>inv_x.
     on_success (py_div 1 (snd scale)) (\<lambda>inv_y.
     on_success (scaleContourDim [contour] (inv_x, inv_y)) (\<lambda>scaled.
     on_success (py_index scaled 0) (\<lambda>cont.
     on_success (coord_candidates box stops (ref_step_size tp resize_factor level_downsample))
       (\<lambda>candidates.
     on_success (filtered_tiles cv sl cont contour_holes tp
                   (fst (ref_tile_sz tp resize_factor level_downsample)) scale candidates)
       (\<lambda>(filtered_coordinates, filtered_tissue_percentages).
          if length filtered_coordinates > 0
          then Inr (map fst filtered_coordinates, map snd filtered_coordinates,
                    filtered_tissue_percentages, Some tile_level, Some resize_factor)
          else Inr ([], [], [], None, None))))))))))))))"

definition process_contour ::
    "externals \<Rightarrow> slide \<Rightarrow> contour option \<Rightarrow> contour list \<Rightarrow> tiling_params \<Rightarrow>
     contour_result action" where
  "process_contour cv sl contour contour_holes tp =
     and_then (get_best_level_for_spacing sl (spacing tp) (tolerance tp) True)
       (\<lambda>(tile_level, is_within_tolerance).
     and_then (get_level_spacing sl tile_level) (\<lambda>tile_spacing.
     pure_step (contour_tiles cv sl contour contour_holes tp tile_level is_within_tolerance
                  tile_spacing)))"

section \<open>The dispatcher\<close>

text \<open>
  \<^verbatim>\<open>ThreadPoolExecutor(max_workers=num_workers)\<close> refuses a worker count below one.  With one
  worker the tasks run in submission order.  With more workers they run side by side; the
  model lets each task run to its end before the next one, in the order given by a schedule
  that assigns each task its turn, so the only freedom is the order in which the tasks reach
  the shared state.  \<^verbatim>\<open>executor.map\<close> hands the results back in submission order, and turning
  them into a list raises the first exception met in that order.
\<close>

definition task_order :: "int \<Rightarrow> (nat \<Rightarrow> nat) \<Rightarrow> nat \<Rightarrow> nat list" where
  "task_order num_workers schedule n =
     (if num_workers = 1 then [0..<n] else sort_key schedule [0..<n])"

fun run_tasks :: "(nat \<Rightarrow> 'r action) \<Rightarrow> nat list \<Rightarrow> state \<Rightarrow> (nat \<times> (error + 'r)) list \<times> state" where
  "run_tasks task [] st = ([], st)"
| "run_tasks task (i # order) st =
     (case task i st of
        (r, st') \<Rightarrow> (case run_tasks task order st' of (rs, st'') \<Rightarrow> ((i, r) # rs, st'')))"

fun collect_results :: "(error + 'r) list \<Rightarrow> error + 'r list" where
  "collect_results [] = Inr []"
| "collect_results (Inl e # rs) = Inl e"
| "collect_results (Inr r # rs) =
     (case collect_results rs of Inl e \<Rightarrow> Inl e | Inr rest \<Rightarrow> Inr (r # rest))"

definition executor_map ::
    "(nat \<Rightarrow> 'r action) \<Rightarrow> nat \<Rightarrow> int \<Rightarrow> (nat \<Rightarrow> nat) \<Rightarrow> ('r list) action" where
  "executor_map task n num_workers schedule st =
     (if num_workers \<le> 0 then (Inl ValueError, st)
      else case run_tasks task (task_order num_workers schedule n) st of
             (finished, st') \<Rightarrow> (collect_results (map snd (sort_key fst finished)), st'))"

text \<open>\<^verbatim>\<open>process_single_contour\<close>: the task for contour \<open>i\<close>.\<close>

definition process_single_contour ::
    "externals \<Rightarrow> slide \<Rightarrow> contour list \<Rightarrow> contour list list \<Rightarrow> tiling_params \<Rightarrow> nat \<Rightarrow>
     contour_result action" where
  "process_single_contour cv sl contours holes tp i =
     and_then (pure_step (py_index contours (int i))) (\<lambda>contour.
     and_then (pure_step (py_index holes (int i))) (\<lambda>contour_holes.
     process_contour cv sl (Some contour) contour_holes tp))"

text \<open>
  The loop of \<^verbatim>\<open>process_contours\<close> over the results, with the running lists, the tile level
  and the resize factor it updates.
\<close>

fun merge_results :: "contour_result list \<Rightarrow> contour_result \<Rightarrow> error + contour_result" where
  "merge_results [] running = Inr running"
| "merge_results ((x_coords, y_coords, tissue_pct, cont_tile_level, cont_resize_factor) # results)
       (running_x_coords, running_y_coords, running_tissue_pct, tile_level, resize_factor) =
     (if length x_coords > 0 then
        (if tile_level \<noteq> None \<and> tile_level \<noteq> cont_tile_level then Inl AssertionError
         else merge_results results
                (running_x_coords @ x_coords, running_y_coords @ y_coords,
                 running_tissue_pct @ tissue_pct, cont_tile_level, cont_resize_factor))
      else merge_results results
             (running_x_coords, running_y_coords, running_tissue_pct, tile_level, resize_factor))"

definition process_contours ::
    "externals \<Rightarrow> slide \<Rightarrow> contour list \<Rightarrow> contour list list \<Rightarrow> tiling_params \<Rightarrow> int \<Rightarrow>
     (nat \<Rightarrow> nat) \<Rightarrow> contour_result action" where
  "process_contours cv sl contours holes tp num_workers schedule =
     and_then (executor_map (process_single_contour cv sl contours holes tp) (length contours)
                 num_workers schedule)
       (\<lambda>results. pure_step (merge_results results ([], [], [], None, None)))"

text \<open>
  \<^verbatim>\<open>get_tile_coordinates\<close> returns the coordinate pairs, the tissue percentages, the tile
  level, the resize factor and the tile size at level 0.
\<close>

definition get_tile_coordinates ::
    "externals \<Rightarrow> slide \<Rightarrow> tiling_params \<Rightarrow> filter_params \<Rightarrow> int \<Rightarrow> (nat \<Rightarrow> nat) \<Rightarrow>
     ((int \<times> int) list \<times> real list \<times> int option \<times> real option \<times> int) action" where
  "get_tile_coordinates cv sl tp fp num_workers schedule =
     and_then (get_level_spacing sl 0) (\<lambda>level_0_spacing.
     and_then (pure_step (py_div (spacing tp) level_0_spacing)) (\<lambda>scale.
     (let tile_size_lv0 = py_int (real_of_int (tile_size tp) * scale) in
     and_then (detect_contours cv sl (spacing tp) (tolerance tp) fp) (\<lambda>(contours, holes).
     and_then (process_contours cv sl contours holes tp num_workers schedule)
       (\<lambda>(running_x_coords, running_y_coords, tissue_percentages, tile_level, resize_factor).
     pure_step (Inr (zip running_x_coords running_y_coords, tissue_percentages, tile_level,
                     resize_factor, tile_size_lv0)))))))"

section \<open>Invariants of the shared state\<close>

text \<open>
  The cache is only written by \<^verbatim>\<open>get_level_spacing\<close>, with values read from the list:
  every entry agrees with the list.
\<close>

definition cache_ok :: "slide \<Rightarrow> state \<Rightarrow> bool" where
  "cache_ok sl st \<longleftrightarrow>
     (\<forall>l v. level_spacing_cache st l = Some v \<longrightarrow> py_index (spacings sl) l = Inr v)"

text \<open>What the guard maintains: at most one message, and none unless the flag is set.\<close>

definition warned_once :: "state \<Rightarrow> bool" where
  "warned_once st \<longleftrightarrow> length (stdout st) \<le> 1 \<and> (printed_warning st \<or> stdout st = [])"

text \<open>
  Two actions agree when both keep the cache in agreement with the slide and, started in any
  two such states, return the same value or raise the same exception.
\<close>

definition agree :: "slide \<Rightarrow> 'a action \<Rightarrow> 'a action \<Rightarrow> bool" where
  "agree sl f g \<longleftrightarrow>
     (\<forall>s. cache_ok sl s \<longrightarrow> cache_ok sl (snd (f s)) \<and> cache_ok sl (snd (g s))) \<and>
     (\<forall>s1 s2. cache_ok sl s1 \<longrightarrow> cache_ok sl s2 \<longrightarrow> fst (f s1) = fst (g s2))"

section \<open>The life of the process\<close>

text \<open>
  The flag \<^verbatim>\<open>_printed_warning\<close> and the output are shared by every call made in the process,
  on whichever slide; the cache belongs to the slide object the call is made on.  The flag
  and the output are read and written only inside \<^verbatim>\<open>with _warning_lock\<close>, so calls running in
  several threads touch them in some order, one guarded block after the other.  A process is
  modelled by the list of its calls in that order, each with its slide, the cache contents of
  that slide at the call, and its arguments.
\<close>

type_synonym spacing_call = "slide \<times> (int \<rightharpoonup> real) \<times> real \<times> real \<times> bool"

fun run_calls :: "spacing_call list \<Rightarrow> state \<Rightarrow> state" where
  "run_calls [] st = st"
| "run_calls ((sl, cache, target, tol, verbose) # calls) st =
     run_calls calls
       (snd (get_best_level_for_spacing sl target tol verbose
              (st\<lparr>level_spacing_cache := cache\<rparr>)))"

section \<open>What is kept, in the words of the specification\<close>

text \<open>
  The area of a contour minus the summed area of its immediate holes (the contours whose
  parent it is).
\<close>

definition net_area :: "externals \<Rightarrow> contour list \<Rightarrow> (int \<times> int) list \<Rightarrow> nat \<Rightarrow> real" where
  "net_area cv contours hierarchy i =
     contourArea cv (contours ! i)
       - sum_list (map (\<lambda>j. contourArea cv (contours ! j)) (children_of hierarchy (int i)))"

text \<open>The holes of contour \<open>i\<close>, largest area first, equal areas in index order.\<close>

definition ranked_holes :: "externals \<Rightarrow> contour list \<Rightarrow> (int \<times> int) list \<Rightarrow> nat \<Rightarrow> contour list" where
  "ranked_holes cv contours hierarchy i =
     sort_key (\<lambda>c. - contourArea cv c) (map (\<lambda>j. contours ! j) (children_of hierarchy (int i)))"

text \<open>
  The parent-less contours, in index order, whose net area is not zero and exceeds a
  threshold.
\<close>

definition retained_indices ::
    "externals \<Rightarrow> contour list \<Rightarrow> (int \<times> int) list \<Rightarrow> int \<Rightarrow> nat list" where
  "retained_indices cv contours hierarchy threshold =
     filter (\<lambda>i. net_area cv contours hierarchy i \<noteq> 0 \<and>
                  net_area cv contours hierarchy i > real_of_int threshold)
       (children_of hierarchy (- 1))"

text \<open>The results that hold at least one tile, and the level and factor a result reports.\<close>

definition tiled :: "contour_result list \<Rightarrow> contour_result list" where
  "tiled results = filter (\<lambda>r. fst r \<noteq> []) results"

definition level_of :: "contour_result \<Rightarrow> int option" where
  "level_of r = fst (snd (snd (snd r)))"

definition factor_of :: "contour_result \<Rightarrow> real option" where
  "factor_of r = snd (snd (snd (snd r)))"

section \<open>Example slides, states and calls\<close>

text \<open>A two-level pyramid whose second level is four times smaller and has twice the spacing.\<close>

definition two_level_slide :: slide where
  "two_level_slide =
     \<lparr>spacings = [1/4, 1/2], level_dimensions = [(1000, 1000), (250, 250)],
      level_downsamples = [(1, 1), (4, 4)], seg_level = 1, binary_mask = []\<rparr>"

text \<open>
  A three-level pyramid whose widths shrink by less than its spacings grow: the width factors
  are 1, 1.25 and 2, the spacings 0.25, 0.5 and 1.
\<close>

definition skewed_slide :: slide where
  "skewed_slide =
     \<lparr>spacings = [1/4, 1/2, 1], level_dimensions = [(1000, 1000), (800, 800), (500, 500)],
      level_downsamples = [(1, 1), (5/4, 5/4), (2, 2)], seg_level = 2, binary_mask = []\<rparr>"

text \<open>A two-level pyramid whose second level, used for segmentation, is three times smaller.\<close>

definition threefold_slide :: slide where
  "threefold_slide =
     \<lparr>spacings = [1/4, 3/4], level_dimensions = [(3000, 3000), (1000, 1000)],
      level_downsamples = [(1, 1), (3, 3)], seg_level = 1, binary_mask = []\<rparr>"

text \<open>A one-level slide of 10 by 10 pixels and a contour around all of it.\<close>

definition tiny_slide :: slide where
  "tiny_slide =
     \<lparr>spacings = [1/4], level_dimensions = [(10, 10)], level_downsamples = [(1, 1)],
      seg_level = 0, binary_mask = []\<rparr>"

definition tiny_contour :: contour where
  "tiny_contour = [(0, 0), (0, 9), (9, 9), (9, 0)]"

text \<open>The state after level 0 of a slide with spacing 0.25 has been looked up.\<close>

definition warm_state :: state where
  "warm_state = initial_state\<lparr>level_spacing_cache := [0 \<mapsto> 1/4]\<rparr>"

text \<open>
  A call on the two-level slide that asks for spacing 0.5 within 10 percent and reports a
  miss: the closest width factor is that of level 0, whose spacing 0.25 is too far.
\<close>

definition missing_call :: spacing_call where
  "missing_call = (two_level_slide, Map.empty, 1/2, 1/10, True)"

section \<open>Example collaborators and masks\<close>

text \<open>
  For the examples, the area of a contour is the area of the polygon through its points
  (Green's formula, as \<^verbatim>\<open>cv2.contourArea\<close> computes it) and the bounding rectangle is the
  smallest upright rectangle of pixels that holds the points.
\<close>

fun cross_sum :: "int \<times> int \<Rightarrow> contour \<Rightarrow> int" where
  "cross_sum p0 [] = 0"
| "cross_sum p0 [p] = fst p * snd p0 - fst p0 * snd p"
| "cross_sum p0 (p # q # ps) = fst p * snd q - fst q * snd p + cross_sum p0 (q # ps)"

definition polygon_area :: "contour \<Rightarrow> real" where
  "polygon_area c = (case c of [] \<Rightarrow> 0 | p0 # _ \<Rightarrow> \<bar>real_of_int (cross_sum p0 c)\<bar> / 2)"

definition bounding_rect :: "contour \<Rightarrow> int \<times> int \<times> int \<times> int" where
  "bounding_rect c =
     (case c of
        [] \<Rightarrow> (0, 0, 0, 0)
      | p0 # ps \<Rightarrow>
          (let x0 = fold min (map fst ps) (fst p0); x1 = fold max (map fst ps) (fst p0);
               y0 = fold min (map snd ps) (snd p0); y1 = fold max (map snd ps) (snd p0)
           in (x0, y0, x1 - x0 + 1, y1 - y0 + 1)))"

text \<open>
  Collaborators that find the given contours in any mask and keep every candidate tile as
  full of tissue.
\<close>

definition cv_finding ::
    "contour list \<times> (int \<times> int \<times> int \<times> int) list option \<Rightarrow> externals" where
  "cv_finding found =
     \<lparr>findContours = (\<lambda>m. found),
      contourArea = polygon_area,
      boundingRect = bounding_rect,
      check_coordinates =
        (\<lambda>cont holes m tile_size scale pct coords.
           (map (\<lambda>c. True) coords, map (\<lambda>c. 1) coords))\<rparr>"

text \<open>Collaborators like \<open>cv_finding\<close>, except that the tissue check keeps no candidate.\<close>

definition cv_rejecting ::
    "contour list \<times> (int \<times> int \<times> int \<times> int) list option \<Rightarrow> externals" where
  "cv_rejecting found =
     (cv_finding found)
       \<lparr>check_coordinates :=
          (\<lambda>cont holes m tile_sz scale pct coords.
             (map (\<lambda>c. False) coords, map (\<lambda>c. 0) coords))\<rparr>"

text \<open>A rectangle of area 85 with no hole.\<close>

definition small_blob :: "contour list \<times> (int \<times> int \<times> int \<times> int) list option" where
  "small_blob = ([[(0, 0), (0, 5), (17, 5), (17, 0)]], Some [(- 1, - 1, - 1, - 1)])"

text \<open>A square of area 10000 with three square holes of areas 100, 400 and 25.\<close>

definition holed_blob :: "contour list \<times> (int \<times> int \<times> int \<times> int) list option" where
  "holed_blob =
     ([[(0, 0), (0, 100), (100, 100), (100, 0)],
       [(10, 10), (10, 20), (20, 20), (20, 10)],
       [(30, 30), (30, 50), (50, 50), (50, 30)],
       [(60, 60), (60, 65), (65, 65), (65, 60)]],
      Some [(- 1, - 1, 1, - 1), (2, - 1, - 1, 0), (3, 1, - 1, 0), (- 1, 2, - 1, 0)])"

text \<open>Two rectangles of area 85 side by side, neither with a hole.\<close>

definition two_blobs :: "contour list \<times> (int \<times> int \<times> int \<times> int) list option" where
  "two_blobs =
     ([[(0, 0), (0, 5), (17, 5), (17, 0)], [(30, 0), (30, 5), (47, 5), (47, 0)]],
      Some [(1, - 1, - 1, - 1), (- 1, 0, - 1, - 1)])"

section \<open>Example settings and results\<close>

text \<open>Filter settings for the examples.\<close>

definition two_holes_params :: filter_params where
  "two_holes_params = \<lparr>ref_tile_size = 16, a_t = 1, a_h = 20, max_n_holes = 2\<rparr>"

definition blob_params :: filter_params where
  "blob_params = \<lparr>ref_tile_size = 16, a_t = 3, a_h = 1, max_n_holes = 8\<rparr>"

text \<open>Filter settings whose region threshold, 100 times 28, no contour of the examples reaches.\<close>

definition strict_params :: filter_params where
  "strict_params = \<lparr>ref_tile_size = 16, a_t = 100, a_h = 1, max_n_holes = 8\<rparr>"

text \<open>Tiles of 4 pixels at spacing 0.25 without overlap, with or without padding.\<close>

definition tiles_of_four :: "bool \<Rightarrow> tiling_params" where
  "tiles_of_four padding =
     \<lparr>spacing = 1/4, tolerance = 1/10, tile_size = 4, overlap = 0, drop_holes = False,
      min_tissue_ratio = 1/4, use_padding = padding\<rparr>"

text \<open>Tiles of 16 pixels at spacing 0.25 without overlap, with padding.\<close>

definition tiles_of_sixteen :: tiling_params where
  "tiles_of_sixteen =
     \<lparr>spacing = 1/4, tolerance = 1/10, tile_size = 16, overlap = 0, drop_holes = False,
      min_tissue_ratio = 1/4, use_padding = True\<rparr>"

text \<open>
  Three per-contour results, the second without tiles; the third reports level 1 in the
  first list and level 0 in the second.
\<close>

definition mismatched_results :: "contour_result list" where
  "mismatched_results =
     [([0], [0], [1], Some 0, Some 1), ([], [], [], None, None), ([4], [8], [1/2], Some 1, Some 2)]"

definition matching_results :: "contour_result list" where
  "matching_results =
     [([0], [0], [1], Some 0, Some 1), ([], [], [], None, None), ([4], [8], [1/2], Some 0, Some 1)]"



section \<open>Basic facts\<close>

lemma py_index_nat: "i < length xs \<Longrightarrow> py_index xs (int i) = Inr (xs ! i)"
  by (simp add: py_index_def)

lemma py_index_Inr_iff:
  "py_index xs i = Inr v \<longleftrightarrow>
     (0 \<le> i \<and> i < int (length xs) \<and> v = xs ! nat i) \<or>
     (i < 0 \<and> - int (length xs) \<le> i \<and> v = xs ! nat (int (length xs) + i))"
  by (auto simp: py_index_def Let_def)

lemma and_then_Inr: "f st = (Inr x, st') \<Longrightarrow> and_then f g st = g x st'"
  by (simp add: and_then_def)

lemma and_then_Inl: "f st = (Inl e, st') \<Longrightarrow> and_then f g st = (Inl e, st')"
  by (simp add: and_then_def)

lemma and_then_pure_Inr: "and_then (pure_step (Inr x)) g st = g x st"
  by (simp add: and_then_def pure_step_def)

lemma and_then_pure_Inl: "and_then (pure_step (Inl e)) g st = (Inl e, st)"
  by (simp add: and_then_def pure_step_def)

lemma cache_ok_initial: "cache_ok sl initial_state"
  by (simp add: cache_ok_def initial_state_def)

lemma get_level_spacing_value:
  "cache_ok sl st \<Longrightarrow> fst (get_level_spacing sl level st) = py_index (spacings sl) level"
  by (auto simp: get_level_spacing_def cache_ok_def split: option.splits sum.splits)

lemma get_level_spacing_cache_ok:
  "cache_ok sl st \<Longrightarrow> cache_ok sl (snd (get_level_spacing sl level st))"
  by (auto simp: get_level_spacing_def cache_ok_def split: option.splits sum.splits)

lemma get_level_spacing_stored:
  "cache_ok sl st \<Longrightarrow> py_index (spacings sl) level = Inr v \<Longrightarrow>
   level_spacing_cache (snd (get_level_spacing sl level st)) level = Some v"
  by (auto simp: get_level_spacing_def cache_ok_def split: option.splits sum.splits)

lemma get_level_spacing_output:
  "stdout (snd (get_level_spacing sl level st)) = stdout st \<and>
   printed_warning (snd (get_level_spacing sl level st)) = printed_warning st"
  by (auto simp: get_level_spacing_def split: option.splits sum.splits)

lemma get_level_spacing_run:
  assumes "cache_ok sl st" "i < length (spacings sl)"
  obtains st' where "get_level_spacing sl (int i) st = (Inr (spacings sl ! i), st')" "cache_ok sl st'"
proof -
  have "fst (get_level_spacing sl (int i) st) = Inr (spacings sl ! i)"
    using assms by (simp add: get_level_spacing_value py_index_nat)
  moreover have "cache_ok sl (snd (get_level_spacing sl (int i) st))"
    using assms by (simp add: get_level_spacing_cache_ok)
  ultimately show ?thesis using that by (metis prod.collapse)
qed

section \<open>The first minimum\<close>

lemma argmin_from_less: "xs \<noteq> [] \<Longrightarrow> argmin_from xs < length xs"
  by (induction xs rule: argmin_from.induct) (auto simp: Let_def)

lemma argmin_from_min: "i < length xs \<Longrightarrow> xs ! argmin_from xs \<le> xs ! i"
proof (induction xs arbitrary: i rule: argmin_from.induct)
  case (3 x y ys)
  show ?case
  proof (cases i)
    case 0
    then show ?thesis by (auto simp: Let_def)
  next
    case (Suc j)
    then have "(y # ys) ! argmin_from (y # ys) \<le> (y # ys) ! j"
      using 3 by simp
    then show ?thesis using Suc by (auto simp: Let_def)
  qed
qed simp_all

lemma argmin_from_first: "i < argmin_from xs \<Longrightarrow> xs ! argmin_from xs < xs ! i"
proof (induction xs arbitrary: i rule: argmin_from.induct)
  case (3 x y ys)
  show ?case
  proof (cases "x \<le> (y # ys) ! argmin_from (y # ys)")
    case True
    then show ?thesis using "3.prems" by (simp add: Let_def)
  next
    case False
    show ?thesis
    proof (cases i)
      case 0
      then show ?thesis using False by (simp add: Let_def)
    next
      case (Suc j)
      then have "j < argmin_from (y # ys)" using "3.prems" False by (simp add: Let_def)
      then have "(y # ys) ! argmin_from (y # ys) < (y # ys) ! j" by (rule "3.IH")
      then show ?thesis using Suc False by (simp add: Let_def)
    qed
  qed
qed simp_all

section \<open>Level spacing lookup\<close>

text \<open>
  Claim C9, as amended.  On a cache that agrees with the list, \<^verbatim>\<open>get_level_spacing\<close> fails
  with \<^verbatim>\<open>IndexError\<close> exactly for the indices below \<open>- n\<close> or from \<open>n\<close> on, where \<open>n\<close> is the
  number of levels.  For \<open>0 \<le> level < n\<close> it returns the spacing of that level and leaves it
  memoized; for \<open>- n \<le> level < 0\<close> it returns the spacing of level \<open>n + level\<close>, as Python
  list indexing does.  The cache keeps agreeing with the list.
\<close>

theorem get_level_spacing_index:
  assumes "cache_ok sl st"
  shows "(level < - int (length (spacings sl)) \<or> int (length (spacings sl)) \<le> level \<longrightarrow>
            fst (get_level_spacing sl level st) = Inl IndexError) \<and>
         (0 \<le> level \<and> level < int (length (spacings sl)) \<longrightarrow>
            fst (get_level_spacing sl level st) = Inr (spacings sl ! nat level) \<and>
            level_spacing_cache (snd (get_level_spacing sl level st)) level =
              Some (spacings sl ! nat level)) \<and>
         (- int (length (spacings sl)) \<le> level \<and> level < 0 \<longrightarrow>
            fst (get_level_spacing sl level st) =
              Inr (spacings sl ! nat (int (length (spacings sl)) + level))) \<and>
         cache_ok sl (snd (get_level_spacing sl level st))"
proof -
  have v: "fst (get_level_spacing sl level st) = py_index (spacings sl) level"
    using assms by (rule get_level_spacing_value)
  have a: "level < - int (length (spacings sl)) \<or> int (length (spacings sl)) \<le> level \<longrightarrow>
            fst (get_level_spacing sl level st) = Inl IndexError"
    unfolding v by (auto simp: py_index_def Let_def)
  have b: "0 \<le> level \<and> level < int (length (spacings sl)) \<longrightarrow>
            fst (get_level_spacing sl level st) = Inr (spacings sl ! nat level) \<and>
            level_spacing_cache (snd (get_level_spacing sl level st)) level =
              Some (spacings sl ! nat level)"
  proof
    assume r: "0 \<le> level \<and> level < int (length (spacings sl))"
    then have p: "py_index (spacings sl) level = Inr (spacings sl ! nat level)"
      by (simp add: py_index_def)
    show "fst (get_level_spacing sl level st) = Inr (spacings sl ! nat level) \<and>
            level_spacing_cache (snd (get_level_spacing sl level st)) level =
              Some (spacings sl ! nat level)"
      using p v get_level_spacing_stored [OF assms p] by simp
  qed
  have c: "- int (length (spacings sl)) \<le> level \<and> level < 0 \<longrightarrow>
            fst (get_level_spacing sl level st) =
              Inr (spacings sl ! nat (int (length (spacings sl)) + level))"
    unfolding v by (auto simp: py_index_def Let_def)
  show ?thesis using a b c get_level_spacing_cache_ok [OF assms] by blast
qed

text \<open>
  The example slides are as \<^verbatim>\<open>__init__\<close> builds them: the downsample factors are those of
  \<^verbatim>\<open>get_downsamples\<close>, and the segmentation level is the one chosen for the default factor 32.
\<close>

lemma example_slides_downsamples:
  "get_downsamples (level_dimensions two_level_slide) = Inr (level_downsamples two_level_slide)"
  "get_downsamples (level_dimensions skewed_slide) = Inr (level_downsamples skewed_slide)"
  "get_downsamples (level_dimensions threefold_slide) = Inr (level_downsamples threefold_slide)"
  "get_downsamples (level_dimensions tiny_slide) = Inr (level_downsamples tiny_slide)"
  by (simp_all add: two_level_slide_def skewed_slide_def threefold_slide_def tiny_slide_def
      get_downsamples_def py_index_def py_div_def)

lemma example_slides_seg_level:
  "get_best_level_for_downsample_custom two_level_slide 32 = Inr (seg_level two_level_slide)"
  "get_best_level_for_downsample_custom skewed_slide 32 = Inr (seg_level skewed_slide)"
  "get_best_level_for_downsample_custom threefold_slide 32 = Inr (seg_level threefold_slide)"
  "get_best_level_for_downsample_custom tiny_slide 32 = Inr (seg_level tiny_slide)"
  by (simp_all add: two_level_slide_def skewed_slide_def threefold_slide_def tiny_slide_def
      get_best_level_for_downsample_custom_def np_argmin_def)

theorem get_level_spacing_index_witness:
  "fst (get_level_spacing two_level_slide 2 initial_state) = Inl IndexError \<and>
   fst (get_level_spacing two_level_slide 1 initial_state) = Inr (1/2) \<and>
   fst (get_level_spacing two_level_slide (- 2) initial_state) = Inr (1/4)"
  using get_level_spacing_index [where sl = two_level_slide and st = initial_state and level = 2]
    get_level_spacing_index [where sl = two_level_slide and st = initial_state and level = 1]
    get_level_spacing_index [where sl = two_level_slide and st = initial_state and level = "- 2"]
  by (simp add: cache_ok_initial two_level_slide_def)

text \<open>
  The claim as written fails at a negative index: on the two-level slide, level \<open>- 1\<close> is
  answered with the spacing of the last level.
\<close>

theorem get_level_spacing_negative_counterexample:
  "(- 1 :: int) < 0 \<and> fst (get_level_spacing two_level_slide (- 1) initial_state) = Inr (1/2) \<and>
   fst (get_level_spacing two_level_slide (- 1) initial_state) \<noteq> Inl IndexError"
  by (simp add: get_level_spacing_def two_level_slide_def initial_state_def py_index_def)

section \<open>Best level for a spacing\<close>

lemma within_tolerance_zero:
  "0 < t \<Longrightarrow> within_tolerance ls t 0 = Inr (ls = t)"
proof -
  assume t: "0 < t"
  have "\<bar>ls - t\<bar> / t \<le> 0 \<longleftrightarrow> \<bar>ls - t\<bar> \<le> 0"
    using t by (simp add: divide_le_0_iff)
  then show ?thesis using t by (simp add: within_tolerance_def py_div_def)
qed

lemma spacing_walk_exact:
  assumes "sorted_wrt (<) (spacings sl)" "0 < spacings sl ! k"
  shows "cache_ok sl st \<Longrightarrow> k < g \<Longrightarrow> g < length (spacings sl) \<Longrightarrow>
         \<exists>st'. spacing_walk sl (spacings sl ! k) 0 (int g) (spacings sl ! g) st =
                 (Inr (int k, spacings sl ! k, True), st') \<and> cache_ok sl st'"
proof (induction g arbitrary: st)
  case 0
  then show ?case by simp
next
  case (Suc g)
  have lt: "spacings sl ! k < spacings sl ! Suc g"
    using assms(1) Suc.prems(2,3) by (simp add: sorted_wrt_nth_less)
  have gl: "g < length (spacings sl)" using Suc.prems(3) by simp
  obtain st1 where r: "get_level_spacing sl (int g) st = (Inr (spacings sl ! g), st1)"
    and ok1: "cache_ok sl st1"
    using get_level_spacing_run [OF Suc.prems(1) gl] by blast
  have r': "get_level_spacing sl (int (Suc g) - 1) st = (Inr (spacings sl ! g), st1)"
    using r by simp
  show ?case
  proof (cases "g = k")
    case True
    show ?thesis
      using lt r' ok1 True assms(2)
      by (subst spacing_walk.simps) (simp add: within_tolerance_zero)
  next
    case False
    then have kg: "k < g" using Suc.prems(2) by simp
    have ne: "spacings sl ! g \<noteq> spacings sl ! k"
      using assms(1) kg gl by (metis less_irrefl sorted_wrt_nth_less)
    obtain st' where w: "spacing_walk sl (spacings sl ! k) 0 (int g) (spacings sl ! g) st1 =
                 (Inr (int k, spacings sl ! k, True), st')" and ok': "cache_ok sl st'"
      using Suc.IH [OF ok1 kg gl] by blast
    show ?thesis
      using lt r' ne w ok' assms(2)
      by (subst spacing_walk.simps) (simp add: within_tolerance_zero)
  qed
qed

lemma downsample_level_closest:
  assumes "get_best_level_for_downsample_custom sl d = Inr (int g)"
  shows "g < length (level_downsamples sl)"
    and "i < length (level_downsamples sl) \<Longrightarrow>
         \<bar>fst (level_downsamples sl ! g) - d\<bar> \<le> \<bar>fst (level_downsamples sl ! i) - d\<bar>"
    and "i < g \<Longrightarrow>
         \<bar>fst (level_downsamples sl ! g) - d\<bar> < \<bar>fst (level_downsamples sl ! i) - d\<bar>"
proof -
  let ?xs = "map (\<lambda>(x, _). \<bar>x - d\<bar>) (level_downsamples sl)"
  have ne: "?xs \<noteq> []" and g: "g = argmin_from ?xs"
    using assms by (auto simp: get_best_level_for_downsample_custom_def np_argmin_def split: if_splits)
  show gl: "g < length (level_downsamples sl)"
    using argmin_from_less [OF ne] g by simp
  have nth: "j < length (level_downsamples sl) \<Longrightarrow> ?xs ! j = \<bar>fst (level_downsamples sl ! j) - d\<bar>" for j
    by (simp add: case_prod_beta)
  show "\<bar>fst (level_downsamples sl ! g) - d\<bar> \<le> \<bar>fst (level_downsamples sl ! i) - d\<bar>"
    if "i < length (level_downsamples sl)"
    using argmin_from_min [of i ?xs] that gl g nth by simp
  show "\<bar>fst (level_downsamples sl ! g) - d\<bar> < \<bar>fst (level_downsamples sl ! i) - d\<bar>"
    if "i < g"
    using argmin_from_first [of i ?xs] that gl g nth by simp
qed

text \<open>
  Claim C1, as amended.  Let the spacings be positive and strictly increasing with the level
  index, and let \<open>k\<close> be a level.  If the level that \<^verbatim>\<open>get_best_level_for_downsample_custom\<close>
  picks for the factor \<open>spacingOf(k) / spacingOf(0)\<close> (the first level whose width factor is
  closest to it) is a level \<open>g \<ge> k\<close> of the pyramid, then \<^verbatim>\<open>get_best_level_for_spacing\<close> with
  target \<open>spacingOf(k)\<close> and tolerance 0 returns \<open>(k, True)\<close>.  The level \<open>g\<close> is at least as close
  to the factor as every level and strictly closer than every lower level.
\<close>

theorem exact_spacing_selects_level:
  assumes ok: "cache_ok sl st"
    and sorted: "sorted_wrt (<) (spacings sl)"
    and pos: "0 < spacings sl ! 0"
    and k: "k < length (spacings sl)"
    and guess: "get_best_level_for_downsample_custom sl (spacings sl ! k / spacings sl ! 0) = Inr (int g)"
    and g: "k \<le> g" "g < length (spacings sl)"
  shows "fst (get_best_level_for_spacing sl (spacings sl ! k) 0 verbose st) = Inr (int k, True) \<and>
         (\<forall>i < length (level_downsamples sl).
            \<bar>fst (level_downsamples sl ! g) - spacings sl ! k / spacings sl ! 0\<bar>
              \<le> \<bar>fst (level_downsamples sl ! i) - spacings sl ! k / spacings sl ! 0\<bar>) \<and>
         (\<forall>i < g.
            \<bar>fst (level_downsamples sl ! g) - spacings sl ! k / spacings sl ! 0\<bar>
              < \<bar>fst (level_downsamples sl ! i) - spacings sl ! k / spacings sl ! 0\<bar>)"
proof -
  have l0: "0 < length (spacings sl)" using k by (cases "spacings sl") simp_all
  obtain st1 where r0: "get_level_spacing sl 0 st = (Inr (spacings sl ! 0), st1)"
    and ok1: "cache_ok sl st1"
    using get_level_spacing_run [OF ok l0] by auto
  obtain st2 where rg: "get_level_spacing sl (int g) st1 = (Inr (spacings sl ! g), st2)"
    and ok2: "cache_ok sl st2"
    using get_level_spacing_run [OF ok1 g(2)] by blast
  have tpos: "0 < spacings sl ! k"
  proof (cases "k = 0")
    case True then show ?thesis using pos by simp
  next
    case False
    then have "spacings sl ! 0 < spacings sl ! k"
      using sorted k by (simp add: sorted_wrt_nth_less)
    then show ?thesis using pos by simp
  qed
  have d: "py_div (spacings sl ! k) (spacings sl ! 0) = Inr (spacings sl ! k / spacings sl ! 0)"
    using pos by (simp add: py_div_def)
  have start: "get_best_level_for_spacing sl (spacings sl ! k) 0 verbose st =
     and_then (pure_step (within_tolerance (spacings sl ! g) (spacings sl ! k) 0)) (\<lambda>w.
       if w then pure_step (Inr (int g, True))
       else
         and_then (spacing_walk sl (spacings sl ! k) 0 (int g) (spacings sl ! g))
           (\<lambda>(level', level_spacing', is_within_tolerance).
         and_then (pure_step (within_tolerance level_spacing' (spacings sl ! k) 0)) (\<lambda>w'.
           (\<lambda>st. (Inr (level', is_within_tolerance),
                   if \<not> w' \<and> verbose
                   then emit_warning (ToleranceMiss 0 (spacings sl ! k) level_spacing') st
                   else st))))) st2"
    unfolding get_best_level_for_spacing_def
    by (simp add: and_then_Inr [where f = "get_level_spacing sl 0", OF r0] d guess and_then_pure_Inr
        and_then_Inr [where f = "get_level_spacing sl (int g)", OF rg])
  have main: "fst (get_best_level_for_spacing sl (spacings sl ! k) 0 verbose st) = Inr (int k, True)"
  proof (cases "g = k")
    case True
    then show ?thesis
      unfolding start by (simp add: within_tolerance_zero [OF tpos] and_then_pure_Inr pure_step_def)
  next
    case False
    then have kg: "k < g" using g(1) by simp
    have ne: "spacings sl ! g \<noteq> spacings sl ! k"
      using sorted kg g(2) by (metis less_irrefl sorted_wrt_nth_less)
    obtain st' where w: "spacing_walk sl (spacings sl ! k) 0 (int g) (spacings sl ! g) st2 =
                 (Inr (int k, spacings sl ! k, True), st')"
      using spacing_walk_exact [OF sorted tpos ok2 kg g(2)] by blast
    show ?thesis
      unfolding start
      by (simp add: within_tolerance_zero [OF tpos] ne and_then_pure_Inr
          and_then_Inr [where f = "spacing_walk sl (spacings sl ! k) 0 (int g) (spacings sl ! g)", OF w])
  qed
show ?thesis
    using main downsample_level_closest(2,3) [OF guess] by blast
qed

theorem exact_spacing_selects_level_witness:
  "fst (get_best_level_for_spacing skewed_slide (1/2) 0 True initial_state) = Inr (1, True)"
  using exact_spacing_selects_level [where sl = skewed_slide and k = 1 and g = 2
      and st = initial_state and verbose = True]
  by (simp add: cache_ok_initial skewed_slide_def get_best_level_for_downsample_custom_def
      np_argmin_def)

text \<open>
  The claim as written fails on the two-level slide at \<open>k = 1\<close>: the factor is 2, the width
  factors are 1 and 4, level 0 is closer, its spacing misses the target, and the walk does not
  start from level 0.  The result is \<open>(0, False)\<close>.
\<close>

theorem exact_spacing_counterexample:
  "1 < length (spacings two_level_slide) \<and>
   fst (get_best_level_for_spacing two_level_slide (spacings two_level_slide ! 1) 0 False
          initial_state) = Inr (0, False)"
  by (simp add: two_level_slide_def get_best_level_for_spacing_def and_then_def pure_step_def
      get_level_spacing_def initial_state_def py_index_def py_div_def within_tolerance_def
      get_best_level_for_downsample_custom_def np_argmin_def spacing_walk.simps)

section \<open>The one-time diagnostic\<close>

lemma and_then_keeps:
  assumes "\<And>s. I s \<Longrightarrow> I (snd (f s))" "\<And>x s. I s \<Longrightarrow> I (snd (g x s))" "I st"
  shows "I (snd (and_then f g st))"
proof (cases "f st")
  case (Pair r st')
  have i: "I st'" using assms(1) [OF assms(3)] Pair by simp
  show ?thesis
  proof (cases r)
    case (Inl e)
    then show ?thesis using Pair i by (simp add: and_then_def)
  next
    case (Inr x)
    then show ?thesis using Pair assms(2) [OF i, of x] by (simp add: and_then_def)
  qed
qed

lemma pure_step_keeps: "I st \<Longrightarrow> I (snd (pure_step r st))"
  by (simp add: pure_step_def)

lemma get_level_spacing_printed:
  "stdout (snd (get_level_spacing sl level st)) = stdout st"
  "printed_warning (snd (get_level_spacing sl level st)) = printed_warning st"
  by (auto simp: get_level_spacing_def split: option.splits sum.splits)

lemma spacing_walk_printed [simp]:
  "stdout (snd (spacing_walk sl t tol level ls st)) = stdout st \<and>
   printed_warning (snd (spacing_walk sl t tol level ls st)) = printed_warning st"
proof (induction sl t tol level ls st rule: spacing_walk.induct)
  case (1 sl t tol level ls st)
  show ?case
  proof (cases "level > 0 \<and> ls > t")
    case False
    then have "spacing_walk sl t tol level ls st = (Inr (level, ls, False), st)"
      by (subst spacing_walk.simps) auto
    then show ?thesis by simp
  next
    case True
    obtain r st' where g: "get_level_spacing sl (level - 1) st = (r, st')"
      by (cases "get_level_spacing sl (level - 1) st")
    have p: "stdout st' = stdout st \<and> printed_warning st' = printed_warning st"
      using get_level_spacing_printed [of sl "level - 1" st] g by simp
    show ?thesis
    proof (cases r)
      case (Inl e)
      then have "spacing_walk sl t tol level ls st = (Inl e, st')"
        using True g by (subst spacing_walk.simps) auto
      then show ?thesis using p by simp
    next
      case (Inr v)
      show ?thesis
      proof (cases "within_tolerance v t tol")
        case (Inl e)
        then have "spacing_walk sl t tol level ls st = (Inl e, st')"
          using True g Inr by (subst spacing_walk.simps) auto
        then show ?thesis using p by simp
      next
        case w: (Inr w)
        show ?thesis
        proof (cases w)
          case hit: True
          then have "spacing_walk sl t tol level ls st = (Inr (level - 1, v, True), st')"
            using True g Inr w by (subst spacing_walk.simps) auto
          then show ?thesis using p by simp
        next
          case False
          have ih: "stdout (snd (spacing_walk sl t tol (level - 1) v st')) = stdout st' \<and>
            printed_warning (snd (spacing_walk sl t tol (level - 1) v st')) = printed_warning st'"
            using "1.IH" [OF True g [symmetric] Inr w] False by simp
          have "spacing_walk sl t tol level ls st = spacing_walk sl t tol (level - 1) v st'"
            using True g Inr w False by (subst spacing_walk.simps) auto
          then show ?thesis using ih p by simp
        qed
      qed
    qed
  qed
qed

lemma emit_warning_once: "warned_once st \<Longrightarrow> warned_once (emit_warning d st)"
  by (auto simp: warned_once_def emit_warning_def)

lemma get_level_spacing_once:
  "warned_once st \<Longrightarrow> warned_once (snd (get_level_spacing sl level st))"
  by (simp add: warned_once_def get_level_spacing_printed)

lemma spacing_walk_once:
  "warned_once st \<Longrightarrow> warned_once (snd (spacing_walk sl t tol level ls st))"
  by (simp add: warned_once_def spacing_walk_printed)

lemma if_keeps:
  "(c \<Longrightarrow> I (snd (f st))) \<Longrightarrow> (\<not> c \<Longrightarrow> I (snd (g st))) \<Longrightarrow> I (snd ((if c then f else g) st))"
  by simp

lemma triple_keeps:
  "(\<And>a b c. I (snd (h a b c st))) \<Longrightarrow> I (snd ((case p of (a, b, c) \<Rightarrow> h a b c) st))"
  by (cases p) simp

lemma final_once:
  "warned_once st \<Longrightarrow> warned_once (snd (r, if c then emit_warning d st else st))"
  by (simp add: emit_warning_once)

lemma get_best_level_for_spacing_once:
  "warned_once st \<Longrightarrow> warned_once (snd (get_best_level_for_spacing sl t tol verbose st))"
  unfolding get_best_level_for_spacing_def
  by (intro and_then_keeps [where I = warned_once] if_keeps [where I = warned_once]
      triple_keeps [where I = warned_once] pure_step_keeps [where I = warned_once]
      get_level_spacing_once spacing_walk_once final_once | assumption)+

lemma run_calls_once: "warned_once st \<Longrightarrow> warned_once (run_calls calls st)"
proof (induction calls arbitrary: st)
  case Nil
  then show ?case by simp
next
  case (Cons c calls)
  obtain sl cache t tol verbose where c: "c = (sl, cache, t, tol, verbose)"
    by (cases c) auto
  have "warned_once (st\<lparr>level_spacing_cache := cache\<rparr>)"
    using Cons.prems by (simp add: warned_once_def)
  then have "warned_once (snd (get_best_level_for_spacing sl t tol verbose (st\<lparr>level_spacing_cache := cache\<rparr>)))"
    by (rule get_best_level_for_spacing_once)
  then show ?case using Cons.IH c by simp
qed

text \<open>
  Claim C8.  Whatever calls of \<^verbatim>\<open>get_best_level_for_spacing\<close> a process makes, on whatever
  slides and in whatever order their guarded blocks run, the tolerance-miss message is
  printed at most once.
\<close>

theorem tolerance_warning_at_most_once:
  "length (stdout (run_calls calls initial_state)) \<le> 1"
proof -
  have "warned_once initial_state" by (simp add: warned_once_def initial_state_def)
  then have "warned_once (run_calls calls initial_state)" by (rule run_calls_once)
  then show ?thesis by (simp add: warned_once_def)
qed

theorem tolerance_warning_at_most_once_witness:
  "stdout (run_calls [missing_call, missing_call] initial_state) = [ToleranceMiss (1/10) (1/2) (1/4)] \<and>
   length (stdout (run_calls [missing_call, missing_call] initial_state)) \<le> 1"
proof -
  have "stdout (run_calls [missing_call, missing_call] initial_state) = [ToleranceMiss (1/10) (1/2) (1/4)]"
    by (simp add: missing_call_def two_level_slide_def get_best_level_for_spacing_def and_then_def
        pure_step_def get_level_spacing_def initial_state_def py_index_def py_div_def
        within_tolerance_def get_best_level_for_downsample_custom_def np_argmin_def
        spacing_walk.simps emit_warning_def)
  then show ?thesis
    using tolerance_warning_at_most_once [of "[missing_call, missing_call]"] by simp
qed

section \<open>Contour filtering\<close>

lemma contours_at_map:
  "\<forall>i\<in>set ids. i < length contours \<Longrightarrow>
   contours_at contours ids = Inr (map (\<lambda>i. contours ! i) ids)"
  by (induction ids) (simp_all add: py_index_nat)

lemma children_of_bound: "i \<in> set (children_of hierarchy p) \<Longrightarrow> i < length hierarchy"
  by (simp add: children_of_def)

lemma children_of_parent:
  "i \<in> set (children_of hierarchy p) \<longleftrightarrow> i < length hierarchy \<and> snd (hierarchy ! i) = p"
  by (auto simp: children_of_def)

lemma hole_contours_at:
  "length contours = length hierarchy \<Longrightarrow>
   contours_at contours (children_of hierarchy p) =
     Inr (map (\<lambda>j. contours ! j) (children_of hierarchy p))"
  by (rule contours_at_map) (simp add: children_of_bound)

lemma foreground_loop_filter:
  assumes len: "length contours = length hierarchy"
  shows "\<forall>i\<in>set ids. i < length contours \<Longrightarrow>
   foreground_loop cv contours hierarchy fp ids (filtered, all_holes) =
     Inr (filtered @ filter (\<lambda>i. net_area cv contours hierarchy i \<noteq> 0 \<and>
                               net_area cv contours hierarchy i > real_of_int (a_t fp)) ids,
          all_holes @ map (\<lambda>i. children_of hierarchy (int i))
            (filter (\<lambda>i. net_area cv contours hierarchy i \<noteq> 0 \<and>
                          net_area cv contours hierarchy i > real_of_int (a_t fp)) ids))"
proof (induction ids arbitrary: filtered all_holes)
  case Nil
  then show ?case by simp
next
  case (Cons i ids)
  have i: "py_index contours (int i) = Inr (contours ! i)"
    using Cons.prems by (simp add: py_index_nat)
  have net: "contourArea cv (contours ! i)
      - sum_list (map (contourArea cv) (map (\<lambda>j. contours ! j) (children_of hierarchy (int i))))
      = net_area cv contours hierarchy i"
    by (simp add: net_area_def comp_def)
  have rest: "\<forall>j\<in>set ids. j < length contours" using Cons.prems by simp
  show ?case
    using Cons.IH [OF rest]
    by (simp add: i hole_contours_at [OF len] Let_def net del: map_map)
qed

lemma holes_loop_map:
  assumes len: "length contours = length hierarchy"
  shows "holes_loop cv contours fp (map (\<lambda>i. children_of hierarchy (int i)) ids) =
     Inr (map (\<lambda>i. filter (\<lambda>hole. contourArea cv hole > real_of_int (a_h fp))
                     (py_take (max_n_holes fp) (ranked_holes cv contours hierarchy i))) ids)"
  by (induction ids) (simp_all add: hole_contours_at [OF len] ranked_holes_def Let_def)

lemma filter_contours_kept:
  assumes len: "length contours = length hierarchy"
  shows "filter_contours cv contours hierarchy fp =
     Inr (map (\<lambda>i. contours ! i) (retained_indices cv contours hierarchy (a_t fp)),
          map (\<lambda>i. filter (\<lambda>hole. contourArea cv hole > real_of_int (a_h fp))
                     (py_take (max_n_holes fp) (ranked_holes cv contours hierarchy i)))
            (retained_indices cv contours hierarchy (a_t fp)))"
proof -
  let ?keep = "retained_indices cv contours hierarchy (a_t fp)"
  have b: "\<forall>i\<in>set (children_of hierarchy (- 1)). i < length contours"
    using len by (simp add: children_of_bound)
  have fl: "foreground_loop cv contours hierarchy fp (children_of hierarchy (- 1)) ([], []) =
     Inr (?keep, map (\<lambda>i. children_of hierarchy (int i)) ?keep)"
    using foreground_loop_filter [OF len b, of cv fp "[]" "[]"]
    by (simp add: retained_indices_def)
  have c: "contours_at contours ?keep = Inr (map (\<lambda>i. contours ! i) ?keep)"
    by (rule contours_at_map) (use b in \<open>auto simp: retained_indices_def\<close>)
  show ?thesis
    unfolding filter_contours_def by (simp add: fl c holes_loop_map [OF len])
qed

lemma retained_indices_iff:
  "i \<in> set (retained_indices cv contours hierarchy threshold) \<longleftrightarrow>
     i < length hierarchy \<and> snd (hierarchy ! i) = - 1 \<and>
     net_area cv contours hierarchy i \<noteq> 0 \<and>
     net_area cv contours hierarchy i > real_of_int threshold"
  by (auto simp: retained_indices_def children_of_parent)

lemma scaleContourDim_Some:
  "scaleContourDim (map Some cs) scale = Inr (map (\<lambda>c. scale_points c scale) cs)"
  by (induction cs) simp_all

lemma ranked_holes_sorted:
  "sorted (map (\<lambda>c. - contourArea cv c) (ranked_holes cv contours hierarchy i))"
  by (simp add: ranked_holes_def)

lemma ranked_holes_mset:
  "mset (ranked_holes cv contours hierarchy i) =
   mset (map (\<lambda>j. contours ! j) (children_of hierarchy (int i)))"
  by (simp add: ranked_holes_def)

lemma sorted_take_drop:
  assumes "sorted (map f xs)" "x \<in> set (take m xs)" "y \<in> set (drop m xs)"
  shows "f x \<le> f y"
proof -
  have "sorted (map f (take m xs) @ map f (drop m xs))"
    using assms(1) by (metis append_take_drop_id map_append)
  then show ?thesis using assms(2,3) by (auto simp: sorted_append)
qed

lemma distinct_take_drop:
  assumes "distinct xs" "y \<in> set (drop m xs)"
  shows "y \<notin> set (take m xs)"
proof -
  have "distinct (take m xs @ drop m xs)" using assms(1) by simp
  then show ?thesis using assms(2) by (auto simp del: append_take_drop_id)
qed

text \<open>
  Claim C3.  Let \<^verbatim>\<open>findContours\<close> have given one hierarchy row per contour and let
  \<^verbatim>\<open>max_n_holes\<close> be \<open>m \<ge> 0\<close>.  For the \<open>j\<close>-th retained foreground contour, the list \<open>ranked\<close>
  holds exactly its immediate holes, by area in descending order; every one of its first
  \<open>m\<close> has at least the area of every later one; the holes returned are those among the
  first \<open>m\<close> whose area strictly exceeds \<^verbatim>\<open>a_h\<close>; and a hole that stands after the first \<open>m\<close> is
  not returned, whatever its area (the holes being distinct contours).
\<close>

theorem largest_holes_kept:
  assumes len: "length contours = length hierarchy"
    and m: "0 \<le> max_n_holes fp"
    and res: "filter_contours cv contours hierarchy fp = Inr (foreground_contours, hole_contours)"
    and j: "j < length hole_contours"
    and i: "i = retained_indices cv contours hierarchy (a_t fp) ! j"
    and r: "ranked = ranked_holes cv contours hierarchy i"
  shows "length hole_contours = length foreground_contours \<and>
         foreground_contours ! j = contours ! i \<and>
         mset ranked = mset (map (\<lambda>k. contours ! k) (children_of hierarchy (int i))) \<and>
         sorted (map (\<lambda>c. - contourArea cv c) ranked) \<and>
         (\<forall>x \<in> set (take (nat (max_n_holes fp)) ranked).
          \<forall>y \<in> set (drop (nat (max_n_holes fp)) ranked). contourArea cv y \<le> contourArea cv x) \<and>
         hole_contours ! j =
           filter (\<lambda>hole. contourArea cv hole > real_of_int (a_h fp))
             (take (nat (max_n_holes fp)) ranked) \<and>
         (distinct ranked \<longrightarrow>
            (\<forall>y \<in> set (drop (nat (max_n_holes fp)) ranked). y \<notin> set (hole_contours ! j)))"
proof -
  let ?filtered = "retained_indices cv contours hierarchy (a_t fp)"
  let ?m = "nat (max_n_holes fp)"
  have fg: "foreground_contours = map (\<lambda>i. contours ! i) ?filtered"
    and hc: "hole_contours = map (\<lambda>i. filter (\<lambda>hole. contourArea cv hole > real_of_int (a_h fp))
                     (py_take (max_n_holes fp) (ranked_holes cv contours hierarchy i))) ?filtered"
    using res unfolding filter_contours_kept [OF len] by simp_all
  have tk: "py_take (max_n_holes fp) xs = take ?m xs" for xs :: "contour list"
    using m by (simp add: py_take_def)
  have l: "length hole_contours = length foreground_contours" using hc fg by simp
  have jf: "j < length ?filtered" using j hc by simp
  have f: "foreground_contours ! j = contours ! i" using jf fg i by simp
  have h: "hole_contours ! j =
      filter (\<lambda>hole. contourArea cv hole > real_of_int (a_h fp)) (take ?m ranked)"
    using jf i r unfolding hc by (simp add: tk)
  have srt: "sorted (map (\<lambda>c. - contourArea cv c) ranked)"
    unfolding r by (rule ranked_holes_sorted)
  have ms: "mset ranked = mset (map (\<lambda>k. contours ! k) (children_of hierarchy (int i)))"
    unfolding r by (rule ranked_holes_mset)
  have dom: "\<forall>x \<in> set (take ?m ranked). \<forall>y \<in> set (drop ?m ranked).
      contourArea cv y \<le> contourArea cv x"
    using sorted_take_drop [OF srt, of _ ?m] by fastforce
  have dis: "distinct ranked \<longrightarrow> (\<forall>y \<in> set (drop ?m ranked). y \<notin> set (hole_contours ! j))"
    unfolding h using distinct_take_drop [of ranked _ ?m] by auto
  show ?thesis using l f ms srt dom h dis by blast
qed

theorem largest_holes_kept_witness:
  "filter_contours (cv_finding holed_blob) (fst holed_blob) (child_parent (the (snd holed_blob)))
       two_holes_params
     = Inr ([[(0, 0), (0, 100), (100, 100), (100, 0)]],
            [[[(30, 30), (30, 50), (50, 50), (50, 30)], [(10, 10), (10, 20), (20, 20), (20, 10)]]]) \<and>
   ranked_holes (cv_finding holed_blob) (fst holed_blob) (child_parent (the (snd holed_blob))) 0
     = [[(30, 30), (30, 50), (50, 50), (50, 30)], [(10, 10), (10, 20), (20, 20), (20, 10)],
        [(60, 60), (60, 65), (65, 65), (65, 60)]] \<and>
   contourArea (cv_finding holed_blob) [(60, 60), (60, 65), (65, 65), (65, 60)]
     > real_of_int (a_h two_holes_params) \<and>
   ([(60, 60), (60, 65), (65, 65), (65, 60)] :: contour)
     \<notin> set [[(30, 30), (30, 50), (50, 50), (50, 30)], [(10, 10), (10, 20), (20, 20), (20, 10)]]"
proof -
  let ?cv = "cv_finding holed_blob"
  let ?cs = "fst holed_blob"
  let ?h = "child_parent (the (snd holed_blob))"
  have len: "length ?cs = length ?h" by (simp add: holed_blob_def child_parent_def)
  have m: "0 \<le> max_n_holes two_holes_params" by (simp add: two_holes_params_def)
  have res: "filter_contours ?cv ?cs ?h two_holes_params
     = Inr ([[(0, 0), (0, 100), (100, 100), (100, 0)]],
            [[[(30, 30), (30, 50), (50, 50), (50, 30)], [(10, 10), (10, 20), (20, 20), (20, 10)]]])"
    by code_simp
  have idx: "retained_indices ?cv ?cs ?h (a_t two_holes_params) ! 0 = 0" by code_simp
  have rk: "ranked_holes ?cv ?cs ?h 0
     = [[(30, 30), (30, 50), (50, 50), (50, 30)], [(10, 10), (10, 20), (20, 20), (20, 10)],
        [(60, 60), (60, 65), (65, 65), (65, 60)]]"
    by code_simp
  have big: "contourArea ?cv [(60, 60), (60, 65), (65, 65), (65, 60)]
     > real_of_int (a_h two_holes_params)"
    by (simp add: cv_finding_def polygon_area_def two_holes_params_def)
  have d: "distinct (ranked_holes ?cv ?cs ?h 0)" unfolding rk by simp
  have m2: "nat (max_n_holes two_holes_params) = 2" by (simp add: two_holes_params_def)
  have j: "0 < length [[[(30, 30), (30, 50), (50, 50), (50, 30)], [(10, 10), (10, 20), (20, 20), (20, 10 :: int)]]]"
    by simp
  have c: "distinct (ranked_holes ?cv ?cs ?h 0) \<longrightarrow>
      (\<forall>y \<in> set (drop (nat (max_n_holes two_holes_params)) (ranked_holes ?cv ?cs ?h 0)).
         y \<notin> set ([[[(30, 30), (30, 50), (50, 50), (50, 30)], [(10, 10), (10, 20), (20, 20), (20, 10)]]] ! 0))"
    using largest_holes_kept [OF len m res j idx [symmetric] refl] by (elim conjE)
  have nd: "\<forall>y \<in> set (drop 2 (ranked_holes ?cv ?cs ?h 0)).
      y \<notin> set [[(30, 30), (30, 50), (50, 50), (50, 30)], [(10, 10), (10, 20), (20, 20), (20, 10)]]"
    using c d unfolding m2 by simp
  have last: "[(60, 60), (60, 65), (65, 65), (65, 60)] \<in> set (drop 2 (ranked_holes ?cv ?cs ?h 0))"
    unfolding rk by simp
  have "([(60, 60), (60, 65), (65, 65), (65, 60)] :: contour)
     \<notin> set [[(30, 30), (30, 50), (50, 50), (50, 30)], [(10, 10), (10, 20), (20, 20), (20, 10)]]"
    using nd last by blast
  then show ?thesis
    using res rk big by blast
qed

lemma scaled_filter_params_Inr:
  assumes "scaled_filter_params sl fp lvl = Inr (target_scale, fp')"
    and "py_index (level_downsamples sl) lvl = Inr cur"
    and "py_index (level_downsamples sl) (seg_level sl) = Inr seg"
  shows "target_scale = seg \<and>
         a_t fp' = a_t fp * py_int (real_of_int ((ref_tile_size fp)\<^sup>2) /
                     (fst seg / fst cur * (snd seg / snd cur))) \<and>
         a_h fp' = a_h fp * py_int (real_of_int ((ref_tile_size fp)\<^sup>2) /
                     (fst seg / fst cur * (snd seg / snd cur))) \<and>
         max_n_holes fp' = max_n_holes fp"
  using assms
  by (auto simp: scaled_filter_params_def py_div_def Let_def split: if_splits)

text \<open>
  Claim C2, as amended.  When \<^verbatim>\<open>detect_contours\<close> returns, the foreground contours it returns
  are, in index order and scaled to level 0, exactly the parent-less contours whose net area
  (area minus the summed area of the immediate holes) is not zero and strictly exceeds the
  scaled threshold.  The scaled threshold is \<^verbatim>\<open>a_t\<close> times the truncated integer
  \<open>int(ref_tile_size\<^sup>2 / (scale.x * scale.y))\<close>, for \<open>scale\<close> the downsample of the segmentation level
  divided by the downsample of the level resolved for the target spacing.
\<close>

theorem foreground_kept_iff:
  assumes run: "detect_contours cv sl target tol fp st = (Inr (contours', holes'), st')"
    and level: "get_best_level_for_spacing sl target tol False st = (Inr (lvl, w), st1)"
    and cur: "py_index (level_downsamples sl) lvl = Inr cur"
    and seg: "py_index (level_downsamples sl) (seg_level sl) = Inr seg"
    and found: "findContours cv (binary_mask sl) = (contours, Some rows)"
    and len: "length contours = length rows"
    and thr: "threshold = a_t fp * py_int (real_of_int ((ref_tile_size fp)\<^sup>2) /
                (fst seg / fst cur * (snd seg / snd cur)))"
  shows "contours' = map (\<lambda>i. scale_points (contours ! i) seg)
                       (retained_indices cv contours (child_parent rows) threshold) \<and>
         (\<forall>i. i \<in> set (retained_indices cv contours (child_parent rows) threshold) \<longleftrightarrow>
              i < length rows \<and> snd (child_parent rows ! i) = - 1 \<and>
              net_area cv contours (child_parent rows) i \<noteq> 0 \<and>
              net_area cv contours (child_parent rows) i > real_of_int threshold)"
proof -
  have len': "length contours = length (child_parent rows)"
    using len by (simp add: child_parent_def)
  obtain target_scale fp' where p: "scaled_filter_params sl fp lvl = Inr (target_scale, fp')"
    using run unfolding detect_contours_def
    by (cases "scaled_filter_params sl fp lvl")
       (auto simp: and_then_Inr [where f = "get_best_level_for_spacing sl target tol False", OF level]
          and_then_pure_Inl)
  have ts: "target_scale = seg" and at: "a_t fp' = threshold"
    using scaled_filter_params_Inr [OF p cur seg] thr by simp_all
  have "contours' = map (\<lambda>c. scale_points c seg)
      (map (\<lambda>i. contours ! i) (retained_indices cv contours (child_parent rows) threshold))"
    using run unfolding detect_contours_def
    by (simp add: and_then_Inr [where f = "get_best_level_for_spacing sl target tol False", OF level]
        p and_then_pure_Inr found Let_def filter_contours_kept [OF len'] scaleContourDim_Some
        pure_step_def ts at)
  then have a: "contours' = map (\<lambda>i. scale_points (contours ! i) seg)
                       (retained_indices cv contours (child_parent rows) threshold)"
    by (simp add: comp_def)
  have b: "\<forall>i. i \<in> set (retained_indices cv contours (child_parent rows) threshold) \<longleftrightarrow>
              i < length rows \<and> snd (child_parent rows ! i) = - 1 \<and>
              net_area cv contours (child_parent rows) i \<noteq> 0 \<and>
              net_area cv contours (child_parent rows) i > real_of_int threshold"
    using retained_indices_iff [of _ cv contours "child_parent rows" threshold]
    by (simp add: child_parent_def)
  show ?thesis using a b by blast
qed

lemma threefold_level:
  "get_best_level_for_spacing threefold_slide (1/4) (1/10) False initial_state =
     (Inr (0, True), initial_state\<lparr>level_spacing_cache := [0 \<mapsto> 1/4]\<rparr>)"
  by (simp add: threefold_slide_def get_best_level_for_spacing_def and_then_def pure_step_def
      get_level_spacing_def initial_state_def py_index_def py_div_def within_tolerance_def
      get_best_level_for_downsample_custom_def np_argmin_def)

lemma small_blob_detect:
  "fst (detect_contours (cv_finding small_blob) threefold_slide (1/4) (1/10) blob_params initial_state)
     = Inr ([[(0, 0), (0, 15), (51, 15), (51, 0)]], [[]])"
  unfolding detect_contours_def
  apply (simp add: and_then_Inr [where f = "get_best_level_for_spacing threefold_slide (1/4) (1/10) False", OF threefold_level])
  apply (simp add: scaled_filter_params_def threefold_slide_def py_index_def py_div_def py_int_def
      blob_params_def Let_def and_then_pure_Inr cv_finding_def small_blob_def child_parent_def
      filter_contours_def children_of_def polygon_area_def upt_rec [of 0] pure_step_def
      py_take_def scale_points_def)
  done

theorem foreground_kept_iff_witness:
  "fst (detect_contours (cv_finding small_blob) threefold_slide (1/4) (1/10) blob_params initial_state)
     = Inr ([[(0, 0), (0, 15), (51, 15), (51, 0)]], [[]]) \<and>
   a_t blob_params * py_int (real_of_int ((ref_tile_size blob_params)\<^sup>2) / (3 / 1 * (3 / 1))) = 84 \<and>
   [[(0, 0), (0, 15), (51, 15), (51, 0)]] =
     map (\<lambda>i. scale_points (fst small_blob ! i) (3, 3))
       (retained_indices (cv_finding small_blob) (fst small_blob)
          (child_parent (the (snd small_blob))) 84) \<and>
   (0 \<in> set (retained_indices (cv_finding small_blob) (fst small_blob)
          (child_parent (the (snd small_blob))) 84) \<longleftrightarrow>
      0 < length (the (snd small_blob)) \<and> snd (child_parent (the (snd small_blob)) ! 0) = - 1 \<and>
      net_area (cv_finding small_blob) (fst small_blob) (child_parent (the (snd small_blob))) 0 \<noteq> 0 \<and>
      net_area (cv_finding small_blob) (fst small_blob) (child_parent (the (snd small_blob))) 0
        > real_of_int 84)"
proof -
  let ?cv = "cv_finding small_blob"
  let ?run = "detect_contours ?cv threefold_slide (1/4) (1/10) blob_params initial_state"
  have run: "?run = (Inr ([[(0, 0), (0, 15), (51, 15), (51, 0)]], [[]]), snd ?run)"
    using small_blob_detect by (metis prod.collapse)
  have cur: "py_index (level_downsamples threefold_slide) 0 = Inr (1, 1)"
    by (simp add: threefold_slide_def py_index_def)
  have seg: "py_index (level_downsamples threefold_slide) (seg_level threefold_slide) = Inr (3, 3)"
    by (simp add: threefold_slide_def py_index_def)
  have found: "findContours ?cv (binary_mask threefold_slide) = (fst small_blob, Some (the (snd small_blob)))"
    by (simp add: cv_finding_def small_blob_def)
  have len: "length (fst small_blob) = length (the (snd small_blob))"
    by (simp add: small_blob_def)
  have thr: "(84 :: int) = a_t blob_params * py_int (real_of_int ((ref_tile_size blob_params)\<^sup>2) /
                (fst (3 :: real, 3 :: real) / fst (1 :: real, 1 :: real) * (snd (3 :: real, 3 :: real) / snd (1 :: real, 1 :: real))))"
    by (simp add: blob_params_def py_int_def)
  have thr': "a_t blob_params * py_int (real_of_int ((ref_tile_size blob_params)\<^sup>2) / (3 / 1 * (3 / 1))) = 84"
    by (simp add: blob_params_def py_int_def)
  show ?thesis
    using foreground_kept_iff [OF run threefold_level cur seg found len thr] small_blob_detect thr'
    by blast
qed

text \<open>
  The claim as written fails when the quotient is not an integer.  With reference tile size
  16 and scale 3 by 3 the quotient is 28.44 and the code uses 28: for \<^verbatim>\<open>a_t = 3\<close> a blob of
  area 85 is kept, although 85 does not exceed \<open>3 * 256 / 9\<close>.
\<close>

theorem foreground_threshold_counterexample:
  "fst (detect_contours (cv_finding small_blob) threefold_slide (1/4) (1/10) blob_params initial_state)
     = Inr ([[(0, 0), (0, 15), (51, 15), (51, 0)]], [[]]) \<and>
   net_area (cv_finding small_blob) (fst small_blob) (child_parent (the (snd small_blob))) 0 = 85 \<and>
   \<not> (85 > real_of_int (a_t blob_params) * (real_of_int ((ref_tile_size blob_params)\<^sup>2) / (3 * 3 :: real)))"
proof -
  have n: "net_area (cv_finding small_blob) (fst small_blob) (child_parent (the (snd small_blob))) 0 = 85"
    by (simp add: net_area_def cv_finding_def small_blob_def child_parent_def children_of_def
        polygon_area_def)
  have t: "\<not> (85 > real_of_int (a_t blob_params) * (real_of_int ((ref_tile_size blob_params)\<^sup>2) / (3 * 3 :: real)))"
    by (simp add: blob_params_def)
  show ?thesis using small_blob_detect n t by blast
qed

section \<open>Tiling one contour\<close>

lemma on_success_Inr_iff:
  "on_success r f = Inr y \<longleftrightarrow> (\<exists>x. r = Inr x \<and> f x = Inr y)"
  by (cases r) (simp_all add: on_success_def)

lemma on_success_Inr [simp]: "on_success (Inr x) f = f x"
  by (simp add: on_success_def)

lemma on_success_Inl [simp]: "on_success (Inl e) f = Inl e"
  by (simp add: on_success_def)

lemma on_success_fails:
  "(\<And>x. \<exists>e. f x = Inl e) \<Longrightarrow> \<exists>e. on_success r f = Inl e"
  by (cases r) simp_all

lemma and_then_fails:
  "(\<And>x s. \<exists>e. fst (g x s) = Inl e) \<Longrightarrow> \<exists>e. fst (and_then f g st) = Inl e"
  by (cases "f st") (auto simp: and_then_def split: sum.splits)

lemma contour_tiles_None:
  "\<exists>e. contour_tiles cv sl None contour_holes tp tile_level w tile_spacing = Inl e"
  unfolding contour_tiles_def Let_def
  by (auto simp: on_success_def split: sum.splits)

lemma process_contour_None:
  "\<exists>e. fst (process_contour cv sl None contour_holes tp st) = Inl e"
  unfolding process_contour_def
  apply (rule and_then_fails)
  apply (simp split: prod.splits)
  apply (intro allI impI and_then_fails)
  apply (simp add: pure_step_def contour_tiles_None)
  done

lemma tiny_level:
  "get_best_level_for_spacing tiny_slide (1/4) (1/10) True initial_state =
     (Inr (0, True), initial_state\<lparr>level_spacing_cache := [0 \<mapsto> 1/4]\<rparr>)"
  by (simp add: tiny_slide_def get_best_level_for_spacing_def and_then_def pure_step_def
      get_level_spacing_def initial_state_def py_index_def py_div_def within_tolerance_def
      get_best_level_for_downsample_custom_def np_argmin_def)

lemma tiny_spacing:
  "get_level_spacing tiny_slide 0 (initial_state\<lparr>level_spacing_cache := [0 \<mapsto> 1/4]\<rparr>) =
     (Inr (1/4), initial_state\<lparr>level_spacing_cache := [0 \<mapsto> 1/4]\<rparr>)"
  by (simp add: get_level_spacing_def)

lemma tiny_process:
  "process_contour cv tiny_slide contour contour_holes (tiles_of_four padding) initial_state =
     (contour_tiles cv tiny_slide contour contour_holes (tiles_of_four padding) 0 True (1/4),
      initial_state\<lparr>level_spacing_cache := [0 \<mapsto> 1/4]\<rparr>)"
  unfolding process_contour_def
  by (simp add: tiles_of_four_def and_then_Inr [where f = "get_best_level_for_spacing tiny_slide (1/4) (1/10) True", OF tiny_level]
      and_then_Inr [where f = "get_level_spacing tiny_slide 0", OF tiny_spacing] pure_step_def)

lemma tiny_whole_slide:
  "fst (process_contour (cv_finding small_blob) tiny_slide None [] (tiles_of_four True) initial_state)
     = Inl TypeError"
  apply (simp add: tiny_process contour_tiles_def Let_def)
  apply (simp add: tiles_of_four_def tiny_slide_def py_div_def scan_box_def py_index_def)
  done

text \<open>
  Claim C5 is about \<^verbatim>\<open>process_contour\<close> called without a contour.  The code sets the scan box
  to the size of the tile level and then passes the missing contour to \<^verbatim>\<open>scaleContourDim\<close>,
  which raises: on every slide and for all arguments the call fails before any candidate is
  generated, on the 10 by 10 slide with \<^verbatim>\<open>TypeError\<close>.
\<close>

theorem whole_slide_mode_raises:
  "(\<exists>e. fst (process_contour cv sl None contour_holes tp st) = Inl e) \<and>
   fst (process_contour (cv_finding small_blob) tiny_slide None [] (tiles_of_four True) initial_state)
     = Inl TypeError"
  using process_contour_None [of cv sl contour_holes tp st] tiny_whole_slide by (rule conjI)

lemma tiny_sizes:
  "ref_tile_sz (tiles_of_four padding) 1 (1, 1) = (4, 4)"
  "ref_step_size (tiles_of_four padding) 1 (1, 1) = (4, 4)"
  by (simp_all add: ref_tile_sz_def ref_step_size_def tile_size_resized_def step_size_def
      tile_downsample_def tiles_of_four_def py_int_def)

lemma upt_4: "[0..<4] = [0, 1, 2, 3]" "[0..<3] = [0, 1, 2]" "[0..<2] = [0, 1]"
  by (simp_all add: upt_rec)

lemma tiny_unpadded:
  "fst (process_contour (cv_finding small_blob) tiny_slide (Some tiny_contour) []
         (tiles_of_four False) initial_state)
     = Inr ([0, 0, 4, 4], [0, 4, 0, 4], [1, 1, 1, 1], Some 0, Some 1)"
  apply (simp add: tiny_process contour_tiles_def Let_def)
  apply (simp add: tiny_slide_def py_div_def scan_box_def py_index_def tiny_sizes)
  apply (simp add: tiles_of_four_def cv_finding_def bounding_rect_def tiny_contour_def
      scan_stops_def coord_candidates_def np_arange_def filtered_tiles_def mask_select_def
      upt_4 scale_points_def py_int_def)
  done

lemma tiny_padded:
  "fst (process_contour (cv_finding small_blob) tiny_slide (Some tiny_contour) []
         (tiles_of_four True) initial_state)
     = Inr ([0, 0, 0, 4, 4, 4, 8, 8, 8], [0, 4, 8, 0, 4, 8, 0, 4, 8],
            [1, 1, 1, 1, 1, 1, 1, 1, 1], Some 0, Some 1)"
  apply (simp add: tiny_process contour_tiles_def Let_def)
  apply (simp add: tiny_slide_def py_div_def scan_box_def py_index_def tiny_sizes)
  apply (simp add: tiles_of_four_def cv_finding_def bounding_rect_def tiny_contour_def
      scan_stops_def coord_candidates_def np_arange_def filtered_tiles_def mask_select_def
      upt_4 scale_points_def py_int_def)
  done

lemma py_index_in_set: "py_index xs i = Inr v \<Longrightarrow> v \<in> set xs"
  by (auto simp: py_index_def split: if_splits)

lemma py_int_nonneg: "0 \<le> x \<Longrightarrow> 0 \<le> py_int x"
  by (simp add: py_int_def)

lemma np_arange_less:
  assumes "np_arange a b s = Inr xs" "0 \<le> s" "x \<in> set xs"
  shows "x < b"
proof -
  have s: "0 < s" and xs: "xs = map (\<lambda>i. a + int i * s) [0..<nat (- ((a - b) div s))]"
    using assms(1,2) by (auto simp: np_arange_def split: if_splits)
  obtain i where i: "i < nat (- ((a - b) div s))" and x: "x = a + int i * s"
    using assms(3) xs by auto
  have "int i + 1 \<le> - ((a - b) div s)" using i by linarith
  then have "(a - b) div s \<le> - (int i + 1)" by linarith
  then have "(a - b) div s * s \<le> - (int i + 1) * s"
    using s by (simp add: mult_right_mono)
  moreover have "a - b < (a - b) div s * s + s"
    using s by (metis add.commute div_mult_mod_eq pos_mod_bound add_strict_left_mono)
  ultimately have "a - b < - (int i + 1) * s + s" by linarith
  then show ?thesis using x by (simp add: algebra_simps)
qed

lemma hole_free_flags_eq:
  "hole_free_flags contour_holes tile_sz zs =
     (if \<exists>z \<in> set zs. fst z then Inl TypingError else Inr (map fst zs))"
proof (induction zs)
  case Nil
  then show ?case by simp
next
  case (Cons z zs)
  obtain flag coord where z: "z = (flag, coord)" by (cases z) auto
  show ?case using Cons z by (cases flag) (simp_all add: isInHoles_def)
qed

lemma zip_take_right: "length xs \<le> n \<Longrightarrow> zip xs (take n ys) = zip xs ys"
proof (induction xs arbitrary: n ys)
  case Nil
  then show ?case by simp
next
  case (Cons x xs)
  obtain m where n: "n = Suc m" using Cons.prems by (cases n) auto
  show ?case using Cons n by (cases ys) simp_all
qed

text \<open>
  With \<^verbatim>\<open>drop_holes\<close> set, a candidate that the tissue check keeps makes the call of
  \<^verbatim>\<open>isInHoles\<close> that raises.
\<close>

lemma drop_holes_raises:
  assumes "check_coordinates cv cont contour_holes (binary_mask sl) sz scale (min_tissue_ratio tp)
             cands = (flags, tissue_pcts)"
    and "drop_holes tp" and "\<exists>z \<in> set (zip flags cands). fst z"
  shows "filtered_tiles cv sl cont contour_holes tp sz scale cands = Inl TypingError"
  using assms by (simp add: filtered_tiles_def hole_free_flags_eq)

lemma filtered_tiles_Inr:
  assumes "filtered_tiles cv sl cont contour_holes tp sz scale cands = Inr (fc, fp)"
  shows "\<exists>flags tissue_pcts.
           check_coordinates cv cont contour_holes (binary_mask sl) sz scale
             (min_tissue_ratio tp) cands = (flags, tissue_pcts) \<and>
           fc = map fst (filter snd (zip cands flags)) \<and>
           fp = map fst (filter snd (zip tissue_pcts flags)) \<and>
           (drop_holes tp \<longrightarrow> fc = []) \<and>
           (\<not> drop_holes tp \<longrightarrow> length flags = length cands \<and> length tissue_pcts = length cands)"
proof -
  obtain flags tissue_pcts where c: "check_coordinates cv cont contour_holes (binary_mask sl) sz
      scale (min_tissue_ratio tp) cands = (flags, tissue_pcts)"
    by (cases "check_coordinates cv cont contour_holes (binary_mask sl) sz scale
      (min_tissue_ratio tp) cands")
  show ?thesis
  proof (cases "drop_holes tp")
    case False
    then show ?thesis using assms c
      by (auto simp: filtered_tiles_def mask_select_def split: if_splits)
  next
    case True
    let ?zs = "zip flags cands"
    have "\<exists>kf. hole_free_flags contour_holes sz ?zs = Inr kf \<and> mask_select cands kf = Inr fc \<and>
        mask_select tissue_pcts kf = Inr fp"
      using assms c True by (auto simp: filtered_tiles_def on_success_Inr_iff)
    then obtain kf where h: "hole_free_flags contour_holes sz ?zs = Inr kf"
      and m1: "mask_select cands kf = Inr fc" and m2: "mask_select tissue_pcts kf = Inr fp"
      by blast
    have none: "\<forall>z \<in> set ?zs. \<not> fst z" and kf: "kf = map fst ?zs"
      using h by (auto simp: hole_free_flags_eq split: if_splits)
    have lk: "length kf = length cands" and lt: "length tissue_pcts = length kf"
      and fc: "fc = map fst (filter snd (zip cands kf))"
      and fp: "fp = map fst (filter snd (zip tissue_pcts kf))"
      using m1 m2 by (auto simp: mask_select_def split: if_splits)
    have allF: "\<forall>f \<in> set kf. \<not> f" using none kf by auto
    have e1: "filter snd (zip cands kf) = []"
      using allF by (auto simp: filter_empty_conv dest: set_zip_rightD)
    have e2: "filter snd (zip tissue_pcts kf) = []"
      using allF by (auto simp: filter_empty_conv dest: set_zip_rightD)
    have len: "length cands \<le> length flags" using lk kf by simp
    have kf': "kf = take (length cands) flags"
      using kf len by (simp add: map_fst_zip_take)
    have z1: "zip cands flags = zip cands kf"
      unfolding kf' by (simp add: zip_take_right)
    have z2: "zip tissue_pcts flags = zip tissue_pcts kf"
      unfolding kf' using lt lk by (simp add: zip_take_right)
    show ?thesis using c True fc fp e1 e2 z1 z2 by simp
  qed
qed

lemma coord_candidates_less:
  assumes "coord_candidates box stops step = Inr cands" "0 \<le> fst step" "0 \<le> snd step"
    "(x, y) \<in> set cands"
  shows "x < fst stops \<and> y < snd stops"
proof -
  obtain start_x start_y w h where box: "box = (start_x, start_y, w, h)" by (cases box) auto
  obtain x_range y_range where xr: "np_arange start_x (fst stops) (fst step) = Inr x_range"
    and yr: "np_arange start_y (snd stops) (snd step) = Inr y_range"
    and c: "cands = List.product x_range y_range"
    using assms(1) unfolding coord_candidates_def box by (auto simp: on_success_Inr_iff)
  have "x \<in> set x_range" "y \<in> set y_range" using assms(4) c by auto
  then show ?thesis
    using np_arange_less [OF xr assms(2)] np_arange_less [OF yr assms(3)] by blast
qed

lemma ref_step_size_nonneg:
  assumes "0 \<le> tile_size tp" "overlap tp \<le> 1" "0 \<le> rf" "0 \<le> fst ld" "0 \<le> snd ld"
  shows "0 \<le> fst (ref_step_size tp rf ld) \<and> 0 \<le> snd (ref_step_size tp rf ld)"
proof -
  have "0 \<le> tile_size_resized tp rf"
    unfolding tile_size_resized_def using assms(1,3) by (intro py_int_nonneg) simp
  then have "0 \<le> step_size tp rf"
    unfolding step_size_def using assms(2) by (intro py_int_nonneg) simp
  moreover have "0 \<le> fst (tile_downsample ld)" "0 \<le> snd (tile_downsample ld)"
    using assms(4,5) by (simp_all add: tile_downsample_def py_int_nonneg)
  ultimately show ?thesis by (simp add: ref_step_size_def)
qed

lemma contour_tiles_steps:
  assumes "contour_tiles cv sl contour contour_holes tp tile_level w tile_spacing = Inr res"
  shows "\<exists>q box ld img scale inv_x inv_y scaled cont cands fc fp.
           py_div (spacing tp) tile_spacing = Inr q \<and>
           scan_box cv sl contour tile_level = Inr box \<and>
           py_index (level_downsamples sl) tile_level = Inr ld \<and>
           py_index (level_dimensions sl) 0 = Inr img \<and>
           py_index (level_downsamples sl) (seg_level sl) = Inr scale \<and>
           py_div 1 (fst scale) = Inr inv_x \<and> py_div 1 (snd scale) = Inr inv_y \<and>
           scaleContourDim [contour] (inv_x, inv_y) = Inr scaled \<and>
           py_index scaled 0 = Inr cont \<and>
           coord_candidates box
             (scan_stops (use_padding tp) box img (ref_tile_sz tp (if w then 1 else q) ld))
             (ref_step_size tp (if w then 1 else q) ld) = Inr cands \<and>
           filtered_tiles cv sl cont contour_holes tp
             (fst (ref_tile_sz tp (if w then 1 else q) ld)) scale cands = Inr (fc, fp) \<and>
           res = (if length fc > 0
                  then (map fst fc, map snd fc, fp, Some tile_level, Some (if w then 1 else q))
                  else ([], [], [], None, None))"
  using assms unfolding contour_tiles_def Let_def on_success_Inr_iff
  apply (elim exE conjE)
  apply (intro exI conjI)
             apply assumption+
   apply (erule trans)
   apply (rule arg_cong [where f = Inr])
   apply (rule surjective_pairing)
  apply (simp add: case_prod_beta split: if_splits)
  done

lemma contour_tiles_emitted:
  assumes "contour_tiles cv sl contour contour_holes tp tile_level w tile_spacing =
             Inr (xs, ys, pcts, Some l, Some rf)"
  shows "\<exists>c q ld img scale cands flags tissue_pcts.
           contour = Some c \<and>
           py_div (spacing tp) tile_spacing = Inr q \<and> rf = (if w then 1 else q) \<and>
           l = tile_level \<and>
           py_index (level_downsamples sl) tile_level = Inr ld \<and>
           py_index (level_dimensions sl) 0 = Inr img \<and>
           py_index (level_downsamples sl) (seg_level sl) = Inr scale \<and>
           coord_candidates (boundingRect cv c)
             (scan_stops (use_padding tp) (boundingRect cv c) img (ref_tile_sz tp rf ld))
             (ref_step_size tp rf ld) = Inr cands \<and>
           check_coordinates cv (scale_points c (1 / fst scale, 1 / snd scale)) contour_holes
             (binary_mask sl) (fst (ref_tile_sz tp rf ld)) scale (min_tissue_ratio tp) cands =
             (flags, tissue_pcts) \<and>
           length flags = length cands \<and> length tissue_pcts = length cands \<and>
           \<not> drop_holes tp \<and>
           zip xs ys = map fst (filter snd (zip cands flags)) \<and>
           pcts = map fst (filter snd (zip tissue_pcts flags))"
proof -
  obtain q box ld img scale inv_x inv_y scaled cont cands fc fp where
    q: "py_div (spacing tp) tile_spacing = Inr q"
    and box: "scan_box cv sl contour tile_level = Inr box"
    and ld: "py_index (level_downsamples sl) tile_level = Inr ld"
    and img: "py_index (level_dimensions sl) 0 = Inr img"
    and scale: "py_index (level_downsamples sl) (seg_level sl) = Inr scale"
    and inv: "py_div 1 (fst scale) = Inr inv_x" "py_div 1 (snd scale) = Inr inv_y"
    and scaled: "scaleContourDim [contour] (inv_x, inv_y) = Inr scaled"
    and cont: "py_index scaled 0 = Inr cont"
    and cc: "coord_candidates box
             (scan_stops (use_padding tp) box img (ref_tile_sz tp (if w then 1 else q) ld))
             (ref_step_size tp (if w then 1 else q) ld) = Inr cands"
    and ft: "filtered_tiles cv sl cont contour_holes tp
             (fst (ref_tile_sz tp (if w then 1 else q) ld)) scale cands = Inr (fc, fp)"
    and res: "(xs, ys, pcts, Some l, Some rf) = (if length fc > 0
                  then (map fst fc, map snd fc, fp, Some tile_level, Some (if w then 1 else q))
                  else ([], [], [], None, None))"
    using contour_tiles_steps [OF assms] by blast
  have ne: "fc \<noteq> []" and xs: "xs = map fst fc" and ys: "ys = map snd fc" and pcts: "pcts = fp"
    and l: "l = tile_level" and rf: "rf = (if w then 1 else q)"
    using res by (auto split: if_splits)
  obtain c where c: "contour = Some c" using scaled by (cases contour) auto
  have b: "box = boundingRect cv c" using box c by (simp add: scan_box_def)
  have i: "inv_x = 1 / fst scale" "inv_y = 1 / snd scale"
    using inv by (auto simp: py_div_def split: if_splits)
  have "scaled = [scale_points c (inv_x, inv_y)]" using scaled c by simp
  then have ct: "cont = scale_points c (1 / fst scale, 1 / snd scale)"
    using cont i by (simp add: py_index_def)
  obtain flags tissue_pcts where
    ck: "check_coordinates cv cont contour_holes (binary_mask sl)
           (fst (ref_tile_sz tp (if w then 1 else q) ld)) scale (min_tissue_ratio tp) cands =
           (flags, tissue_pcts)"
    and fc: "fc = map fst (filter snd (zip cands flags))"
    and fp: "fp = map fst (filter snd (zip tissue_pcts flags))"
    and dh: "drop_holes tp \<longrightarrow> fc = []"
    and len: "\<not> drop_holes tp \<longrightarrow> length flags = length cands \<and> length tissue_pcts = length cands"
    using filtered_tiles_Inr [OF ft] by blast
  have nd: "\<not> drop_holes tp" using dh ne by blast
  have z: "zip xs ys = fc" unfolding xs ys by (simp add: zip_map_fst_snd)
  show ?thesis
    using c q rf l ld img scale cc [folded rf, unfolded b] ck [folded rf, unfolded ct] len nd
      z fc fp pcts
    by blast
qed

lemma spacing_walk_keeps:
  "(\<And>l s. I s \<Longrightarrow> I (snd (get_level_spacing sl l s))) \<Longrightarrow> I st \<Longrightarrow>
   I (snd (spacing_walk sl t tol level ls st))"
proof (induction sl t tol level ls st rule: spacing_walk.induct)
  case (1 sl t tol level ls st)
  note g = "1.prems"(1)
  show ?case
  proof (cases "level > 0 \<and> ls > t")
    case False
    then have "spacing_walk sl t tol level ls st = (Inr (level, ls, False), st)"
      by (subst spacing_walk.simps) auto
    then show ?thesis using "1.prems"(2) by simp
  next
    case True
    obtain r st' where gl: "get_level_spacing sl (level - 1) st = (r, st')"
      by (cases "get_level_spacing sl (level - 1) st")
    have p: "I st'" using g [OF "1.prems"(2), of "level - 1"] gl by simp
    show ?thesis
    proof (cases r)
      case (Inl e)
      then have "spacing_walk sl t tol level ls st = (Inl e, st')"
        using True gl by (subst spacing_walk.simps) auto
      then show ?thesis using p by simp
    next
      case (Inr v)
      show ?thesis
      proof (cases "within_tolerance v t tol")
        case (Inl e)
        then have "spacing_walk sl t tol level ls st = (Inl e, st')"
          using True gl Inr by (subst spacing_walk.simps) auto
        then show ?thesis using p by simp
      next
        case w: (Inr w)
        show ?thesis
        proof (cases w)
          case hit: True
          then have "spacing_walk sl t tol level ls st = (Inr (level - 1, v, True), st')"
            using True gl Inr w by (subst spacing_walk.simps) auto
          then show ?thesis using p by simp
        next
          case False
          have ih: "I (snd (spacing_walk sl t tol (level - 1) v st'))"
            using "1.IH" [OF True gl [symmetric] Inr w _ g p] False by simp
          have "spacing_walk sl t tol level ls st = spacing_walk sl t tol (level - 1) v st'"
            using True gl Inr w False by (subst spacing_walk.simps) auto
          then show ?thesis using ih by simp
        qed
      qed
    qed
  qed
qed

lemma final_keeps:
  "(\<And>d s. I s \<Longrightarrow> I (emit_warning d s)) \<Longrightarrow> I st \<Longrightarrow>
   I (snd (r, if c then emit_warning d st else st))"
  by simp

lemma get_best_level_for_spacing_keeps:
  assumes g: "\<And>l s. I s \<Longrightarrow> I (snd (get_level_spacing sl l s))"
    and e: "\<And>d s. I s \<Longrightarrow> I (emit_warning d s)"
  shows "I st \<Longrightarrow> I (snd (get_best_level_for_spacing sl t tol verbose st))"
  unfolding get_best_level_for_spacing_def
  by (intro and_then_keeps [where I = I] if_keeps [where I = I]
      triple_keeps [where I = I] pure_step_keeps [where I = I]
      g spacing_walk_keeps [where I = I] final_keeps [where I = I] e | assumption)+

lemma emit_warning_cache_ok: "cache_ok sl st \<Longrightarrow> cache_ok sl (emit_warning d st)"
  by (simp add: cache_ok_def emit_warning_def)

lemma get_best_level_for_spacing_cache_ok:
  "cache_ok sl st \<Longrightarrow> cache_ok sl (snd (get_best_level_for_spacing sl t tol verbose st))"
  by (rule get_best_level_for_spacing_keeps [where I = "cache_ok sl"])
     (simp_all add: get_level_spacing_cache_ok emit_warning_cache_ok)

lemma process_contour_Inr:
  assumes "process_contour cv sl contour contour_holes tp st = (Inr res, st')"
  shows "\<exists>tile_level w st1 tile_spacing.
           get_best_level_for_spacing sl (spacing tp) (tolerance tp) True st =
             (Inr (tile_level, w), st1) \<and>
           get_level_spacing sl tile_level st1 = (Inr tile_spacing, st') \<and>
           contour_tiles cv sl contour contour_holes tp tile_level w tile_spacing = Inr res"
  using assms unfolding process_contour_def and_then_def pure_step_def
  by (auto split: prod.splits sum.splits)

lemma padded_run:
  assumes run: "process_contour cv sl contour contour_holes tp st = (Inr res, st')"
    and pad: "use_padding tp"
  shows "\<exists>c start_x start_y bw bh tile_level is_within st1 tile_spacing q fac dsl scale
            x_range y_range flags tissue_pcts.
           contour = Some c \<and> boundingRect cv c = (start_x, start_y, bw, bh) \<and>
           get_best_level_for_spacing sl (spacing tp) (tolerance tp) True st =
             (Inr (tile_level, is_within), st1) \<and>
           get_level_spacing sl tile_level st1 = (Inr tile_spacing, st') \<and>
           py_div (spacing tp) tile_spacing = Inr q \<and> fac = (if is_within then 1 else q) \<and>
           py_index (level_downsamples sl) tile_level = Inr dsl \<and>
           py_index (level_downsamples sl) (seg_level sl) = Inr scale \<and>
           np_arange start_x (start_x + bw) (fst (ref_step_size tp fac dsl)) = Inr x_range \<and>
           np_arange start_y (start_y + bh) (snd (ref_step_size tp fac dsl)) = Inr y_range \<and>
           check_coordinates cv (scale_points c (1 / fst scale, 1 / snd scale)) contour_holes
             (binary_mask sl) (fst (ref_tile_sz tp fac dsl)) scale (min_tissue_ratio tp)
             (List.product x_range y_range) = (flags, tissue_pcts) \<and>
           res = (let kept = map fst (filter snd (zip (List.product x_range y_range) flags))
                  in if kept = [] then ([], [], [], None, None)
                     else (map fst kept, map snd kept,
                           map fst (filter snd (zip tissue_pcts flags)),
                           Some tile_level, Some fac))"
proof -
  obtain tile_level w st1 tile_spacing where
    lv: "get_best_level_for_spacing sl (spacing tp) (tolerance tp) True st = (Inr (tile_level, w), st1)"
    and ts: "get_level_spacing sl tile_level st1 = (Inr tile_spacing, st')"
    and ct: "contour_tiles cv sl contour contour_holes tp tile_level w tile_spacing = Inr res"
    using process_contour_Inr [OF run] by blast
  obtain q box ld img scale inv_x inv_y scaled cont cands fc fp where
    q: "py_div (spacing tp) tile_spacing = Inr q"
    and box: "scan_box cv sl contour tile_level = Inr box"
    and ld: "py_index (level_downsamples sl) tile_level = Inr ld"
    and scale: "py_index (level_downsamples sl) (seg_level sl) = Inr scale"
    and inv: "py_div 1 (fst scale) = Inr inv_x" "py_div 1 (snd scale) = Inr inv_y"
    and scaled: "scaleContourDim [contour] (inv_x, inv_y) = Inr scaled"
    and cont: "py_index scaled 0 = Inr cont"
    and cc: "coord_candidates box
             (scan_stops (use_padding tp) box img (ref_tile_sz tp (if w then 1 else q) ld))
             (ref_step_size tp (if w then 1 else q) ld) = Inr cands"
    and ft: "filtered_tiles cv sl cont contour_holes tp
             (fst (ref_tile_sz tp (if w then 1 else q) ld)) scale cands = Inr (fc, fp)"
    and res: "res = (if length fc > 0
                  then (map fst fc, map snd fc, fp, Some tile_level, Some (if w then 1 else q))
                  else ([], [], [], None, None))"
    using contour_tiles_steps [OF ct] by blast
  define fac where "fac = (if w then 1 else q)"
  obtain c where c: "contour = Some c" using scaled by (cases contour) auto
  have b: "box = boundingRect cv c" using box c by (simp add: scan_box_def)
  obtain start_x start_y bw bh where br: "boundingRect cv c = (start_x, start_y, bw, bh)"
    by (cases "boundingRect cv c") auto
  have i: "inv_x = 1 / fst scale" "inv_y = 1 / snd scale"
    using inv by (auto simp: py_div_def split: if_splits)
  have "scaled = [scale_points c (inv_x, inv_y)]" using scaled c by simp
  then have cn: "cont = scale_points c (1 / fst scale, 1 / snd scale)"
    using cont i by (simp add: py_index_def)
  have cc': "coord_candidates (start_x, start_y, bw, bh) (start_x + bw, start_y + bh)
               (ref_step_size tp fac ld) = Inr cands"
    using cc pad unfolding b br fac_def by (simp add: scan_stops_def)
  obtain x_range y_range where
    xr: "np_arange start_x (start_x + bw) (fst (ref_step_size tp fac ld)) = Inr x_range"
    and yr: "np_arange start_y (start_y + bh) (snd (ref_step_size tp fac ld)) = Inr y_range"
    and cands: "cands = List.product x_range y_range"
    using cc' unfolding coord_candidates_def by (auto simp: on_success_Inr_iff)
  obtain flags tissue_pcts where
    ck: "check_coordinates cv cont contour_holes (binary_mask sl)
           (fst (ref_tile_sz tp fac ld)) scale (min_tissue_ratio tp) cands = (flags, tissue_pcts)"
    and fc: "fc = map fst (filter snd (zip cands flags))"
    and fp: "fp = map fst (filter snd (zip tissue_pcts flags))"
    using filtered_tiles_Inr [OF ft] unfolding fac_def by blast
  have r: "res = (let kept = map fst (filter snd (zip (List.product x_range y_range) flags))
                  in if kept = [] then ([], [], [], None, None)
                     else (map fst kept, map snd kept,
                           map fst (filter snd (zip tissue_pcts flags)),
                           Some tile_level, Some fac))"
    using res unfolding fc fp cands fac_def Let_def by simp
  show ?thesis
    using c br lv ts q fac_def ld scale xr yr ck [unfolded cn cands] r by blast
qed

lemma tiny_padded_overflow:
  "\<exists>cv sl contour contour_holes tp xs ys pcts l rf ld img_w img_h i j.
      use_padding tp \<and> 0 \<le> tile_size tp \<and> overlap tp \<le> 1 \<and> 0 \<le> spacing tp \<and>
      (\<forall>s \<in> set (spacings sl). 0 < s) \<and>
      (\<forall>d \<in> set (level_downsamples sl). 0 \<le> fst d \<and> 0 \<le> snd d) \<and>
      fst (process_contour cv sl contour contour_holes tp initial_state) =
        Inr (xs, ys, pcts, Some l, Some rf) \<and>
      py_index (level_downsamples sl) l = Inr ld \<and>
      py_index (level_dimensions sl) 0 = Inr (img_w, img_h) \<and>
      i < length xs \<and> img_w < xs ! i + fst (ref_tile_sz tp rf ld) \<and>
      j < length ys \<and> img_h < ys ! j + snd (ref_tile_sz tp rf ld)"
proof -
  have a: "use_padding (tiles_of_four True) \<and> 0 \<le> tile_size (tiles_of_four True) \<and>
      overlap (tiles_of_four True) \<le> 1 \<and> 0 \<le> spacing (tiles_of_four True)"
    by (simp add: tiles_of_four_def)
  have b: "(\<forall>s \<in> set (spacings tiny_slide). 0 < s) \<and>
      (\<forall>d \<in> set (level_downsamples tiny_slide). 0 \<le> fst d \<and> 0 \<le> snd d)"
    by (simp add: tiny_slide_def)
  have c: "py_index (level_downsamples tiny_slide) 0 = Inr (1, 1) \<and>
      py_index (level_dimensions tiny_slide) 0 = Inr (10, 10)"
    by (simp add: tiny_slide_def py_index_def)
  have d: "(6 :: nat) < length [0, 0, 0, 4, 4, 4, 8, 8, 8 :: int] \<and>
      (10 :: int) < [0, 0, 0, 4, 4, 4, 8, 8, 8] ! 6 + fst (ref_tile_sz (tiles_of_four True) 1 (1, 1))"
    by (simp add: tiny_sizes)
  have e: "(2 :: nat) < length [0, 4, 8, 0, 4, 8, 0, 4, 8 :: int] \<and>
      (10 :: int) < [0, 4, 8, 0, 4, 8, 0, 4, 8] ! 2 + snd (ref_tile_sz (tiles_of_four True) 1 (1, 1))"
    by (simp add: tiny_sizes)
  show ?thesis
    apply (rule exI [of _ "cv_finding small_blob"])
    apply (rule exI [of _ tiny_slide])
    apply (rule exI [of _ "Some tiny_contour"])
    apply (rule exI [of _ "[]"])
    apply (rule exI [of _ "tiles_of_four True"])
    apply (rule exI [of _ "[0, 0, 0, 4, 4, 4, 8, 8, 8]"])
    apply (rule exI [of _ "[0, 4, 8, 0, 4, 8, 0, 4, 8]"])
    apply (rule exI [of _ "[1, 1, 1, 1, 1, 1, 1, 1, 1]"])
    apply (rule exI [of _ 0])
    apply (rule exI [of _ 1])
    apply (rule exI [of _ "(1, 1)"])
    apply (rule exI [of _ 10])
    apply (rule exI [of _ 10])
    apply (rule exI [of _ 6])
    apply (rule exI [of _ 2])
    using a b c d e tiny_padded apply blast
    done
qed

text \<open>
  Claim C4.  Let the tile size and the target spacing be non-negative, the overlap at most 1,
  the spacings of the slide positive and its downsample factors non-negative.  Whenever
  \<^verbatim>\<open>process_contour\<close> returns tiles, there are as many x as y coordinates, and without padding
  every tile satisfies \<open>x + ref_tile_size.x \<le> img_w\<close> and \<open>y + ref_tile_size.y \<le> img_h\<close> for the
  level-0 size \<open>(img_w, img_h)\<close> of the slide.  With padding, in every call of
  \<^verbatim>\<open>process_contour\<close> that returns, with tiles or without, the scan of each axis runs from the
  corner of the bounding box \<open>(start_x, start_y, w, h)\<close> of the contour to its far edge, whatever
  the size of the slide: the candidates are all pairs from
  \<^verbatim>\<open>np.arange(start_x, start_x + w, ref_step_size_x)\<close> and
  \<^verbatim>\<open>np.arange(start_y, start_y + h, ref_step_size_y)\<close>, with the step and the tile size of the
  level and the resize factor the call resolves, and the call returns exactly the candidates
  that the tissue check flags, in their order, or the empty result if there is none.  Such a
  tile can reach past the slide on either axis: there are runs, within the same bounds on the
  inputs, that return a tile past the right edge and a tile past the bottom edge.
\<close>

theorem unpadded_tiles_inside:
  assumes run: "process_contour cv sl contour contour_holes tp st =
                  (Inr (xs, ys, pcts, Some l, Some rf), st')"
    and size: "0 \<le> tile_size tp" and ov: "overlap tp \<le> 1" and sp: "0 \<le> spacing tp"
    and ok: "cache_ok sl st"
    and pos: "\<forall>s \<in> set (spacings sl). 0 < s"
    and dpos: "\<forall>d \<in> set (level_downsamples sl). 0 \<le> fst d \<and> 0 \<le> snd d"
    and ld: "py_index (level_downsamples sl) l = Inr ld"
    and img: "py_index (level_dimensions sl) 0 = Inr (img_w, img_h)"
  shows "length ys = length xs \<and>
         (\<not> use_padding tp \<longrightarrow>
            (\<forall>i < length xs. xs ! i + fst (ref_tile_sz tp rf ld) \<le> img_w \<and>
                             ys ! i + snd (ref_tile_sz tp rf ld) \<le> img_h)) \<and>
         (use_padding tp \<longrightarrow>
            (\<forall>contour' holes' st0 res st0'.
               process_contour cv sl contour' holes' tp st0 = (Inr res, st0') \<longrightarrow>
               (\<exists>c start_x start_y bw bh tile_level is_within st1 tile_spacing q fac dsl scale
                   x_range y_range flags tissue_pcts.
                  contour' = Some c \<and> boundingRect cv c = (start_x, start_y, bw, bh) \<and>
                  get_best_level_for_spacing sl (spacing tp) (tolerance tp) True st0 =
                    (Inr (tile_level, is_within), st1) \<and>
                  get_level_spacing sl tile_level st1 = (Inr tile_spacing, st0') \<and>
                  py_div (spacing tp) tile_spacing = Inr q \<and> fac = (if is_within then 1 else q) \<and>
                  py_index (level_downsamples sl) tile_level = Inr dsl \<and>
                  py_index (level_downsamples sl) (seg_level sl) = Inr scale \<and>
                  np_arange start_x (start_x + bw) (fst (ref_step_size tp fac dsl)) = Inr x_range \<and>
                  np_arange start_y (start_y + bh) (snd (ref_step_size tp fac dsl)) = Inr y_range \<and>
                  check_coordinates cv (scale_points c (1 / fst scale, 1 / snd scale)) holes'
                    (binary_mask sl) (fst (ref_tile_sz tp fac dsl)) scale (min_tissue_ratio tp)
                    (List.product x_range y_range) = (flags, tissue_pcts) \<and>
                  res = (let kept = map fst (filter snd (zip (List.product x_range y_range) flags))
                         in if kept = [] then ([], [], [], None, None)
                            else (map fst kept, map snd kept,
                                  map fst (filter snd (zip tissue_pcts flags)),
                                  Some tile_level, Some fac))))) \<and>
         (\<exists>cv sl contour contour_holes tp xs ys pcts l rf ld img_w img_h i j.
            use_padding tp \<and> 0 \<le> tile_size tp \<and> overlap tp \<le> 1 \<and> 0 \<le> spacing tp \<and>
            (\<forall>s \<in> set (spacings sl). 0 < s) \<and>
            (\<forall>d \<in> set (level_downsamples sl). 0 \<le> fst d \<and> 0 \<le> snd d) \<and>
            fst (process_contour cv sl contour contour_holes tp initial_state) =
              Inr (xs, ys, pcts, Some l, Some rf) \<and>
            py_index (level_downsamples sl) l = Inr ld \<and>
            py_index (level_dimensions sl) 0 = Inr (img_w, img_h) \<and>
            i < length xs \<and> img_w < xs ! i + fst (ref_tile_sz tp rf ld) \<and>
            j < length ys \<and> img_h < ys ! j + snd (ref_tile_sz tp rf ld))"
proof -
  obtain tile_level w st1 tile_spacing where
    lv: "get_best_level_for_spacing sl (spacing tp) (tolerance tp) True st = (Inr (tile_level, w), st1)"
    and ts: "get_level_spacing sl tile_level st1 = (Inr tile_spacing, st')"
    and ct: "contour_tiles cv sl contour contour_holes tp tile_level w tile_spacing =
               Inr (xs, ys, pcts, Some l, Some rf)"
    using process_contour_Inr [OF run] by blast
  have ok1: "cache_ok sl st1"
    using get_best_level_for_spacing_cache_ok [OF ok, of "spacing tp" "tolerance tp" True] lv by simp
  have "py_index (spacings sl) tile_level = Inr tile_spacing"
    using get_level_spacing_value [OF ok1, of tile_level] ts by simp
  then have "tile_spacing \<in> set (spacings sl)" by (rule py_index_in_set)
  then have tpos: "0 < tile_spacing" using pos by simp
  obtain c q ld' img' scale cands flags tissue_pcts where
    c: "contour = Some c"
    and q: "py_div (spacing tp) tile_spacing = Inr q" and rf: "rf = (if w then 1 else q)"
    and l: "l = tile_level"
    and ld': "py_index (level_downsamples sl) tile_level = Inr ld'"
    and img': "py_index (level_dimensions sl) 0 = Inr img'"
    and scale: "py_index (level_downsamples sl) (seg_level sl) = Inr scale"
    and cc: "coord_candidates (boundingRect cv c)
             (scan_stops (use_padding tp) (boundingRect cv c) img' (ref_tile_sz tp rf ld'))
             (ref_step_size tp rf ld') = Inr cands"
    and ck: "check_coordinates cv (scale_points c (1 / fst scale, 1 / snd scale)) contour_holes
             (binary_mask sl) (fst (ref_tile_sz tp rf ld')) scale (min_tissue_ratio tp) cands =
             (flags, tissue_pcts)"
    and len: "length flags = length cands"
    and z: "zip xs ys = map fst (filter snd (zip cands flags))"
    using contour_tiles_emitted [OF ct] by blast
  have e1: "ld' = ld" using ld ld' l by simp
  have e2: "img' = (img_w, img_h)" using img img' by simp
  have "q = spacing tp / tile_spacing" using q tpos by (simp add: py_div_def)
  then have rfpos: "0 \<le> rf" using rf sp tpos by simp
  have "ld \<in> set (level_downsamples sl)" using ld by (rule py_index_in_set)
  then have ldpos: "0 \<le> fst ld" "0 \<le> snd ld" using dpos by auto
  have step: "0 \<le> fst (ref_step_size tp rf ld) \<and> 0 \<le> snd (ref_step_size tp rf ld)"
    by (rule ref_step_size_nonneg [OF size ov rfpos ldpos])
  have len_eq: "length ys = length xs"
    using contour_tiles_steps [OF ct] by (auto split: if_splits)
  have sub: "set (zip xs ys) \<subseteq> set cands"
    unfolding z by (auto dest: set_zip_leftD)
  have inside: "xs ! i + fst (ref_tile_sz tp rf ld) \<le> img_w \<and>
                ys ! i + snd (ref_tile_sz tp rf ld) \<le> img_h"
    if np: "\<not> use_padding tp" and i: "i < length xs" for i
  proof -
    have "i < length (zip xs ys)" using i len_eq by simp
    then have "zip xs ys ! i \<in> set (zip xs ys)" by (rule nth_mem)
    moreover have "zip xs ys ! i = (xs ! i, ys ! i)" using i len_eq by simp
    ultimately have m: "(xs ! i, ys ! i) \<in> set cands" using sub by auto
    obtain start_x start_y bw bh where box: "boundingRect cv c = (start_x, start_y, bw, bh)"
      by (cases "boundingRect cv c") auto
    have "xs ! i < fst (scan_stops False (boundingRect cv c) (img_w, img_h) (ref_tile_sz tp rf ld)) \<and>
          ys ! i < snd (scan_stops False (boundingRect cv c) (img_w, img_h) (ref_tile_sz tp rf ld))"
      using coord_candidates_less [OF cc [unfolded e1 e2] _ _ m] step np by simp
    then show ?thesis unfolding box scan_stops_def by simp
  qed
  show ?thesis
    apply (intro conjI tiny_padded_overflow)
      apply (rule len_eq)
    using inside apply blast
    apply (intro impI allI)
    apply (rule padded_run; assumption)
    done
qed

theorem unpadded_tiles_inside_witness:
  "fst (process_contour (cv_finding small_blob) tiny_slide (Some tiny_contour) []
         (tiles_of_four False) initial_state)
     = Inr ([0, 0, 4, 4], [0, 4, 0, 4], [1, 1, 1, 1], Some 0, Some 1) \<and>
   ref_tile_sz (tiles_of_four False) 1 (1, 1) = (4, 4) \<and>
   [0, 0, 4, 4] ! 3 + fst (ref_tile_sz (tiles_of_four False) 1 (1, 1)) \<le> (10 :: int) \<and>
   [0, 4, 0, 4] ! 3 + snd (ref_tile_sz (tiles_of_four False) 1 (1, 1)) \<le> (10 :: int) \<and>
   fst (process_contour (cv_finding small_blob) tiny_slide (Some tiny_contour) []
         (tiles_of_four True) initial_state)
     = Inr ([0, 0, 0, 4, 4, 4, 8, 8, 8], [0, 4, 8, 0, 4, 8, 0, 4, 8],
            [1, 1, 1, 1, 1, 1, 1, 1, 1], Some 0, Some 1) \<and>
   (\<exists>x_range y_range flags.
      np_arange 0 (0 + 10) 4 = Inr x_range \<and> np_arange 0 (0 + 10) 4 = Inr y_range \<and>
      zip [0, 0, 0, 4, 4, 4, 8, 8, 8] [0, 4, 8, 0, 4, 8, 0, 4, 8 :: int] =
        map fst (filter snd (zip (List.product x_range y_range) flags)))"
proof -
  let ?run = "process_contour (cv_finding small_blob) tiny_slide (Some tiny_contour) []
         (tiles_of_four False) initial_state"
  let ?runp = "process_contour (cv_finding small_blob) tiny_slide (Some tiny_contour) []
         (tiles_of_four True) initial_state"
  have run: "?run = (Inr ([0, 0, 4, 4], [0, 4, 0, 4], [1, 1, 1, 1], Some 0, Some 1), snd ?run)"
    using tiny_unpadded by (metis prod.collapse)
  have runp: "?runp = (Inr ([0, 0, 0, 4, 4, 4, 8, 8, 8], [0, 4, 8, 0, 4, 8, 0, 4, 8],
            [1, 1, 1, 1, 1, 1, 1, 1, 1], Some 0, Some 1), snd ?runp)"
    using tiny_padded by (metis prod.collapse)
  have size: "0 \<le> tile_size (tiles_of_four padding)" and ov: "overlap (tiles_of_four padding) \<le> 1"
    and sp: "0 \<le> spacing (tiles_of_four padding)" for padding
    by (simp_all add: tiles_of_four_def)
  have np: "\<not> use_padding (tiles_of_four False)" and pad: "use_padding (tiles_of_four True)"
    by (simp_all add: tiles_of_four_def)
  have pos: "\<forall>s \<in> set (spacings tiny_slide). 0 < s"
    and dpos: "\<forall>d \<in> set (level_downsamples tiny_slide). 0 \<le> fst d \<and> 0 \<le> snd d"
    by (simp_all add: tiny_slide_def)
  have ld: "py_index (level_downsamples tiny_slide) 0 = Inr (1, 1)"
    and img: "py_index (level_dimensions tiny_slide) 0 = Inr (10, 10)"
    by (simp_all add: tiny_slide_def py_index_def)
  have "\<not> use_padding (tiles_of_four False) \<longrightarrow>
      (\<forall>i < length [0, 0, 4, 4 :: int].
        [0, 0, 4, 4] ! i + fst (ref_tile_sz (tiles_of_four False) 1 (1, 1)) \<le> (10 :: int) \<and>
        [0, 4, 0, 4] ! i + snd (ref_tile_sz (tiles_of_four False) 1 (1, 1)) \<le> (10 :: int))"
    using unpadded_tiles_inside [OF run size ov sp cache_ok_initial pos dpos ld img]
    by (elim conjE)
  then have every: "\<forall>i < length [0, 0, 4, 4 :: int].
        [0, 0, 4, 4] ! i + fst (ref_tile_sz (tiles_of_four False) 1 (1, 1)) \<le> (10 :: int) \<and>
        [0, 4, 0, 4] ! i + snd (ref_tile_sz (tiles_of_four False) 1 (1, 1)) \<le> (10 :: int)"
    using np by blast
  have a: "[0, 0, 4, 4] ! 3 + fst (ref_tile_sz (tiles_of_four False) 1 (1, 1)) \<le> (10 :: int) \<and>
      [0, 4, 0, 4] ! 3 + snd (ref_tile_sz (tiles_of_four False) 1 (1, 1)) \<le> (10 :: int)"
    using every [rule_format, of 3] by simp
  have gen: "use_padding (tiles_of_four True) \<longrightarrow>
      (\<forall>contour' holes' st0 res st0'.
         process_contour (cv_finding small_blob) tiny_slide contour' holes' (tiles_of_four True) st0 =
           (Inr res, st0') \<longrightarrow>
         (\<exists>c start_x start_y bw bh tile_level is_within st1 tile_spacing q fac dsl scale
             x_range y_range flags tissue_pcts.
            contour' = Some c \<and>
            boundingRect (cv_finding small_blob) c = (start_x, start_y, bw, bh) \<and>
            get_best_level_for_spacing tiny_slide (spacing (tiles_of_four True))
              (tolerance (tiles_of_four True)) True st0 = (Inr (tile_level, is_within), st1) \<and>
            get_level_spacing tiny_slide tile_level st1 = (Inr tile_spacing, st0') \<and>
            py_div (spacing (tiles_of_four True)) tile_spacing = Inr q \<and>
            fac = (if is_within then 1 else q) \<and>
            py_index (level_downsamples tiny_slide) tile_level = Inr dsl \<and>
            py_index (level_downsamples tiny_slide) (seg_level tiny_slide) = Inr scale \<and>
            np_arange start_x (start_x + bw) (fst (ref_step_size (tiles_of_four True) fac dsl)) =
              Inr x_range \<and>
            np_arange start_y (start_y + bh) (snd (ref_step_size (tiles_of_four True) fac dsl)) =
              Inr y_range \<and>
            check_coordinates (cv_finding small_blob)
              (scale_points c (1 / fst scale, 1 / snd scale)) holes'
              (binary_mask tiny_slide) (fst (ref_tile_sz (tiles_of_four True) fac dsl)) scale
              (min_tissue_ratio (tiles_of_four True)) (List.product x_range y_range) =
              (flags, tissue_pcts) \<and>
            res = (let kept = map fst (filter snd (zip (List.product x_range y_range) flags))
                   in if kept = [] then ([], [], [], None, None)
                      else (map fst kept, map snd kept,
                            map fst (filter snd (zip tissue_pcts flags)),
                            Some tile_level, Some fac))))"
    using unpadded_tiles_inside [OF runp size ov sp cache_ok_initial pos dpos ld img]
    by (elim conjE)
  have "\<exists>c start_x start_y bw bh tile_level is_within st1 tile_spacing q fac dsl scale
             x_range y_range flags tissue_pcts.
            Some tiny_contour = Some c \<and>
            boundingRect (cv_finding small_blob) c = (start_x, start_y, bw, bh) \<and>
            get_best_level_for_spacing tiny_slide (spacing (tiles_of_four True))
              (tolerance (tiles_of_four True)) True initial_state =
              (Inr (tile_level, is_within), st1) \<and>
            get_level_spacing tiny_slide tile_level st1 = (Inr tile_spacing, snd ?runp) \<and>
            py_div (spacing (tiles_of_four True)) tile_spacing = Inr q \<and>
            fac = (if is_within then 1 else q) \<and>
            py_index (level_downsamples tiny_slide) tile_level = Inr dsl \<and>
            py_index (level_downsamples tiny_slide) (seg_level tiny_slide) = Inr scale \<and>
            np_arange start_x (start_x + bw) (fst (ref_step_size (tiles_of_four True) fac dsl)) =
              Inr x_range \<and>
            np_arange start_y (start_y + bh) (snd (ref_step_size (tiles_of_four True) fac dsl)) =
              Inr y_range \<and>
            check_coordinates (cv_finding small_blob)
              (scale_points c (1 / fst scale, 1 / snd scale)) []
              (binary_mask tiny_slide) (fst (ref_tile_sz (tiles_of_four True) fac dsl)) scale
              (min_tissue_ratio (tiles_of_four True)) (List.product x_range y_range) =
              (flags, tissue_pcts) \<and>
            ([0, 0, 0, 4, 4, 4, 8, 8, 8], [0, 4, 8, 0, 4, 8, 0, 4, 8],
               [1, 1, 1, 1, 1, 1, 1, 1, 1], Some 0, Some 1) =
              (let kept = map fst (filter snd (zip (List.product x_range y_range) flags))
               in if kept = [] then ([], [], [], None, None)
                  else (map fst kept, map snd kept,
                        map fst (filter snd (zip tissue_pcts flags)),
                        Some tile_level, Some fac))"
    using gen [rule_format, OF pad runp] .
  then obtain c start_x start_y bw bh tile_level is_within st1 q fac dsl x_range y_range flags
      and tissue_pcts :: "real list" where
    c: "Some tiny_contour = Some c"
    and box: "boundingRect (cv_finding small_blob) c = (start_x, start_y, bw, bh)"
    and lv: "get_best_level_for_spacing tiny_slide (spacing (tiles_of_four True))
              (tolerance (tiles_of_four True)) True initial_state = (Inr (tile_level, is_within), st1)"
    and fac: "fac = (if is_within then 1 else q)"
    and dsl: "py_index (level_downsamples tiny_slide) tile_level = Inr dsl"
    and xr': "np_arange start_x (start_x + bw) (fst (ref_step_size (tiles_of_four True) fac dsl)) =
           Inr x_range"
    and yr': "np_arange start_y (start_y + bh) (snd (ref_step_size (tiles_of_four True) fac dsl)) =
           Inr y_range"
    and res: "([0, 0, 0, 4, 4, 4, 8, 8, 8], [0, 4, 8, 0, 4, 8, 0, 4, 8],
               [1, 1, 1, 1, 1, 1, 1, 1, 1], Some 0, Some 1) =
              (let kept = map fst (filter snd (zip (List.product x_range y_range) flags))
               in if kept = [] then ([], [], [], None, None)
                  else (map fst kept, map snd kept,
                        map fst (filter snd (zip tissue_pcts flags)),
                        Some tile_level, Some fac))"
    by blast
  have "tile_level = 0 \<and> is_within"
    using lv tiny_level by (simp add: tiles_of_four_def)
  then have f1: "fac = 1" and d1: "dsl = (1, 1)" using fac dsl ld by simp_all
  have xr: "np_arange start_x (start_x + bw) (fst (ref_step_size (tiles_of_four True) 1 (1, 1))) =
           Inr x_range"
    and yr: "np_arange start_y (start_y + bh) (snd (ref_step_size (tiles_of_four True) 1 (1, 1))) =
           Inr y_range"
    using xr' yr' unfolding f1 d1 by simp_all
  have "map fst (map fst (filter snd (zip (List.product x_range y_range) flags))) =
          [0, 0, 0, 4, 4, 4, 8, 8, 8] \<and>
        map snd (map fst (filter snd (zip (List.product x_range y_range) flags))) =
          [0, 4, 8, 0, 4, 8, 0, 4, 8]"
    using res by (simp add: Let_def split: if_splits)
  then have z: "zip [0, 0, 0, 4, 4, 4, 8, 8, 8] [0, 4, 8, 0, 4, 8, 0, 4, 8 :: int] =
           map fst (filter snd (zip (List.product x_range y_range) flags))"
    by (metis zip_map_fst_snd)
  have "boundingRect (cv_finding small_blob) tiny_contour = (0, 0, 10, 10)"
    by (simp add: cv_finding_def bounding_rect_def tiny_contour_def)
  then have b: "start_x = 0" "start_y = 0" "bw = 10" "bh = 10" using c box by simp_all
  have "np_arange 0 (0 + 10) 4 = Inr x_range \<and> np_arange 0 (0 + 10) 4 = Inr y_range"
    using xr yr unfolding b tiny_sizes by simp
  then have p: "\<exists>x_range y_range flags.
      np_arange 0 (0 + 10) 4 = Inr x_range \<and> np_arange 0 (0 + 10) 4 = Inr y_range \<and>
      zip [0, 0, 0, 4, 4, 4, 8, 8, 8] [0, 4, 8, 0, 4, 8, 0, 4, 8 :: int] =
        map fst (filter snd (zip (List.product x_range y_range) flags))"
    using z by blast
  show ?thesis
    using tiny_unpadded tiny_sizes(1) [of False] a tiny_padded p by (intro conjI) blast+
qed

section \<open>Merging the results of the contours\<close>

lemma merge_results_fails:
  "\<forall>r \<in> set rs. fst r \<noteq> [] \<longrightarrow> level_of r \<noteq> None \<Longrightarrow>
   (\<exists>L. al = Some L \<and> (\<exists>r \<in> set rs. fst r \<noteq> [] \<and> level_of r \<noteq> Some L)) \<or>
   (\<exists>r1 \<in> set rs. \<exists>r2 \<in> set rs. fst r1 \<noteq> [] \<and> fst r2 \<noteq> [] \<and> level_of r1 \<noteq> level_of r2) \<Longrightarrow>
   merge_results rs (ax, ay, ap, al, ar) = Inl AssertionError"
proof (induction rs arbitrary: ax ay ap al ar)
  case Nil
  then show ?case by simp
next
  case (Cons r rs)
  obtain xs ys ps l f where r: "r = (xs, ys, ps, l, f)" by (cases r) auto
  have wf: "\<forall>r \<in> set rs. fst r \<noteq> [] \<longrightarrow> level_of r \<noteq> None" using Cons.prems(1) by simp
  show ?case
  proof (cases "xs = []")
    case True
    have "(\<exists>L. al = Some L \<and> (\<exists>r \<in> set rs. fst r \<noteq> [] \<and> level_of r \<noteq> Some L)) \<or>
      (\<exists>r1 \<in> set rs. \<exists>r2 \<in> set rs. fst r1 \<noteq> [] \<and> fst r2 \<noteq> [] \<and> level_of r1 \<noteq> level_of r2)"
      using Cons.prems(2) True r by auto
    then show ?thesis using Cons.IH [OF wf] True r by simp
  next
    case False
    obtain M where M: "l = Some M" using Cons.prems(1) False r by (auto simp: level_of_def)
    show ?thesis
    proof (cases "al \<noteq> None \<and> al \<noteq> l")
      case True
      then show ?thesis using False r by simp
    next
      case ok: False
      have "(\<exists>r \<in> set rs. fst r \<noteq> [] \<and> level_of r \<noteq> Some M) \<or>
        (\<exists>r1 \<in> set rs. \<exists>r2 \<in> set rs. fst r1 \<noteq> [] \<and> fst r2 \<noteq> [] \<and> level_of r1 \<noteq> level_of r2)"
        using Cons.prems(2) ok M r False by (auto simp: level_of_def)
      then have "merge_results rs (ax @ xs, ay @ ys, ap @ ps, l, f) = Inl AssertionError"
        using Cons.IH [OF wf, of l] M by blast
      then show ?thesis using False ok r by simp
    qed
  qed
qed

lemma merge_results_agree:
  "\<forall>r \<in> set rs. fst r \<noteq> [] \<longrightarrow> level_of r = Some L \<Longrightarrow> al = None \<or> al = Some L \<Longrightarrow>
   merge_results rs (ax, ay, ap, al, ar) =
     Inr (ax @ concat (map fst (tiled rs)),
          ay @ concat (map (\<lambda>r. fst (snd r)) (tiled rs)),
          ap @ concat (map (\<lambda>r. fst (snd (snd r))) (tiled rs)),
          (if tiled rs = [] then al else Some L),
          (if tiled rs = [] then ar else factor_of (last (tiled rs))))"
proof (induction rs arbitrary: ax ay ap al ar)
  case Nil
  then show ?case by (simp add: tiled_def)
next
  case (Cons r rs)
  obtain xs ys ps l f where r: "r = (xs, ys, ps, l, f)" by (cases r) auto
  have wf: "\<forall>r \<in> set rs. fst r \<noteq> [] \<longrightarrow> level_of r = Some L" using Cons.prems(1) by simp
  show ?case
  proof (cases "xs = []")
    case True
    then show ?thesis using Cons.IH [OF wf Cons.prems(2)] r by (simp add: tiled_def)
  next
    case False
    have l: "l = Some L" using Cons.prems(1) False r by (simp add: level_of_def)
    have "merge_results rs (ax @ xs, ay @ ys, ap @ ps, l, f) =
      Inr ((ax @ xs) @ concat (map fst (tiled rs)),
          (ay @ ys) @ concat (map (\<lambda>r. fst (snd r)) (tiled rs)),
          (ap @ ps) @ concat (map (\<lambda>r. fst (snd (snd r))) (tiled rs)),
          (if tiled rs = [] then l else Some L),
          (if tiled rs = [] then f else factor_of (last (tiled rs))))"
      using Cons.IH [OF wf, of l] l by blast
    then show ?thesis using False l r Cons.prems(2) by (auto simp: tiled_def factor_of_def)
  qed
qed

text \<open>
  The loop on any list of per-contour results in which a result with at least one tile
  reports a tile level: two results with tiles and different levels end it with
  \<^verbatim>\<open>AssertionError\<close>; otherwise it joins the tiles of the results that have some, in order,
  with the level they share and the resize factor of the last of them, and passes over the
  results without tiles.
\<close>

lemma merge_results_levels:
  assumes wf: "\<forall>r \<in> set results. fst r \<noteq> [] \<longrightarrow> level_of r \<noteq> None"
  shows "((\<exists>r1 \<in> set results. \<exists>r2 \<in> set results.
             fst r1 \<noteq> [] \<and> fst r2 \<noteq> [] \<and> level_of r1 \<noteq> level_of r2) \<longrightarrow>
          merge_results results ([], [], [], None, None) = Inl AssertionError) \<and>
         ((\<forall>r1 \<in> set results. \<forall>r2 \<in> set results.
             fst r1 \<noteq> [] \<and> fst r2 \<noteq> [] \<longrightarrow> level_of r1 = level_of r2) \<longrightarrow>
          merge_results results ([], [], [], None, None) =
            Inr (concat (map fst (tiled results)),
                 concat (map (\<lambda>r. fst (snd r)) (tiled results)),
                 concat (map (\<lambda>r. fst (snd (snd r))) (tiled results)),
                 (if tiled results = [] then None else level_of (last (tiled results))),
                 (if tiled results = [] then None else factor_of (last (tiled results)))))"
proof (intro conjI impI)
  assume "\<exists>r1 \<in> set results. \<exists>r2 \<in> set results.
             fst r1 \<noteq> [] \<and> fst r2 \<noteq> [] \<and> level_of r1 \<noteq> level_of r2"
  then show "merge_results results ([], [], [], None, None) = Inl AssertionError"
    using merge_results_fails [OF wf] by blast
next
  assume same: "\<forall>r1 \<in> set results. \<forall>r2 \<in> set results.
             fst r1 \<noteq> [] \<and> fst r2 \<noteq> [] \<longrightarrow> level_of r1 = level_of r2"
  show "merge_results results ([], [], [], None, None) =
            Inr (concat (map fst (tiled results)),
                 concat (map (\<lambda>r. fst (snd r)) (tiled results)),
                 concat (map (\<lambda>r. fst (snd (snd r))) (tiled results)),
                 (if tiled results = [] then None else level_of (last (tiled results))),
                 (if tiled results = [] then None else factor_of (last (tiled results))))"
  proof (cases "tiled results = []")
    case True
    then have "\<forall>r \<in> set results. fst r \<noteq> [] \<longrightarrow> level_of r = Some 0"
      by (auto simp: tiled_def filter_empty_conv)
    then show ?thesis
      using merge_results_agree [of results 0 None "[]" "[]" "[]" None] True by simp
  next
    case False
    then have m: "last (tiled results) \<in> set (tiled results)" by simp
    then have lin: "last (tiled results) \<in> set results" "fst (last (tiled results)) \<noteq> []"
      by (simp_all add: tiled_def)
    then obtain L where L: "level_of (last (tiled results)) = Some L" using wf by blast
    have "\<forall>r \<in> set results. fst r \<noteq> [] \<longrightarrow> level_of r = Some L"
      using same lin L by metis
    then show ?thesis
      using merge_results_agree [of results L None "[]" "[]" "[]" None] False L by simp
  qed
qed

lemma contour_tiles_shape:
  "contour_tiles cv sl contour contour_holes tp tile_level w tile_spacing = Inr r \<Longrightarrow>
   (r = ([], [], [], None, None)) \<or> (fst r \<noteq> [] \<and> level_of r = Some tile_level)"
  unfolding contour_tiles_def Let_def
  by (auto simp: on_success_Inr_iff level_of_def split: if_splits prod.splits)

lemma process_contour_shape:
  assumes "process_contour cv sl contour contour_holes tp st = (Inr r, st')"
  shows "r = ([], [], [], None, None) \<or> (fst r \<noteq> [] \<and> level_of r \<noteq> None)"
proof -
  obtain tile_level w tile_spacing where
    "contour_tiles cv sl contour contour_holes tp tile_level w tile_spacing = Inr r"
    using process_contour_Inr [OF assms] by blast
  then show ?thesis using contour_tiles_shape by fastforce
qed

lemma run_tasks_made:
  "(i, r) \<in> set (fst (run_tasks task order st)) \<Longrightarrow> \<exists>s. r = fst (task i s)"
proof (induction order arbitrary: st)
  case Nil
  then show ?case by simp
next
  case (Cons j order)
  obtain r' st' where t: "task j st = (r', st')" by (cases "task j st")
  obtain rs st'' where rt: "run_tasks task order st' = (rs, st'')"
    by (cases "run_tasks task order st'")
  have "(i, r) = (j, r') \<or> (i, r) \<in> set (fst (run_tasks task order st'))"
    using Cons.prems t rt by simp
  then show ?case
  proof
    assume "(i, r) = (j, r')"
    then have "r = fst (task i st)" using t by simp
    then show ?thesis by blast
  next
    assume "(i, r) \<in> set (fst (run_tasks task order st'))"
    then show ?thesis by (rule Cons.IH)
  qed
qed

lemma collect_results_Inr: "collect_results xs = Inr rs \<Longrightarrow> xs = map Inr rs"
proof (induction xs arbitrary: rs)
  case Nil
  then show ?case by simp
next
  case (Cons x xs)
  show ?case
  proof (cases x)
    case (Inl e)
    then show ?thesis using Cons.prems by simp
  next
    case (Inr v)
    then obtain rest where "collect_results xs = Inr rest" "rs = v # rest"
      using Cons.prems by (auto split: sum.splits)
    then show ?thesis using Cons.IH Inr by simp
  qed
qed

lemma executor_map_made:
  assumes "executor_map task n num_workers schedule st = (Inr results, st')"
    and "r \<in> set results"
  shows "\<exists>i s. fst (task i s) = Inr r"
proof -
  obtain finished st1 where
    rt: "run_tasks task (task_order num_workers schedule n) st = (finished, st1)"
    by (cases "run_tasks task (task_order num_workers schedule n) st")
  have "collect_results (map snd (sort_key fst finished)) = Inr results"
    using assms(1) rt by (simp add: executor_map_def split: if_splits)
  then have "map snd (sort_key fst finished) = map Inr results" by (rule collect_results_Inr)
  then have "Inr r \<in> set (map snd (sort_key fst finished))" using assms(2) by simp
  then obtain i where "(i, Inr r) \<in> set finished" by auto
  then have "(i, Inr r) \<in> set (fst (run_tasks task (task_order num_workers schedule n) st))"
    using rt by simp
  then obtain s where "Inr r = fst (task i s)" using run_tasks_made by blast
  then show ?thesis by metis
qed

lemma process_single_contour_shape:
  assumes "fst (process_single_contour cv sl contours holes tp i s) = Inr r"
  shows "r = ([], [], [], None, None) \<or> (fst r \<noteq> [] \<and> level_of r \<noteq> None)"
proof -
  obtain c h where "fst (process_contour cv sl (Some c) h tp s) = Inr r"
    using assms unfolding process_single_contour_def and_then_def pure_step_def
    by (auto split: sum.splits)
  then have "process_contour cv sl (Some c) h tp s =
      (Inr r, snd (process_contour cv sl (Some c) h tp s))"
    by (metis prod.collapse)
  then show ?thesis by (rule process_contour_shape)
qed

lemma pool_results_shape:
  assumes "executor_map (process_single_contour cv sl contours holes tp) n num_workers schedule st
             = (Inr results, st')"
  shows "\<forall>r \<in> set results. fst r \<noteq> [] \<longrightarrow> level_of r \<noteq> None"
proof (intro ballI impI)
  fix r assume r: "r \<in> set results" and ne: "fst r \<noteq> []"
  obtain i s where "fst (process_single_contour cv sl contours holes tp i s) = Inr r"
    using executor_map_made [OF assms r] by blast
  then have "r = ([], [], [], None, None) \<or> (fst r \<noteq> [] \<and> level_of r \<noteq> None)"
    by (rule process_single_contour_shape)
  then show "level_of r \<noteq> None" using ne by auto
qed

text \<open>
  Claim C6.  Let the pool return a result for every contour.  Then \<^verbatim>\<open>process_contours\<close>
  returns what its loop makes of these results.  If two of them have tiles and report
  different tile levels, \<^verbatim>\<open>process_contours\<close> fails with \<^verbatim>\<open>AssertionError\<close> and returns nothing.
  Otherwise it returns the tiles of the results that have some, joined in submission order,
  with the level they share and the resize factor of the last of them; results without tiles
  are passed over, and if no result has tiles the level and the factor are \<^verbatim>\<open>None\<close>.  The
  assertion is that of the loop: on any list \<open>rs\<close> of results in which a result with tiles
  carries a level, as every result of the pool does, two results with tiles and different
  levels end the loop with \<^verbatim>\<open>AssertionError\<close>.
\<close>

theorem level_mismatch_asserts:
  assumes pool: "executor_map (process_single_contour cv sl contours holes tp) (length contours)
                   num_workers schedule st = (Inr results, st')"
  shows "((\<exists>r1 \<in> set results. \<exists>r2 \<in> set results.
             fst r1 \<noteq> [] \<and> fst r2 \<noteq> [] \<and> level_of r1 \<noteq> level_of r2) \<longrightarrow>
          process_contours cv sl contours holes tp num_workers schedule st =
            (Inl AssertionError, st')) \<and>
         ((\<forall>r1 \<in> set results. \<forall>r2 \<in> set results.
             fst r1 \<noteq> [] \<and> fst r2 \<noteq> [] \<longrightarrow> level_of r1 = level_of r2) \<longrightarrow>
          process_contours cv sl contours holes tp num_workers schedule st =
            (Inr (concat (map fst (tiled results)),
                  concat (map (\<lambda>r. fst (snd r)) (tiled results)),
                  concat (map (\<lambda>r. fst (snd (snd r))) (tiled results)),
                  (if tiled results = [] then None else level_of (last (tiled results))),
                  (if tiled results = [] then None else factor_of (last (tiled results)))),
             st')) \<and>
         ((\<forall>r \<in> set rs. fst r \<noteq> [] \<longrightarrow> level_of r \<noteq> None) \<and>
          (\<exists>r1 \<in> set rs. \<exists>r2 \<in> set rs.
             fst r1 \<noteq> [] \<and> fst r2 \<noteq> [] \<and> level_of r1 \<noteq> level_of r2) \<longrightarrow>
          merge_results rs ([], [], [], None, None) = Inl AssertionError)"
proof -
  have run: "process_contours cv sl contours holes tp num_workers schedule st =
      (merge_results results ([], [], [], None, None), st')"
    unfolding process_contours_def
    by (simp add: and_then_Inr [where f = "executor_map (process_single_contour cv sl contours holes tp)
      (length contours) num_workers schedule", OF pool] pure_step_def)
  have wf: "\<forall>r \<in> set results. fst r \<noteq> [] \<longrightarrow> level_of r \<noteq> None"
    using pool by (rule pool_results_shape)
  show ?thesis
    unfolding run using merge_results_levels [OF wf] merge_results_levels [of rs] by blast
qed

lemma warm_level:
  "get_best_level_for_spacing threefold_slide (1/4) (1/10) verbose warm_state =
     (Inr (0, True), warm_state)"
  by (simp add: threefold_slide_def get_best_level_for_spacing_def and_then_def pure_step_def
      get_level_spacing_def initial_state_def py_index_def py_div_def within_tolerance_def
      get_best_level_for_downsample_custom_def np_argmin_def warm_state_def)

lemma warm_spacing: "get_level_spacing threefold_slide 0 warm_state = (Inr (1/4), warm_state)"
  by (simp add: get_level_spacing_def warm_state_def initial_state_def)

lemma two_blobs_first:
  "process_contour (cv_finding two_blobs) threefold_slide
       (Some [(0, 0), (0, 15), (51, 15), (51, 0)]) [] tiles_of_sixteen warm_state
     = (Inr ([0, 16, 32, 48], [0, 0, 0, 0], [1, 1, 1, 1], Some 0, Some 1), warm_state)"
  unfolding process_contour_def
  apply (simp add: tiles_of_sixteen_def and_then_Inr [where f = "get_best_level_for_spacing threefold_slide (1/4) (1/10) True", OF warm_level]
      and_then_Inr [where f = "get_level_spacing threefold_slide 0", OF warm_spacing] pure_step_def)
  apply (simp add: contour_tiles_def Let_def threefold_slide_def py_div_def scan_box_def py_index_def
      ref_tile_sz_def ref_step_size_def tile_size_resized_def step_size_def tile_downsample_def
      py_int_def cv_finding_def bounding_rect_def scan_stops_def
      coord_candidates_def np_arange_def filtered_tiles_def mask_select_def upt_4
      scale_points_def)
  done

lemma two_blobs_second:
  "process_contour (cv_finding two_blobs) threefold_slide
       (Some [(90, 0), (90, 15), (141, 15), (141, 0)]) [] tiles_of_sixteen warm_state
     = (Inr ([90, 106, 122, 138], [0, 0, 0, 0], [1, 1, 1, 1], Some 0, Some 1), warm_state)"
  unfolding process_contour_def
  apply (simp add: tiles_of_sixteen_def and_then_Inr [where f = "get_best_level_for_spacing threefold_slide (1/4) (1/10) True", OF warm_level]
      and_then_Inr [where f = "get_level_spacing threefold_slide 0", OF warm_spacing] pure_step_def)
  apply (simp add: contour_tiles_def Let_def threefold_slide_def py_div_def scan_box_def py_index_def
      ref_tile_sz_def ref_step_size_def tile_size_resized_def step_size_def tile_downsample_def
      py_int_def cv_finding_def bounding_rect_def scan_stops_def
      coord_candidates_def np_arange_def filtered_tiles_def mask_select_def upt_4
      scale_points_def)
  done

lemma two_blobs_pool:
  "executor_map (process_single_contour (cv_finding two_blobs) threefold_slide
       [[(0, 0), (0, 15), (51, 15), (51, 0)], [(90, 0), (90, 15), (141, 15), (141, 0)]]
       [[], []] tiles_of_sixteen)
     (length [[(0, 0), (0, 15), (51, 15), (51, 0)], [(90, 0), (90, 15), (141, 15), (141, 0 :: int)] :: contour])
     1 (\<lambda>i. i) warm_state
     = (Inr [([0, 16, 32, 48], [0, 0, 0, 0], [1, 1, 1, 1], Some 0, Some 1),
             ([90, 106, 122, 138], [0, 0, 0, 0], [1, 1, 1, 1], Some 0, Some 1)], warm_state)"
  by (simp add: executor_map_def task_order_def upt_4
      process_single_contour_def py_index_def and_then_pure_Inr two_blobs_first two_blobs_second)

theorem level_mismatch_asserts_witness:
  "process_contours (cv_finding two_blobs) threefold_slide
       [[(0, 0), (0, 15), (51, 15), (51, 0)], [(90, 0), (90, 15), (141, 15), (141, 0)]]
       [[], []] tiles_of_sixteen 1 (\<lambda>i. i) warm_state
     = (Inr ([0, 16, 32, 48, 90, 106, 122, 138], [0, 0, 0, 0, 0, 0, 0, 0],
             [1, 1, 1, 1, 1, 1, 1, 1], Some 0, Some 1), warm_state) \<and>
   merge_results mismatched_results ([], [], [], None, None) = Inl AssertionError"
proof -
  let ?results = "[([0, 16, 32, 48], [0, 0, 0, 0], [1, 1, 1, 1], Some 0, Some 1),
             ([90, 106, 122, 138], [0, 0, 0, 0], [1, 1, 1, 1], Some 0, Some 1)] :: contour_result list"
  note all = level_mismatch_asserts [OF two_blobs_pool, of mismatched_results]
  have same: "\<forall>r1 \<in> set ?results. \<forall>r2 \<in> set ?results.
             fst r1 \<noteq> [] \<and> fst r2 \<noteq> [] \<longrightarrow> level_of r1 = level_of r2"
    by (simp add: level_of_def)
  have wf: "\<forall>r \<in> set mismatched_results. fst r \<noteq> [] \<longrightarrow> level_of r \<noteq> None"
    by (simp add: mismatched_results_def level_of_def)
  have d: "\<exists>r1 \<in> set mismatched_results. \<exists>r2 \<in> set mismatched_results.
             fst r1 \<noteq> [] \<and> fst r2 \<noteq> [] \<and> level_of r1 \<noteq> level_of r2"
    by (simp add: mismatched_results_def level_of_def)
  have "process_contours (cv_finding two_blobs) threefold_slide
       [[(0, 0), (0, 15), (51, 15), (51, 0)], [(90, 0), (90, 15), (141, 15), (141, 0)]]
       [[], []] tiles_of_sixteen 1 (\<lambda>i. i) warm_state
     = (Inr (concat (map fst (tiled ?results)),
                  concat (map (\<lambda>r. fst (snd r)) (tiled ?results)),
                  concat (map (\<lambda>r. fst (snd (snd r))) (tiled ?results)),
                  (if tiled ?results = [] then None else level_of (last (tiled ?results))),
                  (if tiled ?results = [] then None else factor_of (last (tiled ?results)))),
             warm_state)"
    using all same by blast
  then have a: "process_contours (cv_finding two_blobs) threefold_slide
       [[(0, 0), (0, 15), (51, 15), (51, 0)], [(90, 0), (90, 15), (141, 15), (141, 0)]]
       [[], []] tiles_of_sixteen 1 (\<lambda>i. i) warm_state
     = (Inr ([0, 16, 32, 48, 90, 106, 122, 138], [0, 0, 0, 0, 0, 0, 0, 0],
             [1, 1, 1, 1, 1, 1, 1, 1], Some 0, Some 1), warm_state)"
    by (simp add: tiled_def level_of_def factor_of_def)
  have b: "merge_results mismatched_results ([], [], [], None, None) = Inl AssertionError"
    using all wf d by blast
  show ?thesis using a b by (rule conjI)
qed

section \<open>A request that finds no tile\<close>

lemma merge_results_no_tiles:
  assumes "\<forall>r \<in> set results. fst r = []"
  shows "merge_results results ([], [], [], None, None) = Inr ([], [], [], None, None)"
proof -
  have t: "tiled results = []" using assms by (simp add: tiled_def filter_empty_conv)
  have "\<forall>r \<in> set results. fst r \<noteq> [] \<longrightarrow> level_of r = Some 0" using assms by simp
  then show ?thesis
    using merge_results_agree [of results 0 None "[]" "[]" "[]" None] t by simp
qed

text \<open>
  When \<^verbatim>\<open>detect_contours\<close> returns its contours, possibly none, and the pool returns a result
  for every contour, none of them with a tile, \<^verbatim>\<open>get_tile_coordinates\<close> returns no coordinates,
  no tissue percentages, \<^verbatim>\<open>None\<close> for the tile level and for the resize factor, and the tile
  size at level 0, \<open>int(tile_size * spacing / spacingOf(0))\<close>, which depends on nothing else.
\<close>

lemma empty_results_sentinel:
  assumes ok: "cache_ok sl st"
    and s0: "get_level_spacing sl 0 st = (Inr level_0_spacing, st0)"
    and nz: "level_0_spacing \<noteq> 0"
    and det: "detect_contours cv sl (spacing tp) (tolerance tp) fp st0 = (Inr (contours, holes), st1)"
    and pool: "executor_map (process_single_contour cv sl contours holes tp) (length contours)
                 num_workers schedule st1 = (Inr results, st2)"
    and none: "\<forall>r \<in> set results. fst r = []"
  shows "get_tile_coordinates cv sl tp fp num_workers schedule st =
           (Inr ([], [], None, None,
                 py_int (real_of_int (tile_size tp) * spacing tp / level_0_spacing)), st2) \<and>
         level_0_spacing = spacings sl ! 0"
proof -
  have d: "py_div (spacing tp) level_0_spacing = Inr (spacing tp / level_0_spacing)"
    using nz by (simp add: py_div_def)
  have pc: "process_contours cv sl contours holes tp num_workers schedule st1 =
      (Inr ([], [], [], None, None), st2)"
    unfolding process_contours_def
    by (simp add: and_then_Inr [where f = "executor_map (process_single_contour cv sl contours holes tp)
          (length contours) num_workers schedule", OF pool] pure_step_def
        merge_results_no_tiles [OF none])
  have a: "get_tile_coordinates cv sl tp fp num_workers schedule st =
           (Inr ([], [], None, None,
                 py_int (real_of_int (tile_size tp) * spacing tp / level_0_spacing)), st2)"
    unfolding get_tile_coordinates_def
    by (simp add: and_then_Inr [where f = "get_level_spacing sl 0", OF s0] d and_then_pure_Inr
        Let_def
        and_then_Inr [where f = "detect_contours cv sl (spacing tp) (tolerance tp) fp", OF det]
        and_then_Inr [where f = "process_contours cv sl contours holes tp num_workers schedule", OF pc]
        pure_step_def)
  have "py_index (spacings sl) 0 = Inr level_0_spacing"
    using get_level_spacing_value [OF ok, of 0] s0 by simp
  then have b: "level_0_spacing = spacings sl ! 0"
    by (auto simp: py_index_def split: if_splits)
  show ?thesis using a b by (rule conjI)
qed

lemma threefold_first_spacing:
  "get_level_spacing threefold_slide 0 initial_state =
     (Inr (1/4), initial_state\<lparr>level_spacing_cache := [0 \<mapsto> 1/4]\<rparr>)"
  by (simp add: get_level_spacing_def threefold_slide_def initial_state_def py_index_def)

lemma threefold_level_cached:
  "get_best_level_for_spacing threefold_slide (1/4) (1/10) verbose
       (initial_state\<lparr>level_spacing_cache := [0 \<mapsto> 1/4]\<rparr>) =
     (Inr (0, True), initial_state\<lparr>level_spacing_cache := [0 \<mapsto> 1/4]\<rparr>)"
  by (simp add: threefold_slide_def get_best_level_for_spacing_def and_then_def pure_step_def
      get_level_spacing_def initial_state_def py_index_def py_div_def within_tolerance_def
      get_best_level_for_downsample_custom_def np_argmin_def)

lemma threefold_spacing_cached:
  "get_level_spacing threefold_slide 0 (initial_state\<lparr>level_spacing_cache := [0 \<mapsto> 1/4]\<rparr>) =
     (Inr (1/4), initial_state\<lparr>level_spacing_cache := [0 \<mapsto> 1/4]\<rparr>)"
  by (simp add: get_level_spacing_def)

lemma rejecting_detect:
  "detect_contours (cv_rejecting small_blob) threefold_slide (1/4) (1/10) blob_params
       (initial_state\<lparr>level_spacing_cache := [0 \<mapsto> 1/4]\<rparr>)
     = (Inr ([[(0, 0), (0, 15), (51, 15), (51, 0)]], [[]]),
        initial_state\<lparr>level_spacing_cache := [0 \<mapsto> 1/4]\<rparr>)"
  unfolding detect_contours_def
  apply (simp add: and_then_Inr [where f = "get_best_level_for_spacing threefold_slide (1/4) (1/10) False", OF threefold_level_cached])
  apply (simp add: scaled_filter_params_def threefold_slide_def py_index_def py_div_def py_int_def
      blob_params_def Let_def and_then_pure_Inr cv_rejecting_def cv_finding_def small_blob_def
      child_parent_def filter_contours_def children_of_def polygon_area_def upt_rec [of 0]
      pure_step_def py_take_def scale_points_def)
  done

lemma rejecting_contour:
  "process_contour (cv_rejecting small_blob) threefold_slide
       (Some [(0, 0), (0, 15), (51, 15), (51, 0)]) [] tiles_of_sixteen
       (initial_state\<lparr>level_spacing_cache := [0 \<mapsto> 1/4]\<rparr>)
     = (Inr ([], [], [], None, None), initial_state\<lparr>level_spacing_cache := [0 \<mapsto> 1/4]\<rparr>)"
  unfolding process_contour_def
  apply (simp add: tiles_of_sixteen_def and_then_Inr [where f = "get_best_level_for_spacing threefold_slide (1/4) (1/10) True", OF threefold_level_cached]
      and_then_Inr [where f = "get_level_spacing threefold_slide 0", OF threefold_spacing_cached] pure_step_def)
  apply (simp add: contour_tiles_def Let_def threefold_slide_def py_div_def scan_box_def py_index_def
      ref_tile_sz_def ref_step_size_def tile_size_resized_def step_size_def tile_downsample_def
      py_int_def cv_rejecting_def cv_finding_def bounding_rect_def scan_stops_def
      coord_candidates_def np_arange_def filtered_tiles_def mask_select_def upt_4
      scale_points_def)
  done

lemma rejecting_pool:
  "executor_map (process_single_contour (cv_rejecting small_blob) threefold_slide
        [[(0, 0), (0, 15), (51, 15), (51, 0)]] [[]] tiles_of_sixteen)
       (length [[(0, 0), (0, 15), (51, 15), (51, 0 :: int)]]) 1 (\<lambda>i. i)
       (initial_state\<lparr>level_spacing_cache := [0 \<mapsto> 1/4]\<rparr>)
     = (Inr [([], [], [], None, None)], initial_state\<lparr>level_spacing_cache := [0 \<mapsto> 1/4]\<rparr>)"
  by (simp add: executor_map_def task_order_def process_single_contour_def py_index_def
      and_then_pure_Inr rejecting_contour)

lemma rejecting_request:
  "get_tile_coordinates (cv_rejecting small_blob) threefold_slide tiles_of_sixteen blob_params 1
       (\<lambda>i. i) initial_state
     = (Inr ([], [], None, None, 16), initial_state\<lparr>level_spacing_cache := [0 \<mapsto> 1/4]\<rparr>)"
proof -
  have nz: "(1/4 :: real) \<noteq> 0" by simp
  have det: "detect_contours (cv_rejecting small_blob) threefold_slide (spacing tiles_of_sixteen)
       (tolerance tiles_of_sixteen) blob_params (initial_state\<lparr>level_spacing_cache := [0 \<mapsto> 1/4]\<rparr>)
     = (Inr ([[(0, 0), (0, 15), (51, 15), (51, 0)]], [[]]),
        initial_state\<lparr>level_spacing_cache := [0 \<mapsto> 1/4]\<rparr>)"
    using rejecting_detect by (simp add: tiles_of_sixteen_def)
  have none: "\<forall>r \<in> set [([], [], [], None, None) :: contour_result]. fst r = []" by simp
  have v: "py_int (real_of_int (tile_size tiles_of_sixteen) * spacing tiles_of_sixteen / (1/4)) = 16"
    by (simp add: tiles_of_sixteen_def py_int_def)
  have "get_tile_coordinates (cv_rejecting small_blob) threefold_slide tiles_of_sixteen blob_params 1
       (\<lambda>i. i) initial_state
     = (Inr ([], [], None, None,
             py_int (real_of_int (tile_size tiles_of_sixteen) * spacing tiles_of_sixteen / (1/4))),
        initial_state\<lparr>level_spacing_cache := [0 \<mapsto> 1/4]\<rparr>)"
    using empty_results_sentinel [OF cache_ok_initial threefold_first_spacing nz det rejecting_pool none]
    by (rule conjunct1)
  then show ?thesis unfolding v .
qed

lemma detect_contours_blank:
  "\<exists>e. fst (detect_contours (cv\<lparr>findContours := (\<lambda>m. (found, None))\<rparr>) sl target tol fp st) = Inl e"
  unfolding detect_contours_def
  apply (rule and_then_fails)
  apply (simp split: prod.splits)
  apply (intro allI impI and_then_fails)
  apply (simp add: pure_step_def split: prod.splits)
  done

lemma and_then_fails_first:
  "\<exists>e. fst (f st) = Inl e \<Longrightarrow> \<exists>e. fst (and_then f g st) = Inl e"
  by (cases "f st") (auto simp: and_then_def)

lemma get_tile_coordinates_blank:
  "\<exists>e. fst (get_tile_coordinates (cv\<lparr>findContours := (\<lambda>m. (found, None))\<rparr>) sl tp fp
             num_workers schedule st) = Inl e"
  unfolding get_tile_coordinates_def Let_def
  apply (rule and_then_fails)
  apply (rule and_then_fails)
  apply (rule and_then_fails_first)
  apply (rule detect_contours_blank)
  done

lemma blank_detect:
  "detect_contours (cv_finding ([], None)) threefold_slide (1/4) (1/10) blob_params
       (initial_state\<lparr>level_spacing_cache := [0 \<mapsto> 1/4]\<rparr>)
     = (Inl ValueError, initial_state\<lparr>level_spacing_cache := [0 \<mapsto> 1/4]\<rparr>)"
  unfolding detect_contours_def
  apply (simp add: and_then_Inr [where f = "get_best_level_for_spacing threefold_slide (1/4) (1/10) False", OF threefold_level_cached])
  apply (simp add: scaled_filter_params_def threefold_slide_def py_index_def py_div_def py_int_def
      blob_params_def Let_def and_then_pure_Inr cv_finding_def pure_step_def)
  done

lemma blank_request:
  "get_tile_coordinates (cv_finding ([], None)) threefold_slide tiles_of_sixteen blob_params 1
       (\<lambda>i. i) initial_state
     = (Inl ValueError, initial_state\<lparr>level_spacing_cache := [0 \<mapsto> 1/4]\<rparr>)"
  unfolding get_tile_coordinates_def
  apply (simp add: and_then_Inr [where f = "get_level_spacing threefold_slide 0", OF threefold_first_spacing])
  apply (simp add: tiles_of_sixteen_def py_div_def and_then_pure_Inr Let_def)
  apply (simp add: and_then_Inl [where f = "detect_contours (cv_finding ([], None)) threefold_slide (1/4) (1/10) blob_params", OF blank_detect])
  done

lemma strict_detect:
  "detect_contours (cv_finding small_blob) threefold_slide (1/4) (1/10) strict_params
       (initial_state\<lparr>level_spacing_cache := [0 \<mapsto> 1/4]\<rparr>)
     = (Inr ([], []), initial_state\<lparr>level_spacing_cache := [0 \<mapsto> 1/4]\<rparr>)"
  unfolding detect_contours_def
  apply (simp add: and_then_Inr [where f = "get_best_level_for_spacing threefold_slide (1/4) (1/10) False", OF threefold_level_cached])
  apply (simp add: scaled_filter_params_def threefold_slide_def py_index_def py_div_def py_int_def
      strict_params_def Let_def and_then_pure_Inr cv_finding_def small_blob_def
      child_parent_def filter_contours_def children_of_def polygon_area_def upt_rec [of 0]
      pure_step_def py_take_def scale_points_def)
  done

lemma strict_request:
  "get_tile_coordinates (cv_finding small_blob) threefold_slide tiles_of_sixteen strict_params 1
       (\<lambda>i. i) initial_state
     = (Inr ([], [], None, None, 16), initial_state\<lparr>level_spacing_cache := [0 \<mapsto> 1/4]\<rparr>)"
  unfolding get_tile_coordinates_def
  apply (simp add: and_then_Inr [where f = "get_level_spacing threefold_slide 0", OF threefold_first_spacing])
  apply (simp add: tiles_of_sixteen_def py_div_def and_then_pure_Inr Let_def)
  apply (simp add: and_then_Inr [where f = "detect_contours (cv_finding small_blob) threefold_slide (1/4) (1/10) strict_params", OF strict_detect])
  apply (simp add: process_contours_def executor_map_def task_order_def and_then_def pure_step_def
      py_int_def)
  done

text \<open>
  Claim C10.  When the mask has no contour at all, \<^verbatim>\<open>cv2.findContours\<close> returns no hierarchy,
  \<^verbatim>\<open>np.squeeze\<close> raises inside \<^verbatim>\<open>detect_contours\<close>, and \<^verbatim>\<open>get_tile_coordinates\<close> raises instead
  of returning the empty result: for all collaborators that find no hierarchy, on every slide,
  for all settings and from every state.  On the two-level slide with downsample factor 3
  the error is \<^verbatim>\<open>ValueError\<close>.  On the same slide with the same tiling settings, a mask with
  one contour that the filter does not retain gives no coordinates, no tissue percentages,
  \<^verbatim>\<open>None\<close> for the tile level and for the resize factor, and the tile size 16 at level 0.
\<close>

theorem blank_mask_raises:
  "(\<exists>e. fst (get_tile_coordinates (cv\<lparr>findContours := (\<lambda>m. (found, None))\<rparr>) sl tp fp
              num_workers schedule st) = Inl e) \<and>
   fst (get_tile_coordinates (cv_finding ([], None)) threefold_slide tiles_of_sixteen blob_params 1
          (\<lambda>i. i) initial_state) = Inl ValueError \<and>
   fst (get_tile_coordinates (cv_finding small_blob) threefold_slide tiles_of_sixteen strict_params 1
          (\<lambda>i. i) initial_state) = Inr ([], [], None, None, 16)"
  by (intro conjI get_tile_coordinates_blank) (simp_all add: blank_request strict_request)

section \<open>Independence from the shared state and from the schedule\<close>

lemma agreeI:
  assumes "\<And>s. cache_ok sl s \<Longrightarrow> cache_ok sl (snd (f s))"
    and "\<And>s. cache_ok sl s \<Longrightarrow> cache_ok sl (snd (g s))"
    and "\<And>s1 s2. cache_ok sl s1 \<Longrightarrow> cache_ok sl s2 \<Longrightarrow> fst (f s1) = fst (g s2)"
  shows "agree sl f g"
  unfolding agree_def using assms by blast

lemma agree_left: "agree sl f g \<Longrightarrow> cache_ok sl s \<Longrightarrow> cache_ok sl (snd (f s))"
  by (simp add: agree_def)

lemma agree_right: "agree sl f g \<Longrightarrow> cache_ok sl s \<Longrightarrow> cache_ok sl (snd (g s))"
  by (simp add: agree_def)

lemma agree_value:
  "agree sl f g \<Longrightarrow> cache_ok sl s1 \<Longrightarrow> cache_ok sl s2 \<Longrightarrow> fst (f s1) = fst (g s2)"
  unfolding agree_def by blast

lemma agree_pure_step: "agree sl (pure_step r) (pure_step r)"
  by (simp add: agree_def pure_step_def)

lemma and_then_cases:
  "and_then f g st = (case fst (f st) of Inl e \<Rightarrow> (Inl e, snd (f st)) | Inr x \<Rightarrow> g x (snd (f st)))"
  by (cases "f st") (simp add: and_then_def split: sum.splits)

lemma agree_and_then:
  assumes f: "agree sl f f'" and g: "\<And>x. agree sl (g x) (g' x)"
  shows "agree sl (and_then f g) (and_then f' g')"
proof (rule agreeI)
  fix s assume s: "cache_ok sl s"
  show "cache_ok sl (snd (and_then f g s))"
    using agree_left [OF f s] agree_left [OF g]
    by (simp add: and_then_cases split: sum.splits)
  show "cache_ok sl (snd (and_then f' g' s))"
    using agree_right [OF f s] agree_right [OF g]
    by (simp add: and_then_cases split: sum.splits)
next
  fix s1 s2 assume s: "cache_ok sl s1" "cache_ok sl s2"
  have v: "fst (f s1) = fst (f' s2)" by (rule agree_value [OF f s])
  have k: "cache_ok sl (snd (f s1))" "cache_ok sl (snd (f' s2))"
    using agree_left [OF f s(1)] agree_right [OF f s(2)] by simp_all
  show "fst (and_then f g s1) = fst (and_then f' g' s2)"
    using v agree_value [OF g k]
    by (simp add: and_then_cases split: sum.splits)
qed

lemma agree_get_level_spacing: "agree sl (get_level_spacing sl level) (get_level_spacing sl level)"
  by (rule agreeI) (simp_all add: get_level_spacing_cache_ok get_level_spacing_value)

lemma spacing_walk_value:
  "cache_ok sl s1 \<Longrightarrow> cache_ok sl s2 \<Longrightarrow>
   fst (spacing_walk sl t tol level ls s1) = fst (spacing_walk sl t tol level ls s2)"
proof (induction sl t tol level ls s1 arbitrary: s2 rule: spacing_walk.induct)
  case (1 sl t tol level ls s1)
  show ?case
  proof (cases "level > 0 \<and> ls > t")
    case False
    then have "spacing_walk sl t tol level ls s1 = (Inr (level, ls, False), s1)"
      "spacing_walk sl t tol level ls s2 = (Inr (level, ls, False), s2)"
      by (subst spacing_walk.simps, auto)+
    then show ?thesis by simp
  next
    case True
    obtain r s1' where g1: "get_level_spacing sl (level - 1) s1 = (r, s1')"
      by (cases "get_level_spacing sl (level - 1) s1")
    obtain r' s2' where g2: "get_level_spacing sl (level - 1) s2 = (r', s2')"
      by (cases "get_level_spacing sl (level - 1) s2")
    have rr: "r' = r"
      using get_level_spacing_value [OF "1.prems"(1), of "level - 1"]
        get_level_spacing_value [OF "1.prems"(2), of "level - 1"] g1 g2 by simp
    have k: "cache_ok sl s1'" "cache_ok sl s2'"
      using get_level_spacing_cache_ok [OF "1.prems"(1), of "level - 1"]
        get_level_spacing_cache_ok [OF "1.prems"(2), of "level - 1"] g1 g2 by simp_all
    show ?thesis
    proof (cases r)
      case (Inl e)
      then have "spacing_walk sl t tol level ls s1 = (Inl e, s1')"
        "spacing_walk sl t tol level ls s2 = (Inl e, s2')"
        using True g1 g2 rr by (subst spacing_walk.simps, auto)+
      then show ?thesis by simp
    next
      case (Inr v)
      show ?thesis
      proof (cases "within_tolerance v t tol")
        case (Inl e)
        then have "spacing_walk sl t tol level ls s1 = (Inl e, s1')"
          "spacing_walk sl t tol level ls s2 = (Inl e, s2')"
          using True g1 g2 rr Inr by (subst spacing_walk.simps, auto)+
        then show ?thesis by simp
      next
        case w: (Inr w)
        show ?thesis
        proof (cases w)
          case hit: True
          then have "spacing_walk sl t tol level ls s1 = (Inr (level - 1, v, True), s1')"
            "spacing_walk sl t tol level ls s2 = (Inr (level - 1, v, True), s2')"
            using True g1 g2 rr Inr w by (subst spacing_walk.simps, auto)+
          then show ?thesis by simp
        next
          case False
          have ih: "fst (spacing_walk sl t tol (level - 1) v s1') =
                    fst (spacing_walk sl t tol (level - 1) v s2')"
            using "1.IH" [OF True g1 [symmetric] Inr w _ k] False by simp
          have "spacing_walk sl t tol level ls s1 = spacing_walk sl t tol (level - 1) v s1'"
            "spacing_walk sl t tol level ls s2 = spacing_walk sl t tol (level - 1) v s2'"
            using True g1 g2 rr Inr w False by (subst spacing_walk.simps, auto)+
          then show ?thesis using ih by simp
        qed
      qed
    qed
  qed
qed

lemma agree_spacing_walk:
  "agree sl (spacing_walk sl t tol level ls) (spacing_walk sl t tol level ls)"
proof (rule agreeI)
  show "cache_ok sl s \<Longrightarrow> cache_ok sl (snd (spacing_walk sl t tol level ls s))" for s
    by (rule spacing_walk_keeps [where I = "cache_ok sl"]) (simp_all add: get_level_spacing_cache_ok)
  then show "cache_ok sl s \<Longrightarrow> cache_ok sl (snd (spacing_walk sl t tol level ls s))" for s .
  show "cache_ok sl s1 \<Longrightarrow> cache_ok sl s2 \<Longrightarrow>
    fst (spacing_walk sl t tol level ls s1) = fst (spacing_walk sl t tol level ls s2)" for s1 s2
    by (rule spacing_walk_value)
qed

lemma agree_if:
  "(c \<Longrightarrow> agree sl f f') \<Longrightarrow> (\<not> c \<Longrightarrow> agree sl g g') \<Longrightarrow>
   agree sl (if c then f else g) (if c then f' else g')"
  by simp

lemma agree_pair:
  "(\<And>a b. agree sl (h a b) (h' a b)) \<Longrightarrow>
   agree sl (case p of (a, b) \<Rightarrow> h a b) (case p of (a, b) \<Rightarrow> h' a b)"
  by (cases p) simp

lemma agree_triple:
  "(\<And>a b c. agree sl (h a b c) (h' a b c)) \<Longrightarrow>
   agree sl (case p of (a, b, c) \<Rightarrow> h a b c) (case p of (a, b, c) \<Rightarrow> h' a b c)"
  by (cases p) simp

lemma agree_final:
  "agree sl (\<lambda>st. (r, if c then emit_warning d st else st))
            (\<lambda>st. (r, if c then emit_warning d st else st))"
  by (rule agreeI) (simp_all add: emit_warning_cache_ok)

lemma agree_get_best_level_for_spacing:
  "agree sl (get_best_level_for_spacing sl t tol verbose)
            (get_best_level_for_spacing sl t tol verbose)"
  unfolding get_best_level_for_spacing_def
  by (intro agree_and_then agree_pure_step agree_get_level_spacing agree_if agree_triple
      agree_spacing_walk agree_final)

lemma agree_option:
  "agree sl f f' \<Longrightarrow> (\<And>x. agree sl (g x) (g' x)) \<Longrightarrow>
   agree sl (case v of None \<Rightarrow> f | Some x \<Rightarrow> g x) (case v of None \<Rightarrow> f' | Some x \<Rightarrow> g' x)"
  by (cases v) simp_all

lemma agree_detect_contours:
  "agree sl (detect_contours cv sl t tol fp) (detect_contours cv sl t tol fp)"
  unfolding detect_contours_def Let_def
  by (intro agree_and_then agree_pure_step agree_get_best_level_for_spacing agree_pair
      agree_option)

lemma agree_process_contour:
  "agree sl (process_contour cv sl contour contour_holes tp)
            (process_contour cv sl contour contour_holes tp)"
  unfolding process_contour_def
  by (intro agree_and_then agree_pure_step agree_get_best_level_for_spacing agree_pair
      agree_get_level_spacing)

lemma agree_process_single_contour:
  "agree sl (process_single_contour cv sl contours holes tp i)
            (process_single_contour cv sl contours holes tp i)"
  unfolding process_single_contour_def
  by (intro agree_and_then agree_pure_step agree_process_contour)

lemma run_tasks_values:
  assumes task: "\<And>i. agree sl (task i) (task i)"
  shows "cache_ok sl st \<Longrightarrow>
         cache_ok sl (snd (run_tasks task order st)) \<and>
         fst (run_tasks task order st) = map (\<lambda>i. (i, fst (task i initial_state))) order"
proof (induction order arbitrary: st)
  case Nil
  then show ?case by simp
next
  case (Cons i order)
  obtain r st' where t: "task i st = (r, st')" by (cases "task i st")
  have k: "cache_ok sl st'" using agree_left [OF task Cons.prems, of i] t by simp
  have v: "r = fst (task i initial_state)"
    using agree_value [OF task Cons.prems cache_ok_initial, of i] t by simp
  obtain rs st'' where rt: "run_tasks task order st' = (rs, st'')"
    by (cases "run_tasks task order st'")
  show ?case using Cons.IH [OF k] t rt v by simp
qed

lemma task_order_mset: "mset (task_order num_workers schedule n) = mset [0..<n]"
  by (simp add: task_order_def)

lemma results_in_submission_order:
  assumes "mset order = mset [0..<n]"
  shows "map snd (sort_key fst (map (\<lambda>i. (i, v i)) order)) = map v [0..<n]"
proof -
  let ?g = "\<lambda>i. (i, v i)"
  have m: "mset (map ?g order) = mset (map ?g [0..<n])"
    using assms by (metis mset_map)
  have i: "inj_on fst (set (map ?g order))"
    by (auto simp: inj_on_def)
  have s: "sorted (map fst (map ?g [0..<n]))"
    by (simp add: comp_def)
  have "sort_key fst (map ?g order) = map ?g [0..<n]"
    by (rule sort_key_inj_key_eq [OF m i s])
  then show ?thesis by (simp add: comp_def)
qed

lemma executor_map_value:
  assumes task: "\<And>i. agree sl (task i) (task i)" and nw: "0 < num_workers"
    and ok: "cache_ok sl st"
  shows "cache_ok sl (snd (executor_map task n num_workers schedule st)) \<and>
         fst (executor_map task n num_workers schedule st) =
           collect_results (map (\<lambda>i. fst (task i initial_state)) [0..<n])"
proof -
  let ?order = "task_order num_workers schedule n"
  obtain finished st' where r: "run_tasks task ?order st = (finished, st')"
    by (cases "run_tasks task ?order st")
  have k: "cache_ok sl st'"
    and f: "finished = map (\<lambda>i. (i, fst (task i initial_state))) ?order"
    using run_tasks_values [where task = task and order = ?order, OF task ok] r by simp_all
  have "map snd (sort_key fst finished) = map (\<lambda>i. fst (task i initial_state)) [0..<n]"
    unfolding f by (rule results_in_submission_order [OF task_order_mset])
  then show ?thesis using nw r k by (simp add: executor_map_def)
qed

lemma agree_executor_map:
  assumes task: "\<And>i. agree sl (task i) (task i)" and nw: "0 < n1" "0 < n2"
  shows "agree sl (executor_map task n n1 sched1) (executor_map task n n2 sched2)"
  by (rule agreeI) (simp_all add: executor_map_value [OF task nw(1)] executor_map_value [OF task nw(2)])

lemma agree_process_contours:
  assumes nw: "0 < n1" "0 < n2"
  shows "agree sl (process_contours cv sl contours holes tp n1 sched1)
                  (process_contours cv sl contours holes tp n2 sched2)"
  unfolding process_contours_def
  by (intro agree_and_then agree_pure_step agree_executor_map agree_process_single_contour nw)

lemma agree_get_tile_coordinates:
  assumes nw: "0 < n1" "0 < n2"
  shows "agree sl (get_tile_coordinates cv sl tp fp n1 sched1)
                  (get_tile_coordinates cv sl tp fp n2 sched2)"
  unfolding get_tile_coordinates_def Let_def
  by (intro agree_and_then agree_pure_step agree_get_level_spacing agree_detect_contours
      agree_pair agree_process_contours nw)

lemma process_contours_value:
  assumes "0 < num_workers" "cache_ok sl st"
  shows "fst (process_contours cv sl contours holes tp num_workers schedule st) =
     on_success
       (collect_results
          (map (\<lambda>i. fst (process_single_contour cv sl contours holes tp i initial_state))
             [0..<length contours]))
       (\<lambda>results. merge_results results ([], [], [], None, None))"
proof -
  let ?task = "process_single_contour cv sl contours holes tp"
  have v: "fst (executor_map ?task (length contours) num_workers schedule st) =
      collect_results (map (\<lambda>i. fst (?task i initial_state)) [0..<length contours])"
    using executor_map_value [where task = ?task, OF agree_process_single_contour assms] by simp
  show ?thesis
    unfolding process_contours_def
    using v by (simp add: and_then_cases pure_step_def on_success_def split: sum.splits)
qed

text \<open>
  Claim C7.  For fixed collaborators, slide and configurations, the value returned by
  \<^verbatim>\<open>get_tile_coordinates\<close> (or the exception raised) is the same for every worker count of
  at least one, for every order in which the pool runs the contours, and for every state of
  the spacing cache, the warning flag and the output that the call starts in, as long as the
  cache agrees with the slide; the call leaves the cache in agreement, so a second call
  returns what the first did.  The per-contour results are merged in submission order,
  whatever the order in which they were computed.
\<close>

theorem tile_coordinates_deterministic:
  assumes "cache_ok sl st1" "cache_ok sl st2" "0 < n1" "0 < n2"
  shows "fst (get_tile_coordinates cv sl tp fp n1 sched1 st1) =
           fst (get_tile_coordinates cv sl tp fp n2 sched2 st2) \<and>
         cache_ok sl (snd (get_tile_coordinates cv sl tp fp n1 sched1 st1)) \<and>
         fst (process_contours cv sl contours holes tp n1 sched1 st1) =
           on_success
             (collect_results
                (map (\<lambda>i. fst (process_single_contour cv sl contours holes tp i initial_state))
                   [0..<length contours]))
             (\<lambda>results. merge_results results ([], [], [], None, None))"
proof -
  have a: "agree sl (get_tile_coordinates cv sl tp fp n1 sched1)
                    (get_tile_coordinates cv sl tp fp n2 sched2)"
    using assms(3,4) by (rule agree_get_tile_coordinates)
  show ?thesis
    using agree_value [OF a assms(1,2)] agree_left [OF a assms(1)]
      process_contours_value [OF assms(3,1)]
    by (intro conjI)
qed

lemma warm_first_spacing:
  "get_level_spacing threefold_slide 0 initial_state = (Inr (1/4), warm_state)"
  by (simp add: get_level_spacing_def threefold_slide_def initial_state_def py_index_def
      warm_state_def)

lemma two_blobs_detect:
  "detect_contours (cv_finding two_blobs) threefold_slide (1/4) (1/10) blob_params warm_state
     = (Inr ([[(0, 0), (0, 15), (51, 15), (51, 0)], [(90, 0), (90, 15), (141, 15), (141, 0)]],
             [[], []]), warm_state)"
  unfolding detect_contours_def
  apply (simp add: and_then_Inr [where f = "get_best_level_for_spacing threefold_slide (1/4) (1/10) False", OF warm_level])
  apply (simp add: scaled_filter_params_def threefold_slide_def py_index_def py_div_def py_int_def
      blob_params_def Let_def and_then_pure_Inr cv_finding_def two_blobs_def
      child_parent_def filter_contours_def children_of_def polygon_area_def upt_4
      pure_step_def py_take_def scale_points_def)
  done

lemma two_blobs_contours:
  "process_contours (cv_finding two_blobs) threefold_slide
       [[(0, 0), (0, 15), (51, 15), (51, 0)], [(90, 0), (90, 15), (141, 15), (141, 0)]]
       [[], []] tiles_of_sixteen 1 (\<lambda>i. i) warm_state
     = (Inr ([0, 16, 32, 48, 90, 106, 122, 138], [0, 0, 0, 0, 0, 0, 0, 0],
             [1, 1, 1, 1, 1, 1, 1, 1], Some 0, Some 1), warm_state)"
  by (simp add: process_contours_def executor_map_def task_order_def upt_4
      process_single_contour_def py_index_def and_then_pure_Inr two_blobs_first two_blobs_second
      and_then_def pure_step_def)

lemma two_blobs_request:
  "get_tile_coordinates (cv_finding two_blobs) threefold_slide tiles_of_sixteen blob_params 1
       (\<lambda>i. i) initial_state
     = (Inr ([(0, 0), (16, 0), (32, 0), (48, 0), (90, 0), (106, 0), (122, 0), (138, 0)],
             [1, 1, 1, 1, 1, 1, 1, 1], Some 0, Some 1, 16), warm_state)"
  unfolding get_tile_coordinates_def
  apply (simp add: and_then_Inr [where f = "get_level_spacing threefold_slide 0", OF warm_first_spacing])
  apply (simp add: tiles_of_sixteen_def py_div_def and_then_pure_Inr Let_def)
  apply (simp add: and_then_Inr [where f = "detect_contours (cv_finding two_blobs) threefold_slide (1/4) (1/10) blob_params", OF two_blobs_detect])
  apply (simp add: two_blobs_contours [unfolded tiles_of_sixteen_def] and_then_def pure_step_def py_int_def)
  done

lemma warm_state_ok: "cache_ok threefold_slide warm_state"
  by (simp add: cache_ok_def warm_state_def initial_state_def threefold_slide_def py_index_def)

theorem tile_coordinates_deterministic_witness:
  "fst (get_tile_coordinates (cv_finding two_blobs) threefold_slide tiles_of_sixteen blob_params 4
          (\<lambda>i. 1 - i) warm_state)
     = Inr ([(0, 0), (16, 0), (32, 0), (48, 0), (90, 0), (106, 0), (122, 0), (138, 0)],
            [1, 1, 1, 1, 1, 1, 1, 1], Some 0, Some 1, 16) \<and>
   get_tile_coordinates (cv_finding two_blobs) threefold_slide tiles_of_sixteen blob_params 1
       (\<lambda>i. i) initial_state
     = (Inr ([(0, 0), (16, 0), (32, 0), (48, 0), (90, 0), (106, 0), (122, 0), (138, 0)],
             [1, 1, 1, 1, 1, 1, 1, 1], Some 0, Some 1, 16), warm_state)"
proof -
  have n: "(0 :: int) < 1" "(0 :: int) < 4" by simp_all
  have "fst (get_tile_coordinates (cv_finding two_blobs) threefold_slide tiles_of_sixteen
               blob_params 1 (\<lambda>i. i) initial_state) =
        fst (get_tile_coordinates (cv_finding two_blobs) threefold_slide tiles_of_sixteen
               blob_params 4 (\<lambda>i. 1 - i) warm_state)"
    using tile_coordinates_deterministic [OF cache_ok_initial warm_state_ok n]
    by (rule conjunct1)
  then show ?thesis using two_blobs_request by simp
qed

end
